(* ===== verification/Prelude.thy ===== *)
theory Prelude
  imports Main
begin

text \<open>
  What every theory of the development shares: Go's error values and unrendered
  \<open>fmt.Sprintf\<close> calls, Go maps that can be nil, and the growing history of calls that a
  run of the operator makes against the outside world.

  Text that is only shown to people (error texts, condition messages, event messages) is
  kept as the \<open>fmt\<close> call that the code writes, a format string with its arguments,
  and is not rendered.
\<close>

section \<open>Lemma collections\<close>

named_theorems go_simps "equations that evaluate the Go library functions"
named_theorems grow_intros "rules that show that a step only appends permitted calls"

section \<open>Errors and formatted text\<close>

datatype fmt_arg = FStr string | FInt int | FDur int

text \<open>
  Go's error values: an error from a package outside the repository (\<open>ApiError\<close>), an error
  of the Go library (\<open>StdError\<close> function input kind), \<open>fmt.Errorf\<close> without and with
  a wrapped \<open>%w\<close> error. \<open>GoPanic\<close> is the value of a run that panics.
\<close>

datatype go_error =
    ApiError string
  | StdError string string string
  | Errorf string "fmt_arg list"
  | Wrapf string "fmt_arg list" go_error
  | GoPanic string

text \<open>
  A text: a call of \<open>fmt.Sprintf\<close>, or \<open>err.Error()\<close>. A literal is a format without
  arguments.
\<close>

datatype go_text = Sprintf string "fmt_arg list" | ErrorText go_error

abbreviation lit :: "string \<Rightarrow> go_text" where
  "lit s \<equiv> Sprintf s []"

text \<open>The result \<open>(T, error)\<close> of a Go function whose value is unused when the error is set.\<close>

type_synonym 'a go_result = "go_error + 'a"

definition is_ok :: "'a go_result \<Rightarrow> bool" where
  "is_ok r = (case r of Inl _ \<Rightarrow> False | Inr _ \<Rightarrow> True)"

lemma is_ok_simps [simp]: "is_ok (Inr x)" "\<not> is_ok (Inl e)"
  by (simp_all add: is_ok_def)

lemma is_ok_iff: "is_ok r \<longleftrightarrow> (\<exists>x. r = Inr x)"
  by (cases r) auto

section \<open>Go maps\<close>

text \<open>
  A Go map variable is nil (\<open>None\<close>) or a map. Reading a nil map finds nothing;
  \<open>delete\<close> on it does nothing.
\<close>

type_synonym 'v go_map = "(string \<rightharpoonup> 'v) option"

definition map_lookup :: "'v go_map \<Rightarrow> string \<Rightarrow> 'v option" where
  "map_lookup m k = (case m of None \<Rightarrow> None | Some f \<Rightarrow> f k)"

definition map_delete :: "'v go_map \<Rightarrow> string \<Rightarrow> 'v go_map" where
  "map_delete m k = map_option (\<lambda>f. f(k := None)) m"

text \<open>\<open>if m == nil { m = map[string]V{} }\<close>.\<close>

definition map_made :: "'v go_map \<Rightarrow> (string \<rightharpoonup> 'v)" where
  "map_made m = (case m of None \<Rightarrow> Map.empty | Some f \<Rightarrow> f)"

lemma map_lookup_simps [simp]:
  "map_lookup None k = None"
  "map_lookup (Some f) k = f k"
  by (simp_all add: map_lookup_def)

lemma map_made_simps [simp]:
  "map_made None = Map.empty"
  "map_made (Some f) = f"
  by (simp_all add: map_made_def)

lemma map_lookup_made [simp]: "map_made m k = map_lookup m k"
  by (cases m) simp_all

lemma map_made_same [simp]: "map_lookup m k = Some v \<Longrightarrow> (map_made m)(k \<mapsto> v) = map_made m"
  by (intro ext) simp

lemma map_lookup_delete [simp]:
  "map_lookup (map_delete m k) k' = (if k' = k then None else map_lookup m k')"
  by (cases m) (simp_all add: map_delete_def)

lemma map_delete_simps [simp]:
  "map_delete None k = None"
  "map_delete (Some f) k = Some (f(k := None))"
  by (simp_all add: map_delete_def)

section \<open>Growing histories\<close>

text \<open>
  A run of the operator appends calls to a history. \<open>grows P h h'\<close>: \<open>h'\<close> is \<open>h\<close> followed
  by calls that all satisfy \<open>P\<close>.
\<close>

definition grows :: "('c \<Rightarrow> bool) \<Rightarrow> 'c list \<Rightarrow> 'c list \<Rightarrow> bool" where
  "grows P h h' \<longleftrightarrow> (\<exists>cs. h' = h @ cs \<and> list_all P cs)"

lemma grows_refl [simp, grow_intros]: "grows P h h"
  by (simp add: grows_def)

lemma grows_snoc [grow_intros]: "P c \<Longrightarrow> grows P h (h @ [c])"
  by (simp add: grows_def)

lemma grows_trans [trans]: "grows P h h' \<Longrightarrow> grows P h' h'' \<Longrightarrow> grows P h h''"
  by (auto simp: grows_def)

lemma grows_mono: "grows P h h' \<Longrightarrow> (\<And>c. P c \<Longrightarrow> Q c) \<Longrightarrow> grows Q h h'"
  by (auto simp: grows_def list_all_iff)

lemma grows_snocI: "grows P h h' \<Longrightarrow> P c \<Longrightarrow> grows P h (h' @ [c])"
  by (auto simp: grows_def)

lemma grows_forbids:
  "grows P h h' \<Longrightarrow> \<not> P c \<Longrightarrow> c \<in> set h' \<Longrightarrow> c \<in> set h"
  by (auto simp: grows_def list_all_iff)

lemma grows_member: "grows P h h' \<Longrightarrow> c \<in> set h \<Longrightarrow> c \<in> set h'"
  by (auto simp: grows_def)

lemma grows_drop:
  "grows P h h' \<Longrightarrow> list_all P (drop (length h) h') \<and> take (length h) h' = h"
  by (auto simp: grows_def)

section \<open>Early returns\<close>

text \<open>
  \<open>x, err := p; if err != nil { return err }\<close>, where \<open>p\<close> has run and left a history: the
  rest of the function runs on the value and the history, or not at all.
\<close>

definition go_bind ::
  "'a go_result \<times> 'c list \<Rightarrow> ('a \<Rightarrow> 'c list \<Rightarrow> 'b go_result \<times> 'c list) \<Rightarrow> 'b go_result \<times> 'c list" where
  "go_bind p f = (case p of (Inl err, h) \<Rightarrow> (Inl err, h) | (Inr x, h) \<Rightarrow> f x h)"

lemma go_bind_simps [simp]:
  "go_bind (Inl err, h) f = (Inl err, h)"
  "go_bind (Inr x, h) f = f x h"
  by (simp_all add: go_bind_def)

lemma go_bind_ok_iff:
  "go_bind p f = (Inr y, h') \<longleftrightarrow> (\<exists>x h1. p = (Inr x, h1) \<and> f x h1 = (Inr y, h'))"
  by (auto simp: go_bind_def split: prod.splits sum.splits)

lemma go_bind_error_iff:
  "go_bind p f = (Inl err, h') \<longleftrightarrow>
   p = (Inl err, h') \<or> (\<exists>x h1. p = (Inr x, h1) \<and> f x h1 = (Inl err, h'))"
  by (auto simp: go_bind_def split: prod.splits sum.splits)

lemma grows_go_bind [grow_intros]:
  assumes "grows P h (snd p)" "\<And>x h1. p = (Inr x, h1) \<Longrightarrow> grows P h1 (snd (f x h1))"
  shows "grows P h (snd (go_bind p f))"
proof (cases p)
  case (Pair res h1)
  with assms show ?thesis by (cases res) (auto intro: grows_trans)
qed

lemma go_bind_cong:
  "p = p' \<Longrightarrow> (\<And>x h1. p' = (Inr x, h1) \<Longrightarrow> f x h1 = g x h1) \<Longrightarrow> go_bind p f = go_bind p' g"
  by (auto simp: go_bind_def split: prod.splits sum.splits)

end
