(* ===== verification/Go_Strings.thy ===== *)
theory Go_Strings
  imports Prelude
begin

text \<open>
  The functions of Go's \<open>strings\<close> and \<open>strconv\<close> packages that the operator uses, on
  byte strings: \<open>strings.TrimSpace\<close>, \<open>strings.Split\<close> on a one-byte separator,
  \<open>strconv.FormatInt\<close> in base 10 and \<open>strconv.ParseInt(s, 10, 32)\<close>.
\<close>

section \<open>Bytes and digits\<close>

definition byte :: "char \<Rightarrow> nat" where
  "byte c = of_char c"

definition is_digit :: "char \<Rightarrow> bool" where
  "is_digit c \<longleftrightarrow> 48 \<le> byte c \<and> byte c \<le> 57"

definition digit_val :: "char \<Rightarrow> nat" where
  "digit_val c = byte c - 48"

definition digit_char :: "nat \<Rightarrow> char" where
  "digit_char d = char_of (48 + d)"

lemma byte_digit_char: "d < 10 \<Longrightarrow> byte (digit_char d) = 48 + d"
  by (simp add: byte_def digit_char_def)

lemma is_digit_digit_char [simp]: "d < 10 \<Longrightarrow> is_digit (digit_char d)"
  by (simp add: is_digit_def byte_digit_char)

lemma digit_val_digit_char [simp]: "d < 10 \<Longrightarrow> digit_val (digit_char d) = d"
  by (simp add: digit_val_def byte_digit_char)

lemma digit_val_less: "is_digit c \<Longrightarrow> digit_val c < 10"
  unfolding is_digit_def digit_val_def by linarith

lemma is_digit_not_sign: "is_digit c \<Longrightarrow> c \<noteq> CHR ''-'' \<and> c \<noteq> CHR ''+'' \<and> c \<noteq> CHR ''.''"
  by (auto simp: is_digit_def byte_def)

section \<open>Decimal numbers\<close>

definition nat_of_digits :: "string \<Rightarrow> nat" where
  "nat_of_digits s = foldl (\<lambda>a c. 10 * a + digit_val c) 0 s"

fun digits_of :: "nat \<Rightarrow> string" where
  "digits_of n = (if n < 10 then [digit_char n] else digits_of (n div 10) @ [digit_char (n mod 10)])"

declare digits_of.simps [simp del]

lemma nat_of_digits_Nil [simp]: "nat_of_digits [] = 0"
  by (simp add: nat_of_digits_def)

lemma nat_of_digits_snoc [simp]: "nat_of_digits (s @ [c]) = 10 * nat_of_digits s + digit_val c"
  by (simp add: nat_of_digits_def)

lemma digits_of_nonempty [simp]: "digits_of n \<noteq> []"
  by (subst digits_of.simps) simp

lemma digits_of_all_digits: "list_all is_digit (digits_of n)"
proof (induction n rule: digits_of.induct)
  case (1 n)
  then show ?case by (subst digits_of.simps) auto
qed

lemma nat_of_digits_of [simp]: "nat_of_digits (digits_of n) = n"
proof (induction n rule: digits_of.induct)
  case (1 n)
  show ?case
  proof (cases "n < 10")
    case True
    then have "nat_of_digits ([] @ [digit_char n]) = n" by (subst nat_of_digits_snoc) simp
    with True show ?thesis by (simp add: digits_of.simps [of n])
  next
    case False
    with 1 have "nat_of_digits (digits_of (n div 10)) = n div 10" by simp
    with False show ?thesis by (simp add: digits_of.simps [of n])
  qed
qed

text \<open>\<open>strconv.FormatInt(i, 10)\<close>, which \<open>fmt.Sprintf("%d", i)\<close> also prints.\<close>

definition format_int :: "int \<Rightarrow> string" where
  "format_int i = (if i < 0 then CHR ''-'' # digits_of (nat (- i)) else digits_of (nat i))"

text \<open>
  \<open>strconv.ParseInt(s, 10, 32)\<close>: an optional sign, then at least one digit and nothing
  else, and a value of 32 bits. (A base of 10 admits no underscores.)
\<close>

definition split_sign :: "string \<Rightarrow> bool \<times> string" where
  "split_sign s = (case s of
     c # cs \<Rightarrow> if c = CHR ''-'' then (True, cs) else if c = CHR ''+'' then (False, cs) else (False, s)
   | [] \<Rightarrow> (False, s))"

definition parseInt32 :: "string \<Rightarrow> int go_result" where
  "parseInt32 s =
     (let (neg, ds) = split_sign s in
      if ds = [] \<or> \<not> list_all is_digit ds then Inl (StdError ''strconv.ParseInt'' s ''invalid syntax'')
      else
        let un = int (nat_of_digits ds) in
        if \<not> neg \<and> 2 ^ 31 \<le> un \<or> neg \<and> 2 ^ 31 < un
        then Inl (StdError ''strconv.ParseInt'' s ''value out of range'')
        else Inr (if neg then - un else un))"

lemma split_sign_digits: "list_all is_digit (d # ds) \<Longrightarrow> split_sign (d # ds) = (False, d # ds)"
  by (auto simp: split_sign_def dest: is_digit_not_sign)

lemma split_sign_digits_of [simp]: "split_sign (digits_of n) = (False, digits_of n)"
  using split_sign_digits digits_of_all_digits [of n] by (cases "digits_of n") auto

lemma split_sign_minus [simp]: "split_sign (CHR ''-'' # s) = (True, s)"
  by (simp add: split_sign_def)

lemma parseInt32_format_int:
  "- (2 ^ 31) \<le> i \<Longrightarrow> i < 2 ^ 31 \<Longrightarrow> parseInt32 (format_int i) = Inr i"
  by (auto simp: parseInt32_def format_int_def digits_of_all_digits)

lemma parseInt32_range:
  "parseInt32 s = Inr i \<Longrightarrow> - (2 ^ 31) \<le> i \<and> i < 2 ^ 31"
  by (auto simp: parseInt32_def Let_def split: prod.splits if_splits)

section \<open>White space\<close>

text \<open>
  The UTF-8 encodings of the runes that \<open>unicode.IsSpace\<close> accepts: the six ASCII ones,
  then U+0085, U+00A0, U+1680, U+2000 to U+200A, U+2028, U+2029, U+202F, U+205F, U+3000.
\<close>

definition space_codes :: "string list" where
  "space_codes =
     map (\<lambda>b. [char_of b]) [9, 10, 11, 12, 13, 32 :: nat]
     @ map (\<lambda>bs. map char_of bs)
        ([[0xC2, 0x85], [0xC2, 0xA0], [0xE1, 0x9A, 0x80]]
         @ map (\<lambda>b. [0xE2, 0x80, b]) [0x80, 0x81, 0x82, 0x83, 0x84, 0x85, 0x86, 0x87, 0x88, 0x89,
             0x8A, 0xA8, 0xA9, 0xAF]
         @ [[0xE2, 0x81, 0x9F], [0xE3, 0x80, 0x80 :: nat]])"

text \<open>Drop from the front while one of the given non-empty codes is a prefix.\<close>

fun is_prefix :: "string \<Rightarrow> string \<Rightarrow> bool" where
  "is_prefix [] s = True"
| "is_prefix (p # ps) [] = False"
| "is_prefix (p # ps) (c # cs) = (p = c \<and> is_prefix ps cs)"

function trim_front :: "string list \<Rightarrow> string \<Rightarrow> string" where
  "trim_front codes s =
     (case List.find (\<lambda>p. p \<noteq> [] \<and> is_prefix p s) codes of
        None \<Rightarrow> s
      | Some p \<Rightarrow> trim_front codes (drop (length p) s))"
  by pat_completeness auto
termination
proof (relation "measure (\<lambda>(codes, s). length s)", goal_cases)
  case 1
  show ?case by simp
next
  case (2 codes s p)
  then have "p \<noteq> []" "is_prefix p s"
    by (auto simp: find_Some_iff)
  then show ?case by (cases p; cases s) auto
qed

declare trim_front.simps [simp del]

definition trimSpace :: "string \<Rightarrow> string" where
  "trimSpace s = rev (trim_front (map rev space_codes) (rev (trim_front space_codes s)))"

lemma trim_front_suffix: "\<exists>p. s = p @ trim_front codes s"
proof (induction codes s rule: trim_front.induct)
  case (1 codes s)
  show ?case
  proof (cases "List.find (\<lambda>p. p \<noteq> [] \<and> is_prefix p s) codes")
    case None
    then show ?thesis by (simp add: trim_front.simps [of codes s])
  next
    case (Some p)
    from "1.IH" [OF Some] obtain p' where "drop (length p) s = p' @ trim_front codes (drop (length p) s)"
      by blast
    then have "s = (take (length p) s @ p') @ trim_front codes (drop (length p) s)"
      by (metis append.assoc append_take_drop_id)
    with Some show ?thesis by (metis (no_types, lifting) option.simps(5) trim_front.simps)
  qed
qed

lemma trim_front_stable:
  "List.find (\<lambda>p. p \<noteq> [] \<and> is_prefix p (trim_front codes s)) codes = None"
proof (induction codes s rule: trim_front.induct)
  case (1 codes s)
  then show ?case
    by (cases "List.find (\<lambda>p. p \<noteq> [] \<and> is_prefix p s) codes")
       (simp_all add: trim_front.simps [of codes s])
qed

lemma trim_front_noop:
  "List.find (\<lambda>p. p \<noteq> [] \<and> is_prefix p s) codes = None \<Longrightarrow> trim_front codes s = s"
  by (simp add: trim_front.simps [of codes s])

lemma trim_front_idem [simp]: "trim_front codes (trim_front codes s) = trim_front codes s"
  by (rule trim_front_noop) (rule trim_front_stable)

text \<open>A string that begins and ends with a printable ASCII character is not trimmed.\<close>

definition printable :: "char \<Rightarrow> bool" where
  "printable c \<longleftrightarrow> 33 \<le> byte c \<and> byte c \<le> 126"

lemma is_prefix_hd: "p \<noteq> [] \<Longrightarrow> is_prefix p s \<Longrightarrow> s \<noteq> [] \<and> hd p = hd s"
  by (cases p; cases s) auto

lemma trim_front_printable:
  assumes "list_all (\<lambda>p. p \<noteq> [] \<and> \<not> printable (hd p)) codes" "printable (hd s)"
  shows "trim_front codes s = s"
proof (rule trim_front_noop)
  show "List.find (\<lambda>p. p \<noteq> [] \<and> is_prefix p s) codes = None"
    using assms is_prefix_hd by (fastforce simp: find_None_iff list_all_iff)
qed

lemma space_codes_not_printable:
  "list_all (\<lambda>p. p \<noteq> [] \<and> \<not> printable (hd p)) space_codes"
  "list_all (\<lambda>p. p \<noteq> [] \<and> \<not> printable (hd p)) (map rev space_codes)"
  by (simp_all add: space_codes_def printable_def byte_def)

lemma trimSpace_Nil [simp]: "trimSpace [] = []"
  by (simp add: trimSpace_def trim_front.simps space_codes_def)

lemma trimSpace_printable: "s \<noteq> [] \<Longrightarrow> printable (hd s) \<Longrightarrow> printable (last s) \<Longrightarrow> trimSpace s = s"
  by (simp add: trimSpace_def trim_front_printable space_codes_not_printable hd_rev)

section \<open>Splitting\<close>

text \<open>\<open>strings.Split(s, sep)\<close> for a separator of one byte.\<close>

fun split_on :: "char \<Rightarrow> string \<Rightarrow> string list" where
  "split_on sep [] = [[]]"
| "split_on sep (c # cs) =
     (if c = sep then [] # split_on sep cs
      else (case split_on sep cs of [] \<Rightarrow> [[c]] | p # ps \<Rightarrow> (c # p) # ps))"

fun join_with :: "char \<Rightarrow> string list \<Rightarrow> string" where
  "join_with sep [] = []"
| "join_with sep [p] = p"
| "join_with sep (p # ps) = p @ sep # join_with sep ps"

lemma split_on_nonempty [simp]: "split_on sep s \<noteq> []"
  by (induction s) (auto split: list.splits)

lemma join_with_Cons: "ps \<noteq> [] \<Longrightarrow> join_with sep (p # ps) = p @ sep # join_with sep ps"
  by (cases ps) simp_all

lemma join_with_Cons_Cons: "join_with sep ((c # p) # ps) = c # join_with sep (p # ps)"
  by (cases ps) simp_all

lemma join_split_on: "join_with sep (split_on sep s) = s"
proof (induction s)
  case Nil
  then show ?case by simp
next
  case (Cons c s)
  then show ?case
    by (auto simp: join_with_Cons join_with_Cons_Cons split: list.splits)
qed

lemma split_on_no_sep: "p \<in> set (split_on sep s) \<Longrightarrow> sep \<notin> set p"
proof (induction s arbitrary: p)
  case Nil
  then show ?case by simp
next
  case (Cons c s)
  then show ?case by (fastforce split: if_splits list.splits)
qed

lemma split_on_single: "sep \<notin> set p \<Longrightarrow> split_on sep p = [p]"
  by (induction p) auto

lemma split_on_append: "sep \<notin> set p \<Longrightarrow> split_on sep (p @ sep # s) = p # split_on sep s"
  by (induction p) auto

end
