(* ===== verification/Go_Float.thy ===== *)
theory Go_Float
  imports Complex_Main Go_Strings
begin

text \<open>
  Go's \<open>float64\<close>: IEEE 754 binary64 with exact rationals as the finite values. Holds
  rounding to nearest even, addition and comparison, and that all three are monotone.
\<close>

section \<open>Rounding\<close>

fun ilog2 :: "nat \<Rightarrow> nat" where
  "ilog2 n = (if n < 2 then 0 else Suc (ilog2 (n div 2)))"

declare ilog2.simps [simp del]

lemma ilog2_bounds: "0 < n \<Longrightarrow> 2 ^ ilog2 n \<le> n \<and> n < 2 ^ Suc (ilog2 n)"
proof (induction n rule: ilog2.induct)
  case (1 n)
  show ?case
  proof (cases "n < 2")
    case True
    with 1 show ?thesis by (simp add: ilog2.simps)
  next
    case False
    with 1 have "2 ^ ilog2 (n div 2) \<le> n div 2" "n div 2 < 2 ^ Suc (ilog2 (n div 2))" by simp_all
    moreover have "2 * (n div 2) \<le> n" "n < 2 * (n div 2) + 2" by linarith+
    ultimately show ?thesis using False by (simp add: ilog2.simps [of n])
  qed
qed

lemma ilog2_rat:
  assumes "0 < n"
  shows "(2::rat) ^ ilog2 (nat n) \<le> of_int n" and "of_int n < (2::rat) ^ Suc (ilog2 (nat n))"
proof -
  have b: "int (2 ^ ilog2 (nat n)) \<le> n" "n < int (2 ^ Suc (ilog2 (nat n)))"
    using ilog2_bounds [of "nat n"] assms by linarith+
  have "(of_int (int (2 ^ ilog2 (nat n))) :: rat) \<le> of_int n"
    using b(1) by (simp only: of_int_le_iff)
  then show "(2::rat) ^ ilog2 (nat n) \<le> of_int n" by simp
  have "(of_int n :: rat) < of_int (int (2 ^ Suc (ilog2 (nat n))))"
    using b(2) by (simp only: of_int_less_iff)
  then show "of_int n < (2::rat) ^ Suc (ilog2 (nat n))" by simp
qed

definition floor_log2 :: "rat \<Rightarrow> int" where
  "floor_log2 q =
     (let (n, d) = quotient_of q; a = int (ilog2 (nat n)) - int (ilog2 (nat d))
      in if 2 powi a \<le> q then a else a - 1)"

lemma powi_pos [simp]: "(0::rat) < 2 powi k"
  by simp

lemma powi_2_add: "(2::rat) powi (a + b) = 2 powi a * 2 powi b"
  by (simp add: power_int_add)

lemma powi_2_mono: "a \<le> b \<Longrightarrow> (2::rat) powi a \<le> 2 powi b"
  by (simp add: power_int_increasing)

lemma powi_2_less: "(2::rat) powi a < 2 powi b \<longleftrightarrow> a < b"
proof
  assume "(2::rat) powi a < 2 powi b"
  then show "a < b" by (rule contrapos_pp) (simp add: powi_2_mono linorder_not_less)
next
  assume "a < b"
  then show "(2::rat) powi a < 2 powi b" by (rule power_int_strict_increasing) simp
qed

lemma floor_log2_bounds:
  assumes "0 < q"
  shows "2 powi floor_log2 q \<le> q \<and> q < 2 powi (floor_log2 q + 1)"
proof -
  obtain n d where nd: "quotient_of q = (n, d)" by fastforce
  have d: "0 < d" using quotient_of_denom_pos [OF nd] .
  have q: "q = of_int n / of_int d" using quotient_of_div [OF nd] .
  with assms d have n: "0 < n" by (simp add: zero_less_divide_iff)
  define i j where "i = ilog2 (nat n)" and "j = ilog2 (nat d)"
  define a where "a = int i - int j"
  have i: "(2::rat) ^ i \<le> of_int n" "of_int n < (2::rat) ^ Suc i"
    unfolding i_def by (rule ilog2_rat [OF n])+
  have j: "(2::rat) ^ j \<le> of_int d" "of_int d < (2::rat) ^ Suc j"
    unfolding j_def by (rule ilog2_rat [OF d])+
  have up: "q < 2 powi (a + 1)"
  proof -
    have "q < 2 ^ Suc i / 2 ^ j"
      unfolding q using i j n d by (intro frac_less) auto
    also have "\<dots> = 2 powi (a + 1)"
      by (simp add: a_def power_int_add power_int_diff)
    finally show ?thesis .
  qed
  have lo: "2 powi (a - 1) \<le> q"
  proof -
    have "(2::rat) powi (a - 1) = 2 ^ i / 2 ^ Suc j"
      by (simp add: a_def power_int_diff)
    also have "\<dots> \<le> q"
      unfolding q using i j n d by (intro frac_le) auto
    finally show ?thesis .
  qed
  have "floor_log2 q = (if 2 powi a \<le> q then a else a - 1)"
    by (simp add: floor_log2_def nd a_def i_def j_def)
  with up lo show ?thesis by auto
qed

lemma floor_log2_less: "0 < q \<Longrightarrow> q < 2 powi k \<Longrightarrow> floor_log2 q < k"
  using floor_log2_bounds [of q] powi_2_less le_less_trans by blast

lemma floor_log2_mono: "0 < p \<Longrightarrow> p \<le> q \<Longrightarrow> floor_log2 p \<le> floor_log2 q"
  using floor_log2_bounds [of q] floor_log2_less [of p "floor_log2 q + 1"] by fastforce

text \<open>Round to the nearest integer, ties to even.\<close>

definition rhe :: "rat \<Rightarrow> int" where
  "rhe x = (let f = \<lfloor>x\<rfloor>; r = x - of_int f
            in if r < 1/2 then f else if 1/2 < r then f + 1 else if even f then f else f + 1)"

lemma rhe_of_int [simp]: "rhe (of_int n) = n"
  by (simp add: rhe_def)

lemma rhe_bounds: "\<lfloor>x\<rfloor> \<le> rhe x \<and> rhe x \<le> \<lfloor>x\<rfloor> + 1"
  by (simp add: rhe_def Let_def)

lemma rhe_mono: "x \<le> y \<Longrightarrow> rhe x \<le> rhe y"
proof (cases "\<lfloor>x\<rfloor> = \<lfloor>y\<rfloor>")
  case True
  assume "x \<le> y"
  then have "x - of_int \<lfloor>y\<rfloor> \<le> y - of_int \<lfloor>y\<rfloor>" by simp
  with True show ?thesis by (simp add: rhe_def Let_def)
next
  case False
  assume "x \<le> y"
  with False have "\<lfloor>x\<rfloor> + 1 \<le> \<lfloor>y\<rfloor>" using floor_mono [of x y] by linarith
  then show ?thesis using rhe_bounds [of x] rhe_bounds [of y] by linarith
qed

text \<open>The exponent of the last place of a binary64 number of this size, and rounding.\<close>

definition quantum :: "rat \<Rightarrow> int" where
  "quantum q = max (-1074) (floor_log2 q - 52)"

definition rnd :: "rat \<Rightarrow> rat" where
  "rnd q = (if q \<le> 0 then 0 else of_int (rhe (q / 2 powi quantum q)) * 2 powi quantum q)"

text \<open>The magnitudes with 53 significant bits, the exponent unbounded above.\<close>

definition repr :: "rat \<Rightarrow> bool" where
  "repr q \<longleftrightarrow> (\<exists>m k. q = of_int m * 2 powi k \<and> 0 \<le> m \<and> m < 2 ^ 53 \<and> -1074 \<le> k)"

lemma repr_nonneg: "repr q \<Longrightarrow> 0 \<le> q"
  by (auto simp: repr_def)

lemma repr_0 [simp]: "repr 0"
  unfolding repr_def by (rule exI [of _ 0]) auto

lemma rnd_0 [simp]: "rnd 0 = 0"
  by (simp add: rnd_def)

lemma rnd_repr: "repr q \<Longrightarrow> rnd q = q"
proof (cases "q \<le> 0")
  case True
  assume "repr q"
  with True show ?thesis using repr_nonneg [of q] by (simp add: rnd_def)
next
  case False
  assume "repr q"
  then obtain m k where mk: "q = of_int m * 2 powi k" "0 \<le> m" "m < 2 ^ 53" "-1074 \<le> k"
    by (auto simp: repr_def)
  have "q < 2 powi (53 + k)"
  proof -
    have "(of_int m :: rat) < of_int (2 ^ 53)" using mk(3) by (simp only: of_int_less_iff)
    then show ?thesis by (simp add: mk(1) powi_2_add)
  qed
  with False have "floor_log2 q < 53 + k" by (intro floor_log2_less) auto
  with mk(4) have "quantum q \<le> k" by (simp add: quantum_def)
  then obtain e j where e: "quantum q = e" and j: "k = e + int j"
    by (metis zle_iff_zadd)
  have q: "q = of_int (m * 2 ^ j) * 2 powi e"
    unfolding mk(1) j by (simp add: powi_2_add)
  then have "q / 2 powi e = of_int (m * 2 ^ j)" by (simp add: divide_eq_eq)
  then have "rhe (q / 2 powi e) = m * 2 ^ j" by (simp only: rhe_of_int)
  with False have "rnd q = of_int (m * 2 ^ j) * 2 powi e" by (simp add: rnd_def e)
  with q show ?thesis by simp
qed

lemma rnd_nonneg [simp]: "0 \<le> rnd q"
proof (cases "q \<le> 0")
  case False
  then have "0 \<le> \<lfloor>q / 2 powi quantum q\<rfloor>" by simp
  then have "0 \<le> rhe (q / 2 powi quantum q)"
    using rhe_bounds [of "q / 2 powi quantum q"] by linarith
  then show ?thesis by (simp add: rnd_def)
qed (simp add: rnd_def)

lemma repr_powi: "-1074 \<le> k \<Longrightarrow> repr (2 powi k)"
  unfolding repr_def by (rule exI [of _ 1]) auto

lemma scaled_bounds:
  assumes "0 < q"
  shows "q / 2 powi quantum q < 2 ^ 53"
proof -
  have "q < 2 powi (floor_log2 q + 1)" using floor_log2_bounds [OF assms] by simp
  also have "\<dots> \<le> 2 powi (53 + quantum q)" by (rule powi_2_mono) (simp add: quantum_def)
  finally show ?thesis by (simp add: powi_2_add divide_less_eq)
qed

lemma repr_rnd [simp]: "repr (rnd q)"
proof (cases "q \<le> 0")
  case False
  define m where "m = rhe (q / 2 powi quantum q)"
  have q53: "q / 2 powi quantum q \<le> of_int (2 ^ 53)"
    using scaled_bounds [of q] False by simp
  have m53: "m \<le> 2 ^ 53"
    unfolding m_def using rhe_mono [OF q53] by (simp only: rhe_of_int)
  have "0 \<le> \<lfloor>q / 2 powi quantum q\<rfloor>" using False by simp
  then have m0: "0 \<le> m" unfolding m_def using rhe_bounds [of "q / 2 powi quantum q"] by linarith
  have k: "-1074 \<le> quantum q" by (simp add: quantum_def)
  have r: "rnd q = of_int m * 2 powi quantum q" using False by (simp add: rnd_def m_def)
  show ?thesis
  proof (cases "m = 2 ^ 53")
    case True
    have "rnd q = 2 powi (53 + quantum q)" by (simp add: r True powi_2_add)
    with k show ?thesis using repr_powi [of "53 + quantum q"] by simp
  next
    case False
    with m53 m0 k r show ?thesis unfolding repr_def by (metis order_le_less)
  qed
qed (simp add: rnd_def)

lemma rnd_le_repr:
  assumes "repr p" "q \<le> p" "quantum q = quantum p \<or> p = 2 powi (floor_log2 q + 1)" "0 < q"
  shows "rnd q \<le> p"
proof -
  have "\<exists>n. p = of_int n * 2 powi quantum q"
    using assms(3)
  proof
    assume "quantum q = quantum p"
    then show ?thesis using rnd_repr [OF assms(1)] assms(2,4)
      by (metis rnd_def linorder_not_le order_less_le_trans)
  next
    assume p: "p = 2 powi (floor_log2 q + 1)"
    have "floor_log2 q + 1 \<ge> quantum q \<or> quantum q = -1074" by (auto simp: quantum_def)
    then show ?thesis
    proof
      assume "floor_log2 q + 1 \<ge> quantum q"
      then obtain j where "floor_log2 q + 1 = quantum q + int j" by (metis zle_iff_zadd)
      then have "p = of_int (2 ^ j) * 2 powi quantum q" by (simp add: p powi_2_add)
      then show ?thesis by blast
    next
      assume k: "quantum q = -1074"
      obtain m k where mk: "p = of_int m * 2 powi k" "-1074 \<le> k"
        using assms(1) by (auto simp: repr_def)
      then obtain j where "k = quantum q + int j" using k by (metis zle_iff_zadd)
      then have "p = of_int (m * 2 ^ j) * 2 powi quantum q" by (simp add: mk(1) powi_2_add)
      then show ?thesis by blast
    qed
  qed
  then obtain n where n: "p = of_int n * 2 powi quantum q" ..
  with assms(2) have "q / 2 powi quantum q \<le> of_int n" by (simp add: divide_le_eq)
  from rhe_mono [OF this] show ?thesis using n assms(4) by (simp add: rnd_def)
qed

lemma rnd_mono: "p \<le> q \<Longrightarrow> rnd p \<le> rnd q"
proof (cases "p \<le> 0")
  case True
  then have "rnd p = 0" by (simp add: rnd_def)
  then show ?thesis by simp
next
  case False
  assume le: "p \<le> q"
  with False have pq: "0 < p" "0 < q" by auto
  have logs: "floor_log2 p \<le> floor_log2 q" by (rule floor_log2_mono) (use pq le in auto)
  show ?thesis
  proof (cases "quantum p = quantum q")
    case True
    have "rhe (p / 2 powi quantum q) \<le> rhe (q / 2 powi quantum q)"
      by (rule rhe_mono) (use le in \<open>simp add: divide_right_mono\<close>)
    with True pq show ?thesis by (simp add: rnd_def)
  next
    case False
    with logs have lt: "floor_log2 p + 1 \<le> floor_log2 q" and "-1074 < quantum q"
      by (auto simp: quantum_def)
    then have k: "-1074 \<le> floor_log2 q" by (auto simp: quantum_def)
    let ?b = "(2::rat) powi floor_log2 q"
    have b: "repr ?b" by (rule repr_powi) (rule k)
    have "rnd p \<le> ?b"
    proof (cases "-1074 \<le> floor_log2 p + 1")
      case True
      have "rnd p \<le> 2 powi (floor_log2 p + 1)"
        by (rule rnd_le_repr) (use floor_log2_bounds [OF pq(1)] repr_powi True pq in auto)
      also have "\<dots> \<le> ?b" by (rule powi_2_mono) (rule lt)
      finally show ?thesis .
    next
      case False
      then have qp: "quantum p = -1074" by (simp add: quantum_def)
      have "p < 2 powi (floor_log2 p + 1)" using floor_log2_bounds [OF pq(1)] by simp
      also have "\<dots> \<le> 2 powi (-1074)" by (rule powi_2_mono) (use False in simp)
      finally have "p / 2 powi quantum p \<le> of_int 1" using qp by (simp add: divide_le_eq)
      from rhe_mono [OF this] have "rhe (p / 2 powi quantum p) \<le> 1" by (simp only: rhe_of_int)
      then have "rnd p \<le> 2 powi (-1074)" using pq qp by (simp add: rnd_def)
      also have "\<dots> \<le> ?b" by (rule powi_2_mono) (rule k)
      finally show ?thesis .
    qed
    also have "?b \<le> rnd q"
    proof -
      have "floor_log2 q \<ge> quantum q" using k by (simp add: quantum_def)
      then obtain j where j: "floor_log2 q = quantum q + int j" by (metis zle_iff_zadd)
      have "of_int (2 ^ j) \<le> q / 2 powi quantum q"
        using floor_log2_bounds [OF pq(2)] j by (simp add: powi_2_add le_divide_eq mult.commute)
      from rhe_mono [OF this] have "2 ^ j \<le> rhe (q / 2 powi quantum q)" by (simp only: rhe_of_int)
      then have "(of_int (2 ^ j) :: rat) \<le> of_int (rhe (q / 2 powi quantum q))"
        by (simp only: of_int_le_iff)
      then have "(2::rat) ^ j \<le> of_int (rhe (q / 2 powi quantum q))" by simp
      then show ?thesis using pq j by (simp add: rnd_def powi_2_add mult.commute)
    qed
    finally show ?thesis .
  qed
qed

section \<open>Values, addition and comparison\<close>

text \<open>\<open>Inf True\<close> is negative infinity. \<open>Fin 0\<close> is positive zero.\<close>

datatype float64 = NaN | Inf bool | NegZero | Fin rat

text \<open>The values that the type of Go has.\<close>

definition f64_top :: rat where
  "f64_top = 2 ^ 1024"

lemma f64_top_pos [simp]: "0 < f64_top" "\<not> f64_top \<le> 0"
  by (simp_all add: f64_top_def)

fun is_f64 :: "float64 \<Rightarrow> bool" where
  "is_f64 (Fin q) \<longleftrightarrow> repr \<bar>q\<bar> \<and> \<bar>q\<bar> < f64_top"
| "is_f64 _ \<longleftrightarrow> True"

text \<open>The number nearest to a magnitude with a sign.\<close>

definition to_f64 :: "bool \<Rightarrow> rat \<Rightarrow> float64" where
  "to_f64 neg q =
     (let r = rnd q in
      if f64_top \<le> r then Inf neg
      else if r = 0 then (if neg then NegZero else Fin 0)
      else Fin (if neg then - r else r))"

definition f64_of_rat :: "rat \<Rightarrow> float64" where
  "f64_of_rat q = to_f64 (q < 0) \<bar>q\<bar>"

fun fadd :: "float64 \<Rightarrow> float64 \<Rightarrow> float64" where
  "fadd NaN y = NaN"
| "fadd x NaN = NaN"
| "fadd (Inf a) (Inf b) = (if a = b then Inf a else NaN)"
| "fadd (Inf a) y = Inf a"
| "fadd x (Inf b) = Inf b"
| "fadd NegZero y = y"
| "fadd x NegZero = x"
| "fadd (Fin a) (Fin b) = f64_of_rat (a + b)"

fun fval :: "float64 \<Rightarrow> rat" where
  "fval (Fin q) = q"
| "fval _ = 0"

fun is_inf :: "float64 \<Rightarrow> bool" where
  "is_inf (Inf b) = True"
| "is_inf _ = False"

text \<open>Go's \<open>x <= y\<close> and \<open>x < y\<close>: false when one of the two is not a number.\<close>

definition fle :: "float64 \<Rightarrow> float64 \<Rightarrow> bool" where
  "fle x y \<longleftrightarrow> x \<noteq> NaN \<and> y \<noteq> NaN \<and>
     (x = Inf True \<or> y = Inf False \<or> \<not> is_inf x \<and> \<not> is_inf y \<and> fval x \<le> fval y)"

definition flt :: "float64 \<Rightarrow> float64 \<Rightarrow> bool" where
  "flt x y \<longleftrightarrow> x \<noteq> NaN \<and> y \<noteq> NaN \<and> \<not> fle y x"

lemma fle_NaN [simp]: "\<not> fle NaN y" "\<not> fle x NaN"
  by (simp_all add: fle_def)

lemma flt_NaN [simp]: "\<not> flt NaN y" "\<not> flt x NaN"
  by (simp_all add: flt_def)

lemma fle_Fin [simp]: "fle (Fin a) (Fin b) \<longleftrightarrow> a \<le> b"
  by (simp add: fle_def)

lemma fle_total: "x \<noteq> NaN \<Longrightarrow> y \<noteq> NaN \<Longrightarrow> fle x y \<or> fle y x"
  by (cases x; cases y) (auto simp: fle_def)

lemma fle_trans: "fle x y \<Longrightarrow> fle y z \<Longrightarrow> fle x z"
  by (cases x; cases y; cases z) (auto simp: fle_def)

lemma fle_refl: "x \<noteq> NaN \<Longrightarrow> fle x x"
  by (cases x) (auto simp: fle_def)

text \<open>Overflow is decided on the exponent when a closed term is evaluated.\<close>

lemma f64_top_le_iff: "f64_top \<le> r \<longleftrightarrow> 0 < r \<and> 1024 \<le> floor_log2 r"
proof (cases "0 < r")
  case True
  have top: "f64_top = 2 powi 1024" by (simp add: f64_top_def)
  show ?thesis
  proof
    assume "f64_top \<le> r"
    with True show "0 < r \<and> 1024 \<le> floor_log2 r"
      using floor_log2_bounds [OF True] powi_2_less [of 1024 "floor_log2 r + 1"] top by auto
  next
    assume "0 < r \<and> 1024 \<le> floor_log2 r"
    then have "f64_top \<le> 2 powi floor_log2 r" unfolding top by (intro powi_2_mono) simp
    with floor_log2_bounds [OF True] show "f64_top \<le> r" by linarith
  qed
next
  case False
  then have "r < f64_top" using f64_top_pos(1) by linarith
  with False show ?thesis by simp
qed

lemma to_f64_code [code]:
  "to_f64 neg q =
     (let r = rnd q in
      if 0 < r \<and> 1024 \<le> floor_log2 r then Inf neg
      else if r = 0 then (if neg then NegZero else Fin 0)
      else Fin (if neg then - r else r))"
  by (simp add: to_f64_def f64_top_le_iff)

lemma is_f64_to_f64 [simp]: "is_f64 (to_f64 neg q)"
  using rnd_nonneg [of q] by (simp add: to_f64_def Let_def)

lemma is_f64_fadd: "is_f64 x \<Longrightarrow> is_f64 y \<Longrightarrow> is_f64 (fadd x y)"
  by (cases "(x, y)" rule: fadd.cases) (auto simp: f64_of_rat_def)

lemma f64_of_rat_exact: "is_f64 (Fin q) \<Longrightarrow> f64_of_rat q = Fin q"
  by (auto simp: f64_of_rat_def to_f64_def rnd_repr Let_def)

lemma to_f64_not_NaN [simp]: "to_f64 neg q \<noteq> NaN"
  by (simp add: to_f64_def Let_def)

text \<open>Rounding is monotone on the values, so adding a positive number moves nothing down.\<close>

lemma to_f64_mono:
  "rnd a \<le> rnd b \<Longrightarrow> fle (to_f64 False a) (to_f64 False b)"
  "rnd b \<le> rnd a \<Longrightarrow> fle (to_f64 True a) (to_f64 True b)"
  "fle (to_f64 True a) (to_f64 False b)"
  using rnd_nonneg [of a] rnd_nonneg [of b]
  by (auto simp: to_f64_def Let_def fle_def intro: order_trans [of "- rnd a" 0 "rnd b"])

lemma f64_of_rat_mono:
  assumes "p \<le> q"
  shows "fle (f64_of_rat p) (f64_of_rat q)"
proof -
  consider "q < 0" | "p < 0" "0 \<le> q" | "0 \<le> p" by linarith
  then show ?thesis
  proof cases
    case 1
    have "rnd \<bar>q\<bar> \<le> rnd \<bar>p\<bar>" by (rule rnd_mono) (use 1 assms in simp)
    with 1 assms show ?thesis by (simp add: f64_of_rat_def to_f64_mono)
  next
    case 2
    then show ?thesis by (simp add: f64_of_rat_def to_f64_mono)
  next
    case 3
    have "rnd \<bar>p\<bar> \<le> rnd \<bar>q\<bar>" by (rule rnd_mono) (use 3 assms in simp)
    with 3 assms show ?thesis by (simp add: f64_of_rat_def to_f64_mono)
  qed
qed

lemma fadd_pos_ge:
  assumes "is_f64 x" "x \<noteq> NaN" "0 < e"
  shows "fle x (fadd x (Fin e))"
proof (cases x)
  case (Fin q)
  have "fle (f64_of_rat q) (f64_of_rat (q + e))" by (rule f64_of_rat_mono) (use assms in simp)
  then show ?thesis using f64_of_rat_exact assms(1) Fin by simp
next
  case NegZero
  have "fle (f64_of_rat 0) (f64_of_rat e)" by (rule f64_of_rat_mono) (use assms in simp)
  then show ?thesis using NegZero assms(3) by (simp add: fle_def)
qed (use assms in \<open>auto simp: fle_def\<close>)

lemma fadd_finite:
  assumes "x \<noteq> NaN" "\<not> is_inf x" "is_f64 (Fin e)"
  shows "fadd x (Fin e) = f64_of_rat (fval x + e)"
  using assms f64_of_rat_exact [of e] by (cases x) auto

lemma f64_of_rat_range: "f64_of_rat q \<noteq> NaN"
  by (simp add: f64_of_rat_def)

lemma fadd_mono:
  assumes "fle x y" "is_f64 (Fin e)"
  shows "fle (fadd x (Fin e)) (fadd y (Fin e))"
proof -
  have nan: "x \<noteq> NaN" "y \<noteq> NaN" using assms(1) by auto
  have inf: "fadd (Inf b) (Fin e) = Inf b" for b by simp
  consider "x = Inf True" | "y = Inf False" | "\<not> is_inf x" "\<not> is_inf y" "fval x \<le> fval y"
    using assms(1) by (auto simp: fle_def)
  then show ?thesis
  proof cases
    case 1
    have "fadd y (Fin e) \<noteq> NaN" using nan assms(2)
      by (cases y) (auto simp: f64_of_rat_range)
    then show ?thesis by (simp add: 1 fle_def)
  next
    case 2
    have "fadd x (Fin e) \<noteq> NaN" using nan assms(2)
      by (cases x) (auto simp: f64_of_rat_range)
    then show ?thesis by (simp add: 2 fle_def)
  next
    case 3
    then show ?thesis using nan assms(2)
      by (simp add: fadd_finite f64_of_rat_mono)
  qed
qed

end
