(* ===== verification/Go_Time.thy ===== *)
theory Go_Time
  imports Go_Float
begin

text \<open>
  The parts of Go's \<open>time\<close> package that the operator uses. A \<open>time.Duration\<close> is a number
  of nanoseconds in the range of \<open>int64\<close>; a \<open>time.Time\<close> is a number of nanoseconds since
  1970. Holds \<open>time.ParseDuration\<close>, \<open>Time.Add\<close>, \<open>Time.Sub\<close> (which saturates),
  \<open>Time.Before\<close>, \<open>Time.After\<close>, \<open>Time.IsZero\<close> and \<open>Duration.Truncate\<close>.
\<close>

type_synonym duration = int
type_synonym go_time = int

section \<open>Times and durations\<close>

definition nanosecond :: duration where "nanosecond = 1"
definition second :: duration where "second = 1000000000"
definition minute :: duration where "minute = 60 * second"
definition hour :: duration where "hour = 60 * minute"

definition min_duration :: duration where "min_duration = - (2 ^ 63)"
definition max_duration :: duration where "max_duration = 2 ^ 63 - 1"

definition is_duration :: "int \<Rightarrow> bool" where
  "is_duration d \<longleftrightarrow> min_duration \<le> d \<and> d \<le> max_duration"

text \<open>The zero \<open>time.Time\<close>: the first of January of year 1.\<close>

definition zero_time :: go_time where
  "zero_time = -62135596800 * second"

definition time_add :: "go_time \<Rightarrow> duration \<Rightarrow> go_time" where
  "time_add t d = t + d"

definition time_sub :: "go_time \<Rightarrow> go_time \<Rightarrow> duration" where
  "time_sub t u = max min_duration (min max_duration (t - u))"

definition time_before :: "go_time \<Rightarrow> go_time \<Rightarrow> bool" where
  "time_before t u \<longleftrightarrow> t < u"

definition time_after :: "go_time \<Rightarrow> go_time \<Rightarrow> bool" where
  "time_after t u \<longleftrightarrow> u < t"

definition is_zero_time :: "go_time \<Rightarrow> bool" where
  "is_zero_time t \<longleftrightarrow> t = zero_time"

text \<open>\<open>d.Truncate(m)\<close> drops \<open>d % m\<close>, whose sign is that of \<open>d\<close>.\<close>

definition truncate_duration :: "duration \<Rightarrow> duration \<Rightarrow> duration" where
  "truncate_duration d m = (if m \<le> 0 then d else d - sgn d * (\<bar>d\<bar> mod m))"

text \<open>\<open>-d\<close> in \<open>int64\<close>: the least duration is its own negation.\<close>

definition neg_duration :: "duration \<Rightarrow> duration" where
  "neg_duration d = (if d = min_duration then d else - d)"

lemmas time_ops = time_add_def time_before_def time_after_def

lemma time_sub_range: "is_duration (time_sub t u)"
  by (auto simp: is_duration_def time_sub_def min_duration_def max_duration_def)

section \<open>ParseDuration\<close>

definition two63 :: nat where
  "two63 = 9223372036854775808"

definition two64 :: nat where
  "two64 = 18446744073709551616"

text \<open>\<open>leadingInt\<close>: digits up to \<open>2 ^ 63\<close>, \<open>None\<close> on overflow.\<close>

fun leading_int :: "string \<Rightarrow> nat \<Rightarrow> (nat \<times> string) option" where
  "leading_int [] x = Some (x, [])"
| "leading_int (c # cs) x =
     (if \<not> is_digit c then Some (x, c # cs)
      else if two63 div 10 < x then None
      else let y = x * 10 + digit_val c in if two63 < y then None else leading_int cs y)"

text \<open>
  \<open>leadingFraction\<close>: the digits \<open>f\<close> and the scale, a float; digits that would overflow
  are skipped.
\<close>

fun leading_fraction :: "string \<Rightarrow> nat \<Rightarrow> rat \<Rightarrow> bool \<Rightarrow> nat \<times> rat \<times> string" where
  "leading_fraction [] x scale over = (x, scale, [])"
| "leading_fraction (c # cs) x scale over =
     (if \<not> is_digit c then (x, scale, c # cs)
      else if over then leading_fraction cs x scale True
      else if (two63 - 1) div 10 < x then leading_fraction cs x scale True
      else let y = x * 10 + digit_val c in
        if two63 < y then leading_fraction cs x scale True
        else leading_fraction cs y (rnd (scale * 10)) False)"

definition is_unit_char :: "char \<Rightarrow> bool" where
  "is_unit_char c \<longleftrightarrow> c \<noteq> CHR ''.'' \<and> \<not> is_digit c"

text \<open>The units; U+00B5 and U+03BC both write micro.\<close>

definition unit_of :: "string \<Rightarrow> nat option" where
  "unit_of u =
     (if u = ''ns'' then Some 1
      else if u = ''us'' \<or> u = map char_of [0xC2, 0xB5, 0x73 :: nat] \<or> u = map char_of [0xCE, 0xBC, 0x73 :: nat]
      then Some 1000
      else if u = ''ms'' then Some 1000000
      else if u = ''s'' then Some 1000000000
      else if u = ''m'' then Some 60000000000
      else if u = ''h'' then Some 3600000000000
      else None)"

text \<open>
  One \<open>number unit\<close> of the input: its value in nanoseconds and the rest, \<open>None\<close> for each
  of the errors. \<open>fraction_part\<close> is \<open>(\.[0-9]*)?\<close>; \<open>unit_part\<close> multiplies with the unit
  and adds the fraction, \<open>uint64(float64(f) * (float64(unit) / scale))\<close>.
\<close>

definition fraction_part :: "string \<Rightarrow> nat \<times> rat \<times> bool \<times> string" where
  "fraction_part s =
     (case s of
        c # r \<Rightarrow>
          if c = CHR ''.'' then
            (let (f, scale, r') = leading_fraction r 0 1 False in (f, scale, length r' \<noteq> length r, r'))
          else (0, 1, False, s)
      | [] \<Rightarrow> (0, 1, False, s))"

definition unit_part :: "nat \<Rightarrow> nat \<Rightarrow> rat \<Rightarrow> string \<Rightarrow> (nat \<times> string) option" where
  "unit_part v f scale s =
     (let u = takeWhile is_unit_char s in
      if u = [] then None
      else case unit_of u of None \<Rightarrow> None
      | Some n \<Rightarrow>
        if two63 div n < v then None
        else
          let w = v * n + (if 0 < f then nat \<lfloor>rnd (rnd (of_nat f) * rnd (rnd (of_nat n) / scale))\<rfloor> else 0)
          in if 0 < f \<and> two63 < w then None else Some (w, dropWhile is_unit_char s))"

definition duration_segment :: "string \<Rightarrow> (nat \<times> string) option" where
  "duration_segment s =
     (if s = [] \<or> \<not> (hd s = CHR ''.'' \<or> is_digit (hd s)) then None
      else case leading_int s 0 of None \<Rightarrow> None
      | Some (v, s1) \<Rightarrow>
        let (f, scale, post, s2) = fraction_part s1 in
        if length s1 = length s \<and> \<not> post then None
        else unit_part v f scale s2)"

lemma leading_int_length: "leading_int s x = Some (v, r) \<Longrightarrow> length r \<le> length s"
  by (induction s x rule: leading_int.induct) (auto simp: Let_def split: if_splits)

lemma leading_fraction_length: "leading_fraction s x sc ov = (f, sc', r) \<Longrightarrow> length r \<le> length s"
  by (induction s x sc ov rule: leading_fraction.induct) (fastforce simp: Let_def split: if_splits)+

lemma fraction_part_length: "fraction_part s = (f, sc, post, r) \<Longrightarrow> length r \<le> length s"
  by (auto simp: fraction_part_def dest: leading_fraction_length split: list.splits if_splits prod.splits)

lemma unit_part_shorter: "unit_part v f sc s = Some (w, r) \<Longrightarrow> length r < length s"
  by (cases s) (auto simp: unit_part_def Let_def le_imp_less_Suc length_dropWhile_le
      split: if_splits option.splits)

lemma duration_segment_shorter: "duration_segment s = Some (w, r) \<Longrightarrow> length r < length s"
  by (auto simp: duration_segment_def split: if_splits option.splits prod.splits
      dest!: leading_int_length fraction_part_length unit_part_shorter)

text \<open>The loop over the segments; the sum is a \<open>uint64\<close>.\<close>

function duration_loop :: "string \<Rightarrow> nat \<Rightarrow> nat option" where
  "duration_loop s d =
     (if s = [] then Some d
      else case duration_segment s of None \<Rightarrow> None
      | Some (w, r) \<Rightarrow>
        let d' = (d + w) mod two64 in if two63 < d' then None else duration_loop r d')"
  by pat_completeness auto
termination
  by (relation "measure (\<lambda>(s, d). length s)") (auto dest: duration_segment_shorter)

declare duration_loop.simps [simp del]

definition parseDuration :: "string \<Rightarrow> duration go_result" where
  "parseDuration orig =
     (let (neg, s) = split_sign orig in
      if s = ''0'' then Inr 0
      else if s = [] then Inl (StdError ''time.ParseDuration'' orig ''invalid duration'')
      else case duration_loop s 0 of
        None \<Rightarrow> Inl (StdError ''time.ParseDuration'' orig ''invalid duration'')
      | Some d \<Rightarrow>
        if neg then Inr (- int d)
        else if two63 - 1 < d then Inl (StdError ''time.ParseDuration'' orig ''invalid duration'')
        else Inr (int d))"

lemma duration_loop_bound: "d \<le> two63 \<Longrightarrow> duration_loop s d = Some r \<Longrightarrow> r \<le> two63"
proof (induction s d rule: duration_loop.induct)
  case (1 s d)
  show ?case
  proof (cases "s = []")
    case True
    with 1 show ?thesis by (simp add: duration_loop.simps)
  next
    case False
    with 1(3) obtain w r' where seg: "duration_segment s = Some (w, r')"
      by (auto simp: duration_loop.simps [of s d] split: option.splits)
    with False 1(3) have "\<not> two63 < (d + w) mod two64" "duration_loop r' ((d + w) mod two64) = Some r"
      by (simp_all add: duration_loop.simps [of s d] Let_def split: if_splits)
    with 1(1) [OF False seg] show ?thesis by (metis linorder_not_less prod.inject)
  qed
qed

text \<open>Whatever parses is in the range of \<open>int64\<close>.\<close>

lemma parseDuration_range: "parseDuration s = Inr d \<Longrightarrow> is_duration d"
proof -
  assume p: "parseDuration s = Inr d"
  obtain neg t where t: "split_sign s = (neg, t)" by fastforce
  show ?thesis
  proof (cases "duration_loop t 0")
    case None
    with p t show ?thesis
      by (auto simp: parseDuration_def is_duration_def min_duration_def max_duration_def split: if_splits)
  next
    case (Some r)
    then have "r \<le> two63" using duration_loop_bound [of 0 t r] by simp
    with p t Some show ?thesis
      by (auto simp: parseDuration_def is_duration_def min_duration_def max_duration_def two63_def
          split: if_splits)
  qed
qed

end
