(* ===== verification/V1alpha1.thy ===== *)
theory V1alpha1
  imports Prelude Go_Time "HOL-Library.Word"
begin

text \<open>
  The API types of \<open>api/v1alpha1/budgetnamespace_types.go\<close>, one record per struct with its
  fields in order, and \<open>metav1.Condition\<close>. Embedded \<open>TypeMeta\<close> and the parts of
  \<open>ObjectMeta\<close> that the operator does not read are left out.
\<close>

type_synonym int32 = "32 word"

lemma int32_word_of_int: "- (2 ^ 31) \<le> n \<Longrightarrow> n < 2 ^ 31 \<Longrightarrow> sint (word_of_int n :: int32) = n"
  by transfer (simp add: signed_take_bit_int_eq_self)

lemma int32_range: "- (2 ^ 31) \<le> sint (r :: int32) \<and> sint r < 2 ^ 31"
  using sint_greater_eq [of r] sint_less [of r] by simp

record quota_spec =
  quota_CPU :: string
  quota_Memory :: string
  quota_Storage :: string
  quota_PersistentVolumeClaims :: int32
  quota_Pods :: int32

record defaults_spec =
  defaults_RequestCPU :: string
  defaults_RequestMemory :: string
  defaults_LimitCPU :: string
  defaults_LimitMemory :: string

record enforcement_spec =
  enf_Enabled :: bool
  enf_Action :: string
  enf_RestoreOnRecovery :: bool
  enf_EnforcementCooldown :: string

record cost_budget_spec =
  cb_Enabled :: bool
  cb_BillingExportTable :: string
  cb_ClusterName :: string
  cb_BillingLocation :: string
  cb_MaxSpendUSD :: string
  cb_LookbackWindow :: string
  cb_QueryInterval :: string

record bn_spec =
  spec_NamespaceName :: string
  spec_Labels :: "string go_map"
  spec_Annotations :: "string go_map"
  spec_Quota :: quota_spec
  spec_Defaults :: defaults_spec
  spec_TTL :: string
  spec_Enforcement :: enforcement_spec
  spec_CostBudget :: "cost_budget_spec option"

datatype condition_status = ConditionTrue | ConditionFalse | ConditionUnknown

record condition =
  cond_Type :: string
  cond_Status :: condition_status
  cond_ObservedGeneration :: int
  cond_LastTransitionTime :: "go_time option"
  cond_Reason :: string
  cond_Message :: go_text

record bn_status =
  st_ObservedGeneration :: int
  st_ManagedNamespace :: string
  st_ExpiresAt :: "go_time option"
  st_LastEnforcementAt :: "go_time option"
  st_LastEnforcementOperation :: string
  st_LastCostQueryAt :: "go_time option"
  st_LastObservedSpendUSD :: string
  st_Conditions :: "condition list"

record budget_namespace =
  bn_Name :: string
  bn_Namespace :: string
  bn_Generation :: int
  bn_CreationTimestamp :: go_time
  bn_Spec :: bn_spec
  bn_Status :: bn_status

text \<open>The condition of a type, as \<open>apimeta.FindStatusCondition\<close> reads it.\<close>

definition findCondition :: "condition list \<Rightarrow> string \<Rightarrow> condition option" where
  "findCondition cs t = List.find (\<lambda>c. cond_Type c = t) cs"

end
