(* ===== verification/Environment.thy ===== *)
theory Environment
  imports V1alpha1
begin

text \<open>
  What the operator uses that is not in the repository, as a parameter: the API server
  behind the client, the quantity arithmetic and condition helper of
  \<open>k8s.io/apimachinery\<close>, BigQuery and the clock.

  A run is described by its history, the calls made so far, oldest first. The environment
  answers each call as a function of the history before it, so it may fail, change under
  the operator's feet, or let time pass between any two calls. Nothing is assumed of it:
  what a property needs is a hypothesis of that property. Log lines are not calls.
\<close>

section \<open>The Kubernetes objects that the operator reads and writes\<close>

record k8s_namespace =
  ns_Name :: string
  ns_Labels :: "string go_map"
  ns_Annotations :: "string go_map"

text \<open>A \<open>ResourceList\<close>: its entries in the order in which a \<open>range\<close> loop visits them.\<close>

type_synonym 'q resource_list = "(string \<times> 'q) list"

record 'q resource_quota =
  rq_Name :: string
  rq_Namespace :: string
  rq_Hard :: "'q resource_list"
  rq_Used :: "'q resource_list"

record 'q limit_range_item =
  lri_Type :: string
  lri_DefaultRequest :: "'q resource_list"
  lri_Default :: "'q resource_list"

record 'q limit_range =
  lr_Name :: string
  lr_Namespace :: string
  lr_Limits :: "'q limit_range_item list"

record deployment =
  dep_Name :: string
  dep_Namespace :: string
  dep_Annotations :: "string go_map"
  dep_Replicas :: "int32 option"
  dep_TemplateLabels :: "string go_map"

record stateful_set =
  sts_Name :: string
  sts_Namespace :: string
  sts_Annotations :: "string go_map"
  sts_Replicas :: "int32 option"
  sts_TemplateLabels :: "string go_map"

record namespaced_name =
  nn_Namespace :: string
  nn_Name :: string

datatype event_type = EventNormal | EventWarning

text \<open>A parameterised BigQuery query.\<close>

datatype bq_value = BqTime go_time | BqString string

record bq_query =
  bq_Text :: string
  bq_Parameters :: "(string \<times> bq_value) list"
  bq_Location :: string

datatype bq_next = BqDone | BqError go_error | BqRow float64

section \<open>Calls and histories\<close>

text \<open>
  One constructor per call. \<open>CreateOrPatch\<close> and \<open>CreateOrUpdate\<close> carry the object and
  the mutate function; a patch carries the object that was read and the changed one.
\<close>

datatype 'q call =
    CNow
  | CGetBudgetNamespace namespaced_name
  | CListBudgetNamespaces
  | CCreateOrPatchNamespace k8s_namespace "k8s_namespace \<Rightarrow> k8s_namespace"
  | CCreateOrUpdateQuota "'q resource_quota" "'q resource_quota \<Rightarrow> 'q resource_quota"
  | CCreateOrUpdateLimits "'q limit_range" "'q limit_range \<Rightarrow> 'q limit_range"
  | CGetResourceQuota string string
  | CListDeployments string
  | CPatchDeployment deployment deployment
  | CListStatefulSets string
  | CPatchStatefulSet stateful_set stateful_set
  | CDeleteNamespace k8s_namespace
  | CUpdateStatus budget_namespace
  | CBqRead bq_query
  | CBqNext nat
  | CEvent event_type string go_text

type_synonym 'q hist = "'q call list"

record 'q env =
  env_clock :: "'q hist \<Rightarrow> go_time"
  env_parseQuantity :: "string \<Rightarrow> 'q go_result"
  env_mustParse :: "string \<Rightarrow> 'q option"
  env_cmp :: "'q \<Rightarrow> 'q \<Rightarrow> int"
  env_isNotFound :: "go_error \<Rightarrow> bool"
  env_isConflict :: "go_error \<Rightarrow> bool"
  env_setStatusCondition :: "'q hist \<Rightarrow> condition list \<Rightarrow> condition \<Rightarrow> condition list"
  env_getBudgetNamespace :: "'q hist \<Rightarrow> namespaced_name \<Rightarrow> budget_namespace go_result"
  env_listBudgetNamespaces :: "'q hist \<Rightarrow> budget_namespace list go_result"
  env_createOrPatchNamespace ::
    "'q hist \<Rightarrow> k8s_namespace \<Rightarrow> (k8s_namespace \<Rightarrow> k8s_namespace) \<Rightarrow> go_error option"
  env_createOrUpdateQuota ::
    "'q hist \<Rightarrow> 'q resource_quota \<Rightarrow> ('q resource_quota \<Rightarrow> 'q resource_quota) \<Rightarrow> go_error option"
  env_createOrUpdateLimits ::
    "'q hist \<Rightarrow> 'q limit_range \<Rightarrow> ('q limit_range \<Rightarrow> 'q limit_range) \<Rightarrow> go_error option"
  env_getResourceQuota :: "'q hist \<Rightarrow> string \<Rightarrow> string \<Rightarrow> 'q resource_quota go_result"
  env_listDeployments :: "'q hist \<Rightarrow> string \<Rightarrow> deployment list go_result"
  env_patchDeployment :: "'q hist \<Rightarrow> deployment \<Rightarrow> deployment \<Rightarrow> go_error option"
  env_listStatefulSets :: "'q hist \<Rightarrow> string \<Rightarrow> stateful_set list go_result"
  env_patchStatefulSet :: "'q hist \<Rightarrow> stateful_set \<Rightarrow> stateful_set \<Rightarrow> go_error option"
  env_deleteNamespace :: "'q hist \<Rightarrow> k8s_namespace \<Rightarrow> go_error option"
  env_updateStatus :: "'q hist \<Rightarrow> budget_namespace \<Rightarrow> go_error option"
  env_bqRead :: "'q hist \<Rightarrow> bq_query \<Rightarrow> nat go_result"
  env_bqNext :: "'q hist \<Rightarrow> nat \<Rightarrow> bq_next"

text \<open>Making a call: the answer, and the history with the call at its end.\<close>

definition now :: "'q env \<Rightarrow> 'q hist \<Rightarrow> go_time \<times> 'q hist" where
  "now env h = (env_clock env h, h @ [CNow])"

definition getBudgetNamespace where
  "getBudgetNamespace env nn h = (env_getBudgetNamespace env h nn, h @ [CGetBudgetNamespace nn])"

definition listBudgetNamespaces where
  "listBudgetNamespaces env h = (env_listBudgetNamespaces env h, h @ [CListBudgetNamespaces])"

definition createOrPatchNamespace where
  "createOrPatchNamespace env n f h =
     (env_createOrPatchNamespace env h n f, h @ [CCreateOrPatchNamespace n f])"

definition createOrUpdateQuota where
  "createOrUpdateQuota env rq f h =
     (env_createOrUpdateQuota env h rq f, h @ [CCreateOrUpdateQuota rq f])"

definition createOrUpdateLimits where
  "createOrUpdateLimits env lr f h =
     (env_createOrUpdateLimits env h lr f, h @ [CCreateOrUpdateLimits lr f])"

definition getResourceQuota where
  "getResourceQuota env ns name h =
     (env_getResourceQuota env h ns name, h @ [CGetResourceQuota ns name])"

definition listDeployments where
  "listDeployments env ns h = (env_listDeployments env h ns, h @ [CListDeployments ns])"

definition patchDeployment where
  "patchDeployment env d d' h = (env_patchDeployment env h d d', h @ [CPatchDeployment d d'])"

definition listStatefulSets where
  "listStatefulSets env ns h = (env_listStatefulSets env h ns, h @ [CListStatefulSets ns])"

definition patchStatefulSet where
  "patchStatefulSet env s s' h = (env_patchStatefulSet env h s s', h @ [CPatchStatefulSet s s'])"

definition deleteNamespace where
  "deleteNamespace env n h = (env_deleteNamespace env h n, h @ [CDeleteNamespace n])"

definition updateStatus where
  "updateStatus env bn h = (env_updateStatus env h bn, h @ [CUpdateStatus bn])"

definition bqRead where
  "bqRead env q h = (env_bqRead env h q, h @ [CBqRead q])"

definition bqNext where
  "bqNext env it h = (env_bqNext env h it, h @ [CBqNext it])"

lemmas call_defs [go_simps] =
  now_def getBudgetNamespace_def listBudgetNamespaces_def createOrPatchNamespace_def
  createOrUpdateQuota_def createOrUpdateLimits_def getResourceQuota_def listDeployments_def
  patchDeployment_def listStatefulSets_def patchStatefulSet_def deleteNamespace_def
  updateStatus_def bqRead_def bqNext_def

text \<open>Calls that change workloads, and calls that only read.\<close>

fun is_read :: "'q call \<Rightarrow> bool" where
  "is_read CNow = True"
| "is_read (CGetBudgetNamespace n) = True"
| "is_read CListBudgetNamespaces = True"
| "is_read (CGetResourceQuota a b) = True"
| "is_read (CListDeployments a) = True"
| "is_read (CListStatefulSets a) = True"
| "is_read (CBqRead q) = True"
| "is_read (CBqNext i) = True"
| "is_read _ = False"

fun is_patch :: "'q call \<Rightarrow> bool" where
  "is_patch (CPatchDeployment a b) = True"
| "is_patch (CPatchStatefulSet a b) = True"
| "is_patch _ = False"

fun is_event :: "'q call \<Rightarrow> bool" where
  "is_event (CEvent t r m) = True"
| "is_event _ = False"

fun is_delete :: "'q call \<Rightarrow> bool" where
  "is_delete (CDeleteNamespace n) = True"
| "is_delete _ = False"

fun is_status_update :: "'q call \<Rightarrow> bool" where
  "is_status_update (CUpdateStatus b) = True"
| "is_status_update _ = False"

fun is_cost_query :: "'q call \<Rightarrow> bool" where
  "is_cost_query (CBqRead q) = True"
| "is_cost_query (CBqNext i) = True"
| "is_cost_query _ = False"

end
