(* ===== verification/Workload_Contract.thy ===== *)
theory Workload_Contract
  imports Environment
begin

text \<open>
  The label and the annotation of the workload protocol, and the two interfaces that
  Deployments and StatefulSets share: the object with its scale and restore operations
  (\<open>workload\<close>, extended by \<open>scale_op\<close>, \<open>restore_op\<close> and \<open>scale_restore\<close>) and the loop
  that patches the objects of a list one by one (\<open>patch_loop\<close>). Each lemma is proved here
  once; \<open>Workload_Scale\<close> and \<open>Enforcement\<close> interpret the locales for the code.
\<close>

section \<open>Constants\<close>

definition costguardExemptLabel :: string where
  "costguardExemptLabel = ''ealebed.github.io/exempt''"

definition costguardExemptLabelValue :: string where
  "costguardExemptLabelValue = ''true''"

definition preScaleReplicasAnnotation :: string where
  "preScaleReplicasAnnotation = ''finops.ealebed.github.io/pre-scale-replicas''"

text \<open>\<open>labels != nil && labels[costguardExemptLabel] == costguardExemptLabelValue\<close>.\<close>

definition isExempt :: "string go_map \<Rightarrow> bool" where
  "isExempt labels \<longleftrightarrow> map_lookup labels costguardExemptLabel = Some costguardExemptLabelValue"

text \<open>The saved count of a workload, when it is one that a restore can use.\<close>

definition savedCount :: "string go_map \<Rightarrow> int option" where
  "savedCount a =
     (case map_lookup a preScaleReplicasAnnotation of None \<Rightarrow> None
      | Some raw \<Rightarrow> (case parseInt32 raw of Inl _ \<Rightarrow> None | Inr n \<Rightarrow> if n \<le> 0 then None else Some n))"

lemma savedCount_Some_iff:
  "savedCount a = Some n \<longleftrightarrow>
   (\<exists>raw. map_lookup a preScaleReplicasAnnotation = Some raw \<and> parseInt32 raw = Inr n \<and> 0 < n)"
  by (auto simp: savedCount_def split: option.splits sum.splits)

lemma savedCount_sint:
  assumes "savedCount a = Some n"
  shows "0 < n" and "sint (word_of_int n :: int32) = n"
proof -
  from assms obtain raw where "parseInt32 raw = Inr n" and n: "0 < n"
    by (auto simp: savedCount_Some_iff)
  from parseInt32_range [OF this(1)] show "sint (word_of_int n :: int32) = n"
    by (simp add: int32_word_of_int)
  show "0 < n" by (fact n)
qed

section \<open>The patches of a list\<close>

text \<open>The patches that a loop over a list attempts, in order: each object with its change.\<close>

fun plan :: "('w \<Rightarrow> 'w option) \<Rightarrow> 'w list \<Rightarrow> ('w \<times> 'w) list" where
  "plan step [] = []"
| "plan step (w # ws) = (case step w of None \<Rightarrow> plan step ws | Some w' \<Rightarrow> (w, w') # plan step ws)"

lemma plan_iff: "(w, w') \<in> set (plan step ws) \<longleftrightarrow> w \<in> set ws \<and> step w = Some w'"
  by (induction ws) (auto split: option.splits)

lemma plan_eq_Nil: "plan step ws = [] \<longleftrightarrow> (\<forall>w \<in> set ws. step w = None)"
  by (induction ws) (auto split: option.splits)

text \<open>The object as a server that accepts the patch has it afterwards.\<close>

definition patched :: "('w \<Rightarrow> 'w option) \<Rightarrow> 'w \<Rightarrow> 'w" where
  "patched step w = (case step w of None \<Rightarrow> w | Some w' \<Rightarrow> w')"

lemma patched_simps [simp]:
  "step w = None \<Longrightarrow> patched step w = w"
  "step w = Some w' \<Longrightarrow> patched step w = w'"
  by (simp_all add: patched_def)

text \<open>What holds of each call, given the history before it.\<close>

fun each_call :: "('c list \<Rightarrow> 'c \<Rightarrow> bool) \<Rightarrow> 'c list \<Rightarrow> 'c list \<Rightarrow> bool" where
  "each_call ok h [] \<longleftrightarrow> True"
| "each_call ok h (c # cs) \<longleftrightarrow> ok h c \<and> each_call ok (h @ [c]) cs"

lemma each_call_append [simp]:
  "each_call ok h (cs @ ds) \<longleftrightarrow> each_call ok h cs \<and> each_call ok (h @ cs) ds"
  by (induction cs arbitrary: h) simp_all

lemma each_call_mono: "each_call ok h cs \<Longrightarrow> (\<And>h c. ok h c \<Longrightarrow> ok' h c) \<Longrightarrow> each_call ok' h cs"
  by (induction cs arbitrary: h) simp_all

section \<open>The object\<close>

locale workload =
  fixes annots :: "'w \<Rightarrow> string go_map"
    and replicas :: "'w \<Rightarrow> int32 option"
    and labels :: "'w \<Rightarrow> string go_map"
    and upd :: "string go_map \<Rightarrow> int32 option \<Rightarrow> 'w \<Rightarrow> 'w"
  assumes annots_upd [simp]: "annots (upd a r w) = a"
    and replicas_upd [simp]: "replicas (upd a r w) = r"
    and labels_upd [simp]: "labels (upd a r w) = labels w"
    and upd_upd [simp]: "upd a r (upd a' r' w) = upd a r w"
    and upd_same [simp]: "upd (annots w) (replicas w) w = w"

text \<open>A nil replica count is 1 when scaling down and 0 when restoring.\<close>

definition replicas_or :: "int32 \<Rightarrow> int32 option \<Rightarrow> int32" where
  "replicas_or d r = (case r of None \<Rightarrow> d | Some n \<Rightarrow> n)"

lemma replicas_or_simps [simp]: "replicas_or d None = d" "replicas_or d (Some n) = n"
  by (simp_all add: replicas_or_def)

locale scale_op = workload annots replicas labels upd
  for annots :: "'w \<Rightarrow> string go_map" and replicas labels upd +
  fixes scale :: "'w \<Rightarrow> 'w option"
  assumes scale_None_iff: "scale w = None \<longleftrightarrow> isExempt (labels w) \<or> replicas_or 1 (replicas w) = 0"
    and scale_SomeD: "scale w = Some w' \<Longrightarrow>
      w' = upd (Some ((map_made (annots w))(preScaleReplicasAnnotation \<mapsto>
             (case map_lookup (annots w) preScaleReplicasAnnotation of
                None \<Rightarrow> format_int (sint (replicas_or 1 (replicas w))) | Some v \<Rightarrow> v)))) (Some 0) w"
begin

lemma scale_Some_iff:
  "(\<exists>w'. scale w = Some w') \<longleftrightarrow> \<not> isExempt (labels w) \<and> replicas_or 1 (replicas w) \<noteq> 0"
  using scale_None_iff [of w] by (cases "scale w") auto

lemma scaled_object:
  "scale w = Some w' \<Longrightarrow> \<not> isExempt (labels w) \<and> replicas w \<noteq> Some 0 \<and>
   w' = upd (Some ((map_made (annots w))(preScaleReplicasAnnotation \<mapsto>
             (case map_lookup (annots w) preScaleReplicasAnnotation of
                None \<Rightarrow> format_int (sint (replicas_or 1 (replicas w))) | Some v \<Rightarrow> v)))) (Some 0) w"
  using scale_Some_iff [of w] scale_SomeD [of w w'] by (auto simp: replicas_or_def)

lemma scaled_replicas: "scale w = Some w' \<Longrightarrow> replicas w' = Some 0"
  by (drule scale_SomeD) simp

lemma scaled_labels: "scale w = Some w' \<Longrightarrow> labels w' = labels w"
  by (drule scale_SomeD) simp

lemma scaled_annotation:
  "scale w = Some w' \<Longrightarrow>
   map_lookup (annots w') preScaleReplicasAnnotation =
     Some (case map_lookup (annots w) preScaleReplicasAnnotation of
             None \<Rightarrow> format_int (sint (replicas_or 1 (replicas w))) | Some v \<Rightarrow> v)"
  by (drule scale_SomeD) simp

lemma scaled_other_annotation:
  "scale w = Some w' \<Longrightarrow> k \<noteq> preScaleReplicasAnnotation \<Longrightarrow>
   map_lookup (annots w') k = map_lookup (annots w) k"
  by (drule scale_SomeD) simp

lemma scale_twice: "scale w = Some w' \<Longrightarrow> scale w' = None"
  by (simp add: scale_None_iff scaled_replicas)

text \<open>Which workloads are scaled, and to what.\<close>

lemma plan_scale:
  "plan scale ws =
     map (\<lambda>w. (w, upd (Some ((map_made (annots w))(preScaleReplicasAnnotation \<mapsto>
             (case map_lookup (annots w) preScaleReplicasAnnotation of
                None \<Rightarrow> format_int (sint (replicas_or 1 (replicas w))) | Some v \<Rightarrow> v)))) (Some 0) w))
       (filter (\<lambda>w. \<not> isExempt (labels w) \<and> replicas w \<noteq> Some 0) ws)"
proof (induction ws)
  case (Cons w ws)
  show ?case
  proof (cases "scale w")
    case None
    then have "isExempt (labels w) \<or> replicas w = Some 0"
      using scale_None_iff [of w] by (cases "replicas w") auto
    with None Cons show ?thesis by auto
  next
    case (Some w')
    from scaled_object [OF Some] have on: "\<not> isExempt (labels w) \<and> replicas w \<noteq> Some 0" by blast
    have "plan scale (w # ws) = (w, w') # plan scale ws" by (simp add: Some)
    also note Cons
    also note conjunct2 [OF conjunct2 [OF scaled_object [OF Some]]]
    finally show ?thesis using on by (simp only: filter.simps list.map if_True simp_thms)
  qed
qed simp

lemma plan_scale_again: "plan scale (map (patched scale) ws) = []"
proof -
  have "scale (patched scale w) = None" for w
    by (cases "scale w") (simp_all add: scale_twice)
  then show ?thesis by (simp add: plan_eq_Nil)
qed

end

locale restore_op = workload annots replicas labels upd
  for annots :: "'w \<Rightarrow> string go_map" and replicas labels upd +
  fixes pending :: "'w \<Rightarrow> bool"
    and restore :: "'w \<Rightarrow> 'w option"
  assumes pending_iff: "pending w \<longleftrightarrow>
      \<not> isExempt (labels w) \<and> replicas_or 0 (replicas w) = 0 \<and>
      map_lookup (annots w) preScaleReplicasAnnotation \<noteq> None"
    and restore_Some_iff: "restore w = Some w' \<longleftrightarrow>
      \<not> isExempt (labels w) \<and> replicas_or 0 (replicas w) = 0 \<and>
      (\<exists>n. savedCount (annots w) = Some n \<and>
         w' = upd (map_delete (annots w) preScaleReplicasAnnotation) (Some (word_of_int n)) w)"
begin

lemma restore_pending: "restore w = Some w' \<Longrightarrow> pending w"
  by (auto simp: restore_Some_iff pending_iff savedCount_Some_iff)

lemma restored_positive: "restore w = Some w' \<Longrightarrow> \<exists>r. replicas w' = Some r \<and> 0 < sint r"
  using savedCount_sint by (fastforce simp: restore_Some_iff)

lemma restored_annotation:
  "restore w = Some w' \<Longrightarrow> map_lookup (annots w') preScaleReplicasAnnotation = None"
  by (auto simp: restore_Some_iff)

lemma restored_not_pending: "restore w = Some w' \<Longrightarrow> \<not> pending w'"
  using restored_annotation pending_iff by blast

text \<open>
  What keeps a pending workload from being restored is an unusable saved count, and a pass
  that is never refused leaves exactly those workloads pending.
\<close>

lemma pending_stuck_iff: "pending w \<and> restore w = None \<longleftrightarrow> pending w \<and> savedCount (annots w) = None"
proof -
  have "restore w = None \<longleftrightarrow> (\<forall>w'. restore w \<noteq> Some w')" by auto
  then show ?thesis by (cases "savedCount (annots w)") (auto simp: restore_Some_iff pending_iff)
qed

lemma pending_patched: "pending (patched restore w) \<longleftrightarrow> pending w \<and> savedCount (annots w) = None"
  using pending_stuck_iff [of w] restored_not_pending [of w] restore_pending [of w]
  by (cases "restore w") auto

lemma pending_after_restore:
  "list_ex pending (map (patched restore) ws) \<longleftrightarrow>
   list_ex (\<lambda>w. pending w \<and> savedCount (annots w) = None) ws"
  by (simp add: list_ex_iff pending_patched)

end

locale scale_restore =
  scale_op annots replicas labels upd scale + restore_op annots replicas labels upd pending restore
  for annots :: "'w \<Rightarrow> string go_map" and replicas labels upd scale pending restore
begin

lemma scaled_pending: "scale w = Some w' \<Longrightarrow> pending w'"
  using scale_Some_iff [of w]
  by (auto simp: pending_iff scaled_replicas scaled_labels scaled_annotation)

text \<open>
  Restoring undoes scaling: the count comes back, and the annotations are as before (a nil
  map has become an empty one). A count that is already saved is not overwritten, so it is
  the saved one that comes back, whatever the workload ran with when it was scaled down.
\<close>

lemma scaled_savedCount:
  assumes "scale w = Some w'"
  shows "savedCount (annots w') =
    (case map_lookup (annots w) preScaleReplicasAnnotation of
       None \<Rightarrow> if 0 < sint (replicas_or 1 (replicas w)) then Some (sint (replicas_or 1 (replicas w))) else None
     | Some _ \<Rightarrow> savedCount (annots w))"
  using scaled_annotation [OF assms] int32_range [of "replicas_or 1 (replicas w)"]
  by (auto simp: savedCount_def parseInt32_format_int split: option.splits)

lemma restore_scale_saved:
  assumes "scale w = Some w'" "savedCount (annots w') = Some n"
  shows "restore w' = Some (upd (Some ((map_made (annots w))(preScaleReplicasAnnotation := None)))
           (Some (word_of_int n)) w)"
proof -
  have ex: "\<not> isExempt (labels w)" using assms(1) scale_Some_iff [of w] by blast
  note w' = scale_SomeD [OF assms(1)]
  show ?thesis using ex assms(2) by (simp add: restore_Some_iff w')
qed

lemma restore_scale:
  assumes "scale w = Some w'" "0 < sint (replicas_or 1 (replicas w))"
    and "map_lookup (annots w) preScaleReplicasAnnotation = None"
  shows "restore w' = Some (upd (Some (map_made (annots w))) (Some (replicas_or 1 (replicas w))) w)"
proof -
  have undo: "(map_made (annots w))(preScaleReplicasAnnotation := None) = map_made (annots w)"
    using assms(3) by (intro ext) simp
  from assms have "savedCount (annots w') = Some (sint (replicas_or 1 (replicas w)))"
    by (simp add: scaled_savedCount)
  from restore_scale_saved [OF assms(1) this] undo show ?thesis by simp
qed

text \<open>The same for a whole list: restoring after scaling patches what scaling patched.\<close>

lemma plan_restore_scale:
  assumes "\<forall>w \<in> set ws. map_lookup (annots w) preScaleReplicasAnnotation = None"
    and "\<forall>w \<in> set ws. 0 \<le> sint (replicas_or 1 (replicas w))"
  shows "plan restore (map (patched scale) ws) =
    map (\<lambda>(w, w'). (w', upd (Some (map_made (annots w))) (Some (replicas_or 1 (replicas w))) w)) (plan scale ws)"
  using assms
proof (induction ws)
  case (Cons w ws)
  show ?case
  proof (cases "scale w")
    case None
    with Cons have "restore w = None"
      by (cases "restore w") (auto simp: restore_Some_iff savedCount_Some_iff)
    with None Cons show ?thesis by simp
  next
    case (Some w')
    then have "replicas_or 1 (replicas w) \<noteq> 0" using scale_Some_iff [of w] by blast
    then have "sint (replicas_or 1 (replicas w)) \<noteq> 0" by (metis signed_eq_0_iff)
    with Cons.prems(2) have "0 < sint (replicas_or 1 (replicas w))" by simp
    with Some restore_scale [OF Some] Cons show ?thesis by (simp del: map_lookup_made)
  qed
qed simp

end

section \<open>The abstract workload\<close>

text \<open>
  What a workload is to the protocol: a replica count and a saved count. Scaling parks the
  count unless one is parked already; restoring takes the parked count back.
\<close>

type_synonym counts = "int \<times> int option"

fun park :: "counts \<Rightarrow> counts option" where
  "park (n, saved) =
     (if n = 0 then None else Some (0, Some (case saved of None \<Rightarrow> n | Some m \<Rightarrow> m)))"

fun unpark :: "counts \<Rightarrow> counts option" where
  "unpark (n, None) = None"
| "unpark (n, Some m) = (if n = 0 then Some (m, None) else None)"

definition counts_of :: "int32 option \<Rightarrow> string go_map \<Rightarrow> counts" where
  "counts_of r a = (sint (replicas_or 1 r), savedCount a)"

text \<open>
  The workloads for which that is the whole story: the replica count is set and not negative,
  as the API server sees to, and the annotation is absent or a usable count.
\<close>

definition well_kept :: "int32 option \<Rightarrow> string go_map \<Rightarrow> bool" where
  "well_kept r a \<longleftrightarrow> r \<noteq> None \<and> 0 \<le> sint (replicas_or 1 r) \<and>
     (map_lookup a preScaleReplicasAnnotation = None \<or> savedCount a \<noteq> None)"

lemma savedCount_unannotated [simp]: "map_lookup a preScaleReplicasAnnotation = None \<Longrightarrow> savedCount a = None"
  by (simp add: savedCount_def)

context scale_restore
begin

lemma scale_counts:
  assumes "\<not> isExempt (labels w)" "well_kept (replicas w) (annots w)"
  shows "map_option (\<lambda>w. counts_of (replicas w) (annots w)) (scale w) = park (counts_of (replicas w) (annots w))"
proof (cases "scale w")
  case None
  with assms(1) show ?thesis by (simp add: scale_None_iff counts_of_def)
next
  case (Some w')
  then have "replicas_or 1 (replicas w) \<noteq> 0" using scale_Some_iff [of w] by blast
  then have "sint (replicas_or 1 (replicas w)) \<noteq> 0" by (metis signed_eq_0_iff)
  with Some assms(2) scaled_savedCount [OF Some] show ?thesis
    by (auto simp: counts_of_def scaled_replicas well_kept_def split: option.splits)
qed

lemma restore_counts:
  assumes "\<not> isExempt (labels w)" "well_kept (replicas w) (annots w)"
  shows "map_option (\<lambda>w. counts_of (replicas w) (annots w)) (restore w) = unpark (counts_of (replicas w) (annots w))"
proof (cases "restore w")
  case None
  have "savedCount (annots w) = None" if "replicas w = Some 0"
    using None assms(1) that restore_Some_iff [of w] by (cases "savedCount (annots w)") auto
  with None assms show ?thesis
    by (cases "savedCount (annots w)") (auto simp: counts_of_def well_kept_def signed_eq_0_iff)
next
  case (Some w')
  then show ?thesis using assms
    by (auto simp: restore_Some_iff counts_of_def well_kept_def savedCount_sint)
qed

lemma scale_keeps:
  assumes "scale w = Some w'" "well_kept (replicas w) (annots w)"
  shows "well_kept (replicas w') (annots w')"
proof -
  have "sint (replicas_or 1 (replicas w)) \<noteq> 0"
    using assms(1) scale_Some_iff [of w] by (metis signed_eq_0_iff)
  with assms(2) scaled_savedCount [OF assms(1)] show ?thesis
    by (auto simp: well_kept_def scaled_replicas [OF assms(1)] split: option.splits)
qed

lemma restore_keeps:
  assumes "restore w = Some w'" "well_kept (replicas w) (annots w)"
  shows "well_kept (replicas w') (annots w')"
  using restored_annotation [OF assms(1)] restored_positive [OF assms(1)] by (auto simp: well_kept_def)

lemma kept_not_stuck: "pending w \<Longrightarrow> well_kept (replicas w) (annots w) \<Longrightarrow> \<exists>w'. restore w = Some w'"
  using pending_stuck_iff [of w] by (cases "restore w") (auto simp: well_kept_def pending_iff)

end

section \<open>The patching loop\<close>

locale patch_loop =
  fixes step :: "'w \<Rightarrow> 'w option"
    and resp :: "'c list \<Rightarrow> 'w \<Rightarrow> 'w \<Rightarrow> go_error option"
    and call :: "'w \<Rightarrow> 'w \<Rightarrow> 'c"
    and wrap :: "'w \<Rightarrow> go_error \<Rightarrow> go_error"
    and loop :: "'w list \<Rightarrow> int \<Rightarrow> 'c list \<Rightarrow> (int \<times> go_error option) \<times> 'c list"
  assumes loop_Nil: "loop [] n h = ((n, None), h)"
    and loop_skip: "step w = None \<Longrightarrow> loop (w # ws) n h = loop ws n h"
    and loop_patch: "step w = Some w' \<Longrightarrow> resp h w w' = None \<Longrightarrow>
      loop (w # ws) n h = loop ws (n + 1) (h @ [call w w'])"
    and loop_fail: "step w = Some w' \<Longrightarrow> resp h w w' = Some e \<Longrightarrow>
      loop (w # ws) n h = ((n, Some (wrap w' e)), h @ [call w w'])"
begin

text \<open>
  The loop stops at the first patch that fails. \<open>k\<close> patches succeeded; the history holds
  them and, after an error, the failed one; nothing else.
\<close>

lemma loop_ok:
  "loop ws n h = ((m, None), h') \<Longrightarrow>
   m = n + int (length (plan step ws)) \<and> h' = h @ map (\<lambda>(w, w'). call w w') (plan step ws)"
proof (induction ws arbitrary: n h)
  case Nil
  then show ?case by (simp add: loop_Nil)
next
  case (Cons w ws)
  show ?case
  proof (cases "step w")
    case None
    with Cons show ?thesis by (simp add: loop_skip)
  next
    case (Some w')
    with Cons.prems have "resp h w w' = None" by (cases "resp h w w'") (auto simp: loop_fail)
    with Some Cons.prems Cons.IH show ?thesis by (fastforce simp: loop_patch)
  qed
qed

lemma loop_error:
  "loop ws n h = ((m, Some err), h') \<Longrightarrow>
   \<exists>k w w' e. k < length (plan step ws) \<and> plan step ws ! k = (w, w') \<and> m = n + int k \<and>
     err = wrap w' e \<and>
     resp (h @ map (\<lambda>(w, w'). call w w') (take k (plan step ws))) w w' = Some e \<and>
     h' = h @ map (\<lambda>(w, w'). call w w') (take (Suc k) (plan step ws))"
proof (induction ws arbitrary: n h)
  case Nil
  then show ?case by (simp add: loop_Nil)
next
  case (Cons w ws)
  show ?case
  proof (cases "step w")
    case None
    with Cons show ?thesis by (simp add: loop_skip)
  next
    case (Some w')
    show ?thesis
    proof (cases "resp h w w'")
      case None
      with Some Cons.prems have "loop ws (n + 1) (h @ [call w w']) = ((m, Some err), h')"
        by (simp add: loop_patch)
      from Cons.IH [OF this] obtain k v v' e where
        k: "k < length (plan step ws)" "plan step ws ! k = (v, v')" "m = n + 1 + int k" "err = wrap v' e"
          "resp ((h @ [call w w']) @ map (\<lambda>(w, w'). call w w') (take k (plan step ws))) v v' = Some e"
          "h' = (h @ [call w w']) @ map (\<lambda>(w, w'). call w w') (take (Suc k) (plan step ws))"
        by blast
      with Some show ?thesis by (intro exI [of _ "Suc k"]) simp
    next
      case e: (Some e)
      with Some Cons.prems show ?thesis
        by (intro exI [of _ 0] exI [of _ w] exI [of _ w'] exI [of _ e]) (simp add: loop_fail)
    qed
  qed
qed

text \<open>The patches before the end of the loop were accepted, each when it was sent.\<close>

abbreviation accepted :: "'c list \<Rightarrow> 'c \<Rightarrow> bool" where
  "accepted h c \<equiv> \<exists>w w'. c = call w w' \<and> resp h w w' = None"

lemma loop_accepted:
  "loop ws n h = ((m, e), h') \<Longrightarrow>
   n \<le> m \<and> each_call accepted h (map (\<lambda>(w, w'). call w w') (take (nat (m - n)) (plan step ws)))"
proof (induction ws arbitrary: n h)
  case Nil
  then show ?case by (simp add: loop_Nil)
next
  case (Cons w ws)
  show ?case
  proof (cases "step w")
    case None
    with Cons show ?thesis by (simp add: loop_skip)
  next
    case (Some w')
    show ?thesis
    proof (cases "resp h w w'")
      case None
      with Some Cons.prems have "loop ws (n + 1) (h @ [call w w']) = ((m, e), h')" by (simp add: loop_patch)
      from Cons.IH [OF this] have
        "n + 1 \<le> m" "each_call accepted (h @ [call w w']) (map (\<lambda>(w, w'). call w w') (take (nat (m - (n + 1))) (plan step ws)))"
        by simp_all
      moreover from this(1) have "nat (m - n) = Suc (nat (m - (n + 1)))" by simp
      ultimately show ?thesis using Some None by auto
    next
      case err: (Some x)
      with Some Cons.prems show ?thesis by (simp add: loop_fail)
    qed
  qed
qed

lemma loop_succeeds:
  "(\<And>h w w'. (w, w') \<in> set (plan step ws) \<Longrightarrow> resp h w w' = None) \<Longrightarrow>
   loop ws n h = ((n + int (length (plan step ws)), None), h @ map (\<lambda>(w, w'). call w w') (plan step ws))"
proof (induction ws arbitrary: n h)
  case Nil
  then show ?case by (simp add: loop_Nil)
next
  case (Cons w ws)
  then show ?case by (cases "step w") (simp_all add: loop_skip loop_patch)
qed

lemma loop_grows:
  assumes "\<And>w w'. w \<in> set ws \<Longrightarrow> step w = Some w' \<Longrightarrow> P (call w w')"
  shows "grows P h (snd (loop ws n h))"
proof -
  have P: "list_all P (map (\<lambda>(w, w'). call w w') (take k (plan step ws)))" for k
    using assms plan_iff [of _ _ step ws] by (auto simp: list_all_iff dest!: in_set_takeD)
  obtain m e h' where l: "loop ws n h = ((m, e), h')" by (metis surj_pair)
  show ?thesis
  proof (cases e)
    case None
    with loop_ok [of ws n h m h'] P [of "length (plan step ws)"] l show ?thesis
      by (auto simp: grows_def)
  next
    case (Some err)
    from loop_error [OF l [unfolded Some]] obtain k
      where "h' = h @ map (\<lambda>(w, w'). call w w') (take (Suc k) (plan step ws))" by blast
    with P l show ?thesis by (auto simp: grows_def)
  qed
qed

lemma loop_count: "n \<le> fst (fst (loop ws n h)) \<and> fst (fst (loop ws n h)) \<le> n + int (length (plan step ws))"
proof -
  obtain m e h' where l: "loop ws n h = ((m, e), h')" by (metis surj_pair)
  show ?thesis
  proof (cases e)
    case None
    with loop_ok [of ws n h m h'] l show ?thesis by simp
  next
    case (Some err)
    from loop_error [OF l [unfolded Some]] l show ?thesis by auto
  qed
qed

end

text \<open>A pass over the workloads of one kind: list them, then patch them in a loop.\<close>

locale patch_pass = patch_loop step resp call wrap loop
  for step :: "'w \<Rightarrow> 'w option"
    and resp :: "'c list \<Rightarrow> 'w \<Rightarrow> 'w \<Rightarrow> go_error option" and call wrap loop +
  fixes listing :: "'c list \<Rightarrow> 'w list go_result"
    and list_call :: 'c
    and wrap_list :: "go_error \<Rightarrow> go_error"
    and run :: "'c list \<Rightarrow> (int \<times> go_error option) \<times> 'c list"
  assumes run_unlisted: "listing h = Inl e \<Longrightarrow> run h = ((0, Some (wrap_list e)), h @ [list_call])"
    and run_listed: "listing h = Inr ws \<Longrightarrow> run h = loop ws 0 (h @ [list_call])"
begin

lemma run_ok:
  assumes "run h = ((n, None), h')"
  shows "\<exists>ws. listing h = Inr ws \<and> n = int (length (plan step ws)) \<and>
    h' = h @ list_call # map (\<lambda>(w, w'). call w w') (plan step ws)"
proof (cases "listing h")
  case (Inr ws)
  with assms loop_ok [of ws 0 "h @ [list_call]" n h'] show ?thesis by (simp add: run_listed)
qed (use assms in \<open>simp add: run_unlisted\<close>)

lemma run_error:
  assumes "run h = ((n, Some err), h')"
  shows "\<exists>e. listing h = Inl e \<and> n = 0 \<and> err = wrap_list e \<and> h' = h @ [list_call]
    \<or> (\<exists>ws k w w'. listing h = Inr ws \<and> k < length (plan step ws) \<and> n = int k \<and> err = wrap w' e \<and>
        resp (h @ list_call # map (\<lambda>(w, w'). call w w') (take k (plan step ws))) w w' = Some e \<and>
        h' = h @ list_call # map (\<lambda>(w, w'). call w w') (take k (plan step ws)) @ [call w w'])"
proof (cases "listing h")
  case (Inl e)
  with assms show ?thesis by (simp add: run_unlisted)
next
  case (Inr ws)
  with assms have "loop ws 0 (h @ [list_call]) = ((n, Some err), h')" by (simp add: run_listed)
  from loop_error [OF this] Inr show ?thesis
    by (clarsimp simp: take_Suc_conv_app_nth) blast
qed

text \<open>The same with the position of the failure, and with what came before it accepted.\<close>

lemma run_error_at:
  assumes "run h = ((n, Some err), h')"
  obtains (unlisted) e where "listing h = Inl e" "n = 0" "err = wrap_list e" "h' = h @ [list_call]"
  | (refused) ws ps w w' qs e where "listing h = Inr ws" "plan step ws = ps @ (w, w') # qs"
      "n = int (length ps)" "err = wrap w' e"
      "resp (h @ list_call # map (\<lambda>(w, w'). call w w') ps) w w' = Some e"
      "h' = h @ list_call # map (\<lambda>(w, w'). call w w') ps @ [call w w']"
      "each_call accepted (h @ [list_call]) (map (\<lambda>(w, w'). call w w') ps)"
proof (cases "listing h")
  case (Inl e)
  with assms unlisted show ?thesis by (simp add: run_unlisted)
next
  case (Inr ws)
  with assms have l: "loop ws 0 (h @ [list_call]) = ((n, Some err), h')" by (simp add: run_listed)
  from loop_error [OF l] obtain k w w' e where k: "k < length (plan step ws)" "plan step ws ! k = (w, w')"
      "n = int k" "err = wrap w' e"
      "resp (h @ list_call # map (\<lambda>(w, w'). call w w') (take k (plan step ws))) w w' = Some e"
      "h' = h @ list_call # map (\<lambda>(w, w'). call w w') (take k (plan step ws)) @ [call w w']"
    by (auto simp: take_Suc_conv_app_nth)
  show ?thesis
  proof (rule refused [OF Inr _ _ k(4) k(5) k(6)])
    show "plan step ws = take k (plan step ws) @ (w, w') # drop (Suc k) (plan step ws)"
      using id_take_nth_drop [OF k(1)] k(2) by simp
  qed (use k loop_accepted [OF l] in simp_all)
qed

lemma run_ok_accepted:
  assumes "run h = ((n, None), h')"
  shows "\<exists>ws. listing h = Inr ws \<and> n = int (length (plan step ws)) \<and>
    h' = h @ list_call # map (\<lambda>(w, w'). call w w') (plan step ws) \<and>
    each_call accepted (h @ [list_call]) (map (\<lambda>(w, w'). call w w') (plan step ws))"
proof (cases "listing h")
  case (Inr ws)
  with assms have l: "loop ws 0 (h @ [list_call]) = ((n, None), h')" by (simp add: run_listed)
  from loop_ok [OF l] loop_accepted [OF l] Inr show ?thesis by auto
qed (use assms in \<open>simp add: run_unlisted\<close>)

lemma run_succeeds:
  assumes "listing h = Inr ws" "\<And>h w w'. (w, w') \<in> set (plan step ws) \<Longrightarrow> resp h w w' = None"
  shows "run h = ((int (length (plan step ws)), None),
    h @ list_call # map (\<lambda>(w, w'). call w w') (plan step ws))"
  using assms loop_succeeds [of ws 0 "h @ [list_call]"] by (simp add: run_listed)

lemma run_grows:
  assumes "P list_call" "\<And>w w'. step w = Some w' \<Longrightarrow> P (call w w')"
  shows "grows P h (snd (run h))"
proof (cases "listing h")
  case (Inr ws)
  from loop_grows [of ws P "h @ [list_call]" 0] assms
  have "grows P (h @ [list_call]) (snd (loop ws 0 (h @ [list_call])))" by blast
  with grows_trans [OF grows_snoc [of P list_call h] this] assms(1) Inr show ?thesis
    by (simp add: run_listed)
qed (use assms(1) in \<open>simp add: run_unlisted grows_snoc\<close>)

end

end
