(* ===== verification/Sample_Environment.thy ===== *)
theory Sample_Environment
  imports Environment
begin

text \<open>
  A concrete environment, used only by the witnesses: an API server in memory that replays
  the patches of the history on the workloads it started with, accepts every write, answers
  with one BudgetNamespace and one ResourceQuota, and a clock that moves by a nanosecond per
  call. Quantities are plain integers.
\<close>

fun replay_deployments :: "deployment list \<Rightarrow> 'q hist \<Rightarrow> deployment list" where
  "replay_deployments ds [] = ds"
| "replay_deployments ds (c # cs) =
     (case c of
        CPatchDeployment d d' \<Rightarrow>
          replay_deployments (map (\<lambda>x. if dep_Name x = dep_Name d then d' else x) ds) cs
      | _ \<Rightarrow> replay_deployments ds cs)"

fun replay_stateful_sets :: "stateful_set list \<Rightarrow> 'q hist \<Rightarrow> stateful_set list" where
  "replay_stateful_sets ss [] = ss"
| "replay_stateful_sets ss (c # cs) =
     (case c of
        CPatchStatefulSet s s' \<Rightarrow>
          replay_stateful_sets (map (\<lambda>x. if sts_Name x = sts_Name s then s' else x) ss) cs
      | _ \<Rightarrow> replay_stateful_sets ss cs)"

text \<open>Replace the condition of the same type, or add it.\<close>

fun put_condition :: "condition list \<Rightarrow> condition \<Rightarrow> condition list" where
  "put_condition [] c = [c]"
| "put_condition (x # xs) c = (if cond_Type x = cond_Type c then c # xs else x # put_condition xs c)"

record sample =
  sample_start :: go_time
  sample_bn :: budget_namespace
  sample_used :: "(string \<times> int) list"
  sample_hard :: "(string \<times> int) list"
  sample_deployments :: "deployment list"
  sample_stateful_sets :: "stateful_set list"
  sample_spend :: float64

definition sample_env :: "sample \<Rightarrow> int env" where
  "sample_env m = \<lparr>
     env_clock = (\<lambda>h. sample_start m + int (length h)),
     env_parseQuantity = parseInt32,
     env_mustParse = (\<lambda>s. case parseInt32 s of Inl _ \<Rightarrow> None | Inr n \<Rightarrow> Some n),
     env_cmp = (\<lambda>a b. sgn (a - b)),
     env_isNotFound = (\<lambda>e. e = ApiError ''NotFound''),
     env_isConflict = (\<lambda>e. e = ApiError ''Conflict''),
     env_setStatusCondition = (\<lambda>h cs c. put_condition cs c),
     env_getBudgetNamespace = (\<lambda>h nn. Inr (sample_bn m)),
     env_listBudgetNamespaces = (\<lambda>h. Inr [sample_bn m]),
     env_createOrPatchNamespace = (\<lambda>h n f. None),
     env_createOrUpdateQuota = (\<lambda>h q f. None),
     env_createOrUpdateLimits = (\<lambda>h l f. None),
     env_getResourceQuota = (\<lambda>h ns n. Inr \<lparr>rq_Name = n, rq_Namespace = ns,
        rq_Hard = sample_hard m, rq_Used = sample_used m\<rparr>),
     env_listDeployments = (\<lambda>h ns. Inr (replay_deployments (sample_deployments m) h)),
     env_patchDeployment = (\<lambda>h d d'. None),
     env_listStatefulSets = (\<lambda>h ns. Inr (replay_stateful_sets (sample_stateful_sets m) h)),
     env_patchStatefulSet = (\<lambda>h s s'. None),
     env_deleteNamespace = (\<lambda>h n. None),
     env_updateStatus = (\<lambda>h bn. None),
     env_bqRead = (\<lambda>h q. Inr 0),
     env_bqNext = (\<lambda>h i. BqRow (sample_spend m))\<rparr>"

text \<open>Sample objects.\<close>

definition sample_deployment :: deployment where
  "sample_deployment = \<lparr>dep_Name = ''web'', dep_Namespace = ''team'', dep_Annotations = None,
     dep_Replicas = Some 2, dep_TemplateLabels = None\<rparr>"

definition sample_stateful_set :: stateful_set where
  "sample_stateful_set = \<lparr>sts_Name = ''db'', sts_Namespace = ''team'',
     sts_Annotations = Some (Map.empty(''owner'' \<mapsto> ''ops'')), sts_Replicas = Some 3,
     sts_TemplateLabels = Some (Map.empty(''app'' \<mapsto> ''db''))\<rparr>"

definition sample_spec :: bn_spec where
  "sample_spec = \<lparr>spec_NamespaceName = ''team'', spec_Labels = Some (Map.empty(''env'' \<mapsto> ''dev'')),
     spec_Annotations = None,
     spec_Quota = \<lparr>quota_CPU = ''4'', quota_Memory = ''8'', quota_Storage = ''20'',
       quota_PersistentVolumeClaims = 5, quota_Pods = 10\<rparr>,
     spec_Defaults = \<lparr>defaults_RequestCPU = ''1'', defaults_RequestMemory = ''1'',
       defaults_LimitCPU = ''2'', defaults_LimitMemory = ''2''\<rparr>,
     spec_TTL = ''1h'',
     spec_Enforcement = \<lparr>enf_Enabled = True, enf_Action = ''ScaleToZero'',
       enf_RestoreOnRecovery = True, enf_EnforcementCooldown = ''2m''\<rparr>,
     spec_CostBudget = None\<rparr>"

definition sample_budget :: cost_budget_spec where
  "sample_budget = \<lparr>cb_Enabled = True, cb_BillingExportTable = ''proj.billing.export'',
     cb_ClusterName = ''main'', cb_BillingLocation = ''EU'', cb_MaxSpendUSD = ''5'',
     cb_LookbackWindow = [], cb_QueryInterval = ''1m''\<rparr>"

definition sample_status :: bn_status where
  "sample_status = \<lparr>st_ObservedGeneration = 0, st_ManagedNamespace = [], st_ExpiresAt = None,
     st_LastEnforcementAt = None, st_LastEnforcementOperation = [], st_LastCostQueryAt = None,
     st_LastObservedSpendUSD = [], st_Conditions = []\<rparr>"

definition sample_bn_of :: "bn_spec \<Rightarrow> budget_namespace" where
  "sample_bn_of s = \<lparr>bn_Name = ''budget'', bn_Namespace = ''default'', bn_Generation = 7,
     bn_CreationTimestamp = 0, bn_Spec = s, bn_Status = sample_status\<rparr>"

definition sample_state :: sample where
  "sample_state = \<lparr>sample_start = second, sample_bn = sample_bn_of sample_spec,
     sample_used = [(''pods'', 10)], sample_hard = [(''requests.cpu'', 4), (''pods'', 10)],
     sample_deployments = [sample_deployment], sample_stateful_sets = [sample_stateful_set],
     sample_spend = Fin 2\<rparr>"

text \<open>Equations that evaluate the sample.\<close>

lemma sample_env_simps [simp]:
  "env_clock (sample_env m) h = sample_start m + int (length h)"
  "env_parseQuantity (sample_env m) = parseInt32"
  "env_mustParse (sample_env m) s = (case parseInt32 s of Inl _ \<Rightarrow> None | Inr n \<Rightarrow> Some n)"
  "env_cmp (sample_env m) a b = sgn (a - b)"
  "env_isNotFound (sample_env m) e = (e = ApiError ''NotFound'')"
  "env_isConflict (sample_env m) e = (e = ApiError ''Conflict'')"
  "env_setStatusCondition (sample_env m) h cs c = put_condition cs c"
  "env_getBudgetNamespace (sample_env m) h nn = Inr (sample_bn m)"
  "env_listBudgetNamespaces (sample_env m) h = Inr [sample_bn m]"
  "env_createOrPatchNamespace (sample_env m) h n f = None"
  "env_createOrUpdateQuota (sample_env m) h q g = None"
  "env_createOrUpdateLimits (sample_env m) h l k = None"
  "env_getResourceQuota (sample_env m) h ns n' = Inr \<lparr>rq_Name = n', rq_Namespace = ns,
      rq_Hard = sample_hard m, rq_Used = sample_used m\<rparr>"
  "env_listDeployments (sample_env m) h ns = Inr (replay_deployments (sample_deployments m) h)"
  "env_patchDeployment (sample_env m) h d d' = None"
  "env_listStatefulSets (sample_env m) h ns = Inr (replay_stateful_sets (sample_stateful_sets m) h)"
  "env_patchStatefulSet (sample_env m) h x x' = None"
  "env_deleteNamespace (sample_env m) h n = None"
  "env_updateStatus (sample_env m) h bn = None"
  "env_bqRead (sample_env m) h bq = Inr 0"
  "env_bqNext (sample_env m) h i = BqRow (sample_spend m)"
  by (simp_all add: sample_env_def)

lemmas sample_defs =
  sample_deployment_def sample_stateful_set_def sample_spec_def sample_budget_def
  sample_status_def sample_bn_of_def sample_state_def

text \<open>The fields of the sample, so that the records need not be unfolded.\<close>

lemma sample_state_fields [simp]:
  "sample_start sample_state = second"
  "sample_bn sample_state = sample_bn_of sample_spec"
  "sample_used sample_state = [(''pods'', 10)]"
  "sample_hard sample_state = [(''requests.cpu'', 4), (''pods'', 10)]"
  "sample_deployments sample_state = [sample_deployment]"
  "sample_stateful_sets sample_state = [sample_stateful_set]"
  "sample_spend sample_state = Fin 2"
  by (simp_all add: sample_state_def)

lemma sample_bn_fields [simp]:
  "bn_Name (sample_bn_of s) = ''budget''"
  "bn_Namespace (sample_bn_of s) = ''default''"
  "bn_Generation (sample_bn_of s) = 7"
  "bn_CreationTimestamp (sample_bn_of s) = 0"
  "bn_Spec (sample_bn_of s) = s"
  "bn_Status (sample_bn_of s) = sample_status"
  by (simp_all add: sample_bn_of_def)

lemma sample_spec_fields [simp]:
  "spec_NamespaceName sample_spec = ''team''"
  "spec_TTL sample_spec = ''1h''"
  "spec_CostBudget sample_spec = None"
  "spec_Enforcement sample_spec = \<lparr>enf_Enabled = True, enf_Action = ''ScaleToZero'',
     enf_RestoreOnRecovery = True, enf_EnforcementCooldown = ''2m''\<rparr>"
  by (simp_all add: sample_spec_def)

text \<open>Evaluation of the library functions on closed strings.\<close>

lemmas digit_eval = is_digit_def digit_val_def digit_char_def byte_def nat_of_digits_def

lemmas parse_int_eval = parseInt32_def split_sign_def digit_eval

lemmas format_int_eval = format_int_def digits_of.simps digit_eval

lemmas parse_duration_eval =
  parseDuration_def split_sign_def duration_loop.simps duration_segment_def fraction_part_def
  unit_part_def two63_def two64_def is_unit_char_def unit_of_def digit_eval

end
