(* ===== verification/Workload_Scale.thy ===== *)
theory Workload_Scale
  imports Workload_Contract Sample_Environment
begin

text \<open>
  \<open>internal/controller/workload_scale.go\<close>: scaling the Deployments and StatefulSets of a
  namespace to zero, with their replica counts saved in an annotation.

  The body of each loop, up to its patch, is a function of one object that returns the
  changed object, or \<open>None\<close> for \<open>continue\<close>. The loops return Go's pair of a count and an
  error. The log line after each patch, the only use of the parameter \<open>reason\<close>, is left
  out. The lemmas come from the locales of \<open>Workload_Contract\<close>, interpreted here.
\<close>

section \<open>Scaling Deployments to zero\<close>

definition scaleDeployment :: "deployment \<Rightarrow> deployment option" where
  "scaleDeployment d =
     (if isExempt (dep_TemplateLabels d) then None
      else
        let replicas = (case dep_Replicas d of None \<Rightarrow> 1 | Some r \<Rightarrow> r) in
        if replicas = 0 then None
        else
          let a = map_made (dep_Annotations d);
              a' = (if a preScaleReplicasAnnotation = None
                    then a(preScaleReplicasAnnotation \<mapsto> format_int (sint replicas)) else a)
          in Some (d\<lparr>dep_Annotations := Some a', dep_Replicas := Some 0\<rparr>))"

fun scaleDeploymentsLoop ::
  "'q env \<Rightarrow> string \<Rightarrow> deployment list \<Rightarrow> int \<Rightarrow> 'q hist \<Rightarrow> (int \<times> go_error option) \<times> 'q hist" where
  "scaleDeploymentsLoop env ns [] n h = ((n, None), h)"
| "scaleDeploymentsLoop env ns (d # ds) n h =
     (case scaleDeployment d of
        None \<Rightarrow> scaleDeploymentsLoop env ns ds n h
      | Some d' \<Rightarrow>
          (case patchDeployment env d d' h of
             (Some err, h1) \<Rightarrow>
               ((n, Some (Wrapf ''scale Deployment %q/%s to zero: %w'' [FStr ns, FStr (dep_Name d')] err)), h1)
           | (None, h1) \<Rightarrow> scaleDeploymentsLoop env ns ds (n + 1) h1))"

definition scaleDeploymentsToZero ::
  "'q env \<Rightarrow> string \<Rightarrow> 'q hist \<Rightarrow> (int \<times> go_error option) \<times> 'q hist" where
  "scaleDeploymentsToZero env ns h =
     (case listDeployments env ns h of
        (Inl err, h1) \<Rightarrow> ((0, Some (Wrapf ''list Deployments in namespace %q: %w'' [FStr ns] err)), h1)
      | (Inr items, h1) \<Rightarrow> scaleDeploymentsLoop env ns items 0 h1)"

section \<open>Scaling StatefulSets to zero\<close>

definition scaleStatefulSet :: "stateful_set \<Rightarrow> stateful_set option" where
  "scaleStatefulSet s =
     (if isExempt (sts_TemplateLabels s) then None
      else
        let replicas = (case sts_Replicas s of None \<Rightarrow> 1 | Some r \<Rightarrow> r) in
        if replicas = 0 then None
        else
          let a = map_made (sts_Annotations s);
              a' = (if a preScaleReplicasAnnotation = None
                    then a(preScaleReplicasAnnotation \<mapsto> format_int (sint replicas)) else a)
          in Some (s\<lparr>sts_Annotations := Some a', sts_Replicas := Some 0\<rparr>))"

fun scaleStatefulSetsLoop ::
  "'q env \<Rightarrow> string \<Rightarrow> stateful_set list \<Rightarrow> int \<Rightarrow> 'q hist \<Rightarrow> (int \<times> go_error option) \<times> 'q hist" where
  "scaleStatefulSetsLoop env ns [] n h = ((n, None), h)"
| "scaleStatefulSetsLoop env ns (s # ss) n h =
     (case scaleStatefulSet s of
        None \<Rightarrow> scaleStatefulSetsLoop env ns ss n h
      | Some s' \<Rightarrow>
          (case patchStatefulSet env s s' h of
             (Some err, h1) \<Rightarrow>
               ((n, Some (Wrapf ''scale StatefulSet %q/%s to zero: %w'' [FStr ns, FStr (sts_Name s')] err)), h1)
           | (None, h1) \<Rightarrow> scaleStatefulSetsLoop env ns ss (n + 1) h1))"

definition scaleStatefulSetsToZero ::
  "'q env \<Rightarrow> string \<Rightarrow> 'q hist \<Rightarrow> (int \<times> go_error option) \<times> 'q hist" where
  "scaleStatefulSetsToZero env ns h =
     (case listStatefulSets env ns h of
        (Inl err, h1) \<Rightarrow> ((0, Some (Wrapf ''list StatefulSets in namespace %q: %w'' [FStr ns] err)), h1)
      | (Inr items, h1) \<Rightarrow> scaleStatefulSetsLoop env ns items 0 h1)"

definition scaleWorkloadsToZero ::
  "'q env \<Rightarrow> string \<Rightarrow> 'q hist \<Rightarrow> (int \<times> go_error option) \<times> 'q hist" where
  "scaleWorkloadsToZero env ns h =
     (case scaleDeploymentsToZero env ns h of
        ((n1, Some err), h1) \<Rightarrow> ((n1, Some err), h1)
      | ((n1, None), h1) \<Rightarrow>
          (case scaleStatefulSetsToZero env ns h1 of ((n2, err), h2) \<Rightarrow> ((n1 + n2, err), h2)))"

section \<open>The interfaces hold\<close>

abbreviation dep_upd :: "string go_map \<Rightarrow> int32 option \<Rightarrow> deployment \<Rightarrow> deployment" where
  "dep_upd a r d \<equiv> d\<lparr>dep_Annotations := a, dep_Replicas := r\<rparr>"

abbreviation sts_upd :: "string go_map \<Rightarrow> int32 option \<Rightarrow> stateful_set \<Rightarrow> stateful_set" where
  "sts_upd a r s \<equiv> s\<lparr>sts_Annotations := a, sts_Replicas := r\<rparr>"

interpretation dep: scale_op dep_Annotations dep_Replicas dep_TemplateLabels dep_upd scaleDeployment
  by unfold_locales (auto simp: scaleDeployment_def Let_def replicas_or_def
      split: option.splits if_splits)

interpretation sts: scale_op sts_Annotations sts_Replicas sts_TemplateLabels sts_upd scaleStatefulSet
  by unfold_locales (auto simp: scaleStatefulSet_def Let_def replicas_or_def
      split: option.splits if_splits)

definition scaleDeploymentError :: "string \<Rightarrow> deployment \<Rightarrow> go_error \<Rightarrow> go_error" where
  "scaleDeploymentError ns d err = Wrapf ''scale Deployment %q/%s to zero: %w'' [FStr ns, FStr (dep_Name d)] err"

definition scaleStatefulSetError :: "string \<Rightarrow> stateful_set \<Rightarrow> go_error \<Rightarrow> go_error" where
  "scaleStatefulSetError ns s err = Wrapf ''scale StatefulSet %q/%s to zero: %w'' [FStr ns, FStr (sts_Name s)] err"

definition listDeploymentsError :: "string \<Rightarrow> go_error \<Rightarrow> go_error" where
  "listDeploymentsError ns err = Wrapf ''list Deployments in namespace %q: %w'' [FStr ns] err"

definition listStatefulSetsError :: "string \<Rightarrow> go_error \<Rightarrow> go_error" where
  "listStatefulSetsError ns err = Wrapf ''list StatefulSets in namespace %q: %w'' [FStr ns] err"

interpretation sd: patch_pass scaleDeployment "env_patchDeployment env" CPatchDeployment
    "scaleDeploymentError ns" "scaleDeploymentsLoop env ns"
    "\<lambda>h. env_listDeployments env h ns" "CListDeployments ns" "listDeploymentsError ns"
    "scaleDeploymentsToZero env ns" for env ns
  by unfold_locales
    (simp_all add: patchDeployment_def scaleDeploymentError_def scaleDeploymentsToZero_def
      listDeployments_def listDeploymentsError_def)

interpretation ss: patch_pass scaleStatefulSet "env_patchStatefulSet env" CPatchStatefulSet
    "scaleStatefulSetError ns" "scaleStatefulSetsLoop env ns"
    "\<lambda>h. env_listStatefulSets env h ns" "CListStatefulSets ns" "listStatefulSetsError ns"
    "scaleStatefulSetsToZero env ns" for env ns
  by unfold_locales
    (simp_all add: patchStatefulSet_def scaleStatefulSetError_def scaleStatefulSetsToZero_def
      listStatefulSets_def listStatefulSetsError_def)

section \<open>What a run calls\<close>

text \<open>The calls of scaling: the two lists, and patches that are the change of a loop body.\<close>

fun scale_call :: "'q call \<Rightarrow> bool" where
  "scale_call (CListDeployments ns) = True"
| "scale_call (CListStatefulSets ns) = True"
| "scale_call (CPatchDeployment d d') = (scaleDeployment d = Some d')"
| "scale_call (CPatchStatefulSet s s') = (scaleStatefulSet s = Some s')"
| "scale_call _ = False"

abbreviation scale_deployment_calls :: "deployment list \<Rightarrow> 'q call list" where
  "scale_deployment_calls ds \<equiv> map (\<lambda>(d, d'). CPatchDeployment d d') (plan scaleDeployment ds)"

abbreviation scale_stateful_set_calls :: "stateful_set list \<Rightarrow> 'q call list" where
  "scale_stateful_set_calls ss \<equiv> map (\<lambda>(s, s'). CPatchStatefulSet s s') (plan scaleStatefulSet ss)"

text \<open>The two passes, one after the other.\<close>

lemma scaleWorkloads_cases:
  "scaleDeploymentsToZero env ns h = ((n1, Some e), h1) \<Longrightarrow> scaleWorkloadsToZero env ns h = ((n1, Some e), h1)"
  "scaleDeploymentsToZero env ns h = ((n1, None), h1) \<Longrightarrow>
   scaleStatefulSetsToZero env ns h1 = ((n2, e2), h2) \<Longrightarrow>
   scaleWorkloadsToZero env ns h = ((n1 + n2, e2), h2)"
  by (simp_all add: scaleWorkloadsToZero_def)

lemma scaleWorkloads_grows [grow_intros]: "grows scale_call h (snd (scaleWorkloadsToZero env ns h))"
proof -
  obtain n e h1 where d: "scaleDeploymentsToZero env ns h = ((n, e), h1)" by (metis surj_pair)
  have g1: "grows scale_call h h1" using sd.run_grows [of scale_call ns h env] d by simp
  obtain n2 e2 h2 where s: "scaleStatefulSetsToZero env ns h1 = ((n2, e2), h2)" by (metis surj_pair)
  have g2: "grows scale_call h1 h2" using ss.run_grows [of scale_call ns h1 env] s by simp
  show ?thesis
    using g1 grows_trans [OF g1 g2] by (cases e) (simp_all add: scaleWorkloads_cases d s)
qed

lemma scaleWorkloads_succeeds:
  assumes "env_listDeployments env h ns = Inr ds"
    and "env_listStatefulSets env (h @ CListDeployments ns # scale_deployment_calls ds) ns = Inr ss"
    and "\<And>h d d'. env_patchDeployment env h d d' = None"
    and "\<And>h s s'. env_patchStatefulSet env h s s' = None"
  shows "scaleWorkloadsToZero env ns h =
    ((int (length (plan scaleDeployment ds) + length (plan scaleStatefulSet ss)), None),
     h @ CListDeployments ns # scale_deployment_calls ds
       @ CListStatefulSets ns # scale_stateful_set_calls ss)"
  using sd.run_succeeds [of env h ns ds] ss.run_succeeds [of env _ ns ss] assms
  by (simp add: scaleWorkloads_cases)

text \<open>A pass without an error reports the number of its patches, and all succeeded.\<close>

lemma scaleWorkloads_ok:
  assumes "scaleWorkloadsToZero env ns h = ((n, None), h')"
  shows "\<exists>ds ss. n = int (length (plan scaleDeployment ds) + length (plan scaleStatefulSet ss)) \<and>
    h' = h @ CListDeployments ns # scale_deployment_calls ds @ CListStatefulSets ns # scale_stateful_set_calls ss"
proof -
  obtain n1 e1 h1 where d: "scaleDeploymentsToZero env ns h = ((n1, e1), h1)" by (metis surj_pair)
  with assms have d1: "scaleDeploymentsToZero env ns h = ((n1, None), h1)"
    by (cases e1) (auto simp: scaleWorkloads_cases)
  obtain n2 e2 h2 where s: "scaleStatefulSetsToZero env ns h1 = ((n2, e2), h2)" by (metis surj_pair)
  with assms d1 have s1: "scaleStatefulSetsToZero env ns h1 = ((n2, None), h')" "n = n1 + n2"
    by (simp_all add: scaleWorkloads_cases)
  from sd.run_ok [OF d1] ss.run_ok [OF s1(1)] s1(2) show ?thesis by force
qed

lemma filter_patch_plan [simp]:
  "filter is_patch (map (\<lambda>(d, d'). CPatchDeployment d d') ps) = map (\<lambda>(d, d'). CPatchDeployment d d') ps"
  "filter is_patch (map (\<lambda>(s, s'). CPatchStatefulSet s s') qs) = map (\<lambda>(s, s'). CPatchStatefulSet s s') qs"
  by (auto simp: filter_id_conv)

lemma scaleWorkloads_count:
  "scaleWorkloadsToZero env ns h = ((n, None), h') \<Longrightarrow> n = int (length (filter is_patch (drop (length h) h')))"
  by (drule scaleWorkloads_ok) auto

section \<open>Properties\<close>

text \<open>
  C14: Scaling a workload touches nothing but its replica count and the one annotation. For
  every server and history, each call that \<open>scaleWorkloadsToZero\<close> makes is one of the two
  lists or a patch whose object is not exempt and does not already stand at zero; the patched
  object has zero replicas, the count to come back to in the annotation (the saved one when
  there is one, else the current count in decimal), and is otherwise the object that was read.
\<close>

theorem scale_patches_only_running_workloads:
  "\<exists>cs. snd (scaleWorkloadsToZero env ns h) = h @ cs \<and>
     list_all (\<lambda>c. case c of
        CListDeployments n \<Rightarrow> True
      | CListStatefulSets n \<Rightarrow> True
      | CPatchDeployment d d' \<Rightarrow>
          \<not> isExempt (dep_TemplateLabels d) \<and> dep_Replicas d \<noteq> Some 0 \<and>
          d' = d\<lparr>dep_Annotations := dep_Annotations d', dep_Replicas := Some 0\<rparr> \<and>
          (\<forall>k. map_lookup (dep_Annotations d') k =
             (if k = preScaleReplicasAnnotation \<and> map_lookup (dep_Annotations d) k = None
              then Some (format_int (sint (replicas_or 1 (dep_Replicas d))))
              else map_lookup (dep_Annotations d) k))
      | CPatchStatefulSet s s' \<Rightarrow>
          \<not> isExempt (sts_TemplateLabels s) \<and> sts_Replicas s \<noteq> Some 0 \<and>
          s' = s\<lparr>sts_Annotations := sts_Annotations s', sts_Replicas := Some 0\<rparr> \<and>
          (\<forall>k. map_lookup (sts_Annotations s') k =
             (if k = preScaleReplicasAnnotation \<and> map_lookup (sts_Annotations s) k = None
              then Some (format_int (sint (replicas_or 1 (sts_Replicas s))))
              else map_lookup (sts_Annotations s) k))
      | _ \<Rightarrow> False) cs"
  (is "\<exists>cs. _ = h @ cs \<and> list_all ?P cs")
proof -
  obtain cs where cs: "snd (scaleWorkloadsToZero env ns h) = h @ cs" "list_all scale_call cs"
    using scaleWorkloads_grows [of h env ns] by (auto simp: grows_def)
  have "?P c" if "scale_call c" for c
    using that
    by (cases c)
       (auto dest!: dep.scaled_object sts.scaled_object split: option.splits)
  with cs show ?thesis by (auto simp: list_all_iff)
qed

text \<open>
  The specification of a scale-down: the workloads that are not exempt and do not stand at zero
  (not set is one replica), each with its count saved, unless one is saved already, and no replicas.
\<close>

definition to_scale :: "string go_map \<Rightarrow> int32 option \<Rightarrow> bool" where
  "to_scale labels replicas \<longleftrightarrow>
     map_lookup labels ''ealebed.github.io/exempt'' \<noteq> Some ''true'' \<and> replicas \<noteq> Some 0"

definition saving :: "string go_map \<Rightarrow> int32 option \<Rightarrow> string go_map" where
  "saving annotations replicas = Some ((map_made annotations)(''finops.ealebed.github.io/pre-scale-replicas'' \<mapsto>
     (case map_lookup annotations ''finops.ealebed.github.io/pre-scale-replicas'' of
        None \<Rightarrow> format_int (sint (replicas_or 1 replicas)) | Some v \<Rightarrow> v)))"

definition deployment_patches :: "deployment list \<Rightarrow> 'q call list" where
  "deployment_patches ds =
     map (\<lambda>d. CPatchDeployment d (d\<lparr>dep_Annotations := saving (dep_Annotations d) (dep_Replicas d), dep_Replicas := Some 0\<rparr>))
       (filter (\<lambda>d. to_scale (dep_TemplateLabels d) (dep_Replicas d)) ds)"

definition stateful_set_patches :: "stateful_set list \<Rightarrow> 'q call list" where
  "stateful_set_patches ss =
     map (\<lambda>s. CPatchStatefulSet s (s\<lparr>sts_Annotations := saving (sts_Annotations s) (sts_Replicas s), sts_Replicas := Some 0\<rparr>))
       (filter (\<lambda>s. to_scale (sts_TemplateLabels s) (sts_Replicas s)) ss)"

lemma to_scale_iff: "to_scale labels replicas \<longleftrightarrow> \<not> isExempt labels \<and> replicas \<noteq> Some 0"
  by (simp add: to_scale_def isExempt_def costguardExemptLabel_def costguardExemptLabelValue_def)

lemma patches_plan:
  "scale_deployment_calls ds = deployment_patches ds" "scale_stateful_set_calls ss = stateful_set_patches ss"
  unfolding deployment_patches_def stateful_set_patches_def dep.plan_scale sts.plan_scale to_scale_iff saving_def
    preScaleReplicasAnnotation_def
  by (simp_all only: map_map comp_def prod.case)

lemma patches_length:
  "length (deployment_patches ds) = length (filter (\<lambda>d. to_scale (dep_TemplateLabels d) (dep_Replicas d)) ds)"
  "length (stateful_set_patches ss) = length (filter (\<lambda>s. to_scale (sts_TemplateLabels s) (sts_Replicas s)) ss)"
  by (simp_all add: deployment_patches_def stateful_set_patches_def)

text \<open>
  C26: A complete scale-down. When both lists succeed and no patch is refused,
  \<open>scaleWorkloadsToZero\<close> returns no error and the number of workloads that do not carry the exempt
  label with the value true and do not stand at zero, and it has made exactly these calls, in this
  order: list the Deployments, patch each such Deployment once in list order to zero replicas with
  its count saved, list the StatefulSets, patch each of them in the same way.
\<close>

theorem scaleWorkloadsToZero_complete:
  assumes "env_listDeployments env h ns = Inr ds"
    and "env_listStatefulSets env (h @ CListDeployments ns # deployment_patches ds) ns = Inr ss"
    and "\<And>h d d'. env_patchDeployment env h d d' = None"
    and "\<And>h s s'. env_patchStatefulSet env h s s' = None"
  shows "scaleWorkloadsToZero env ns h =
    ((int (length (filter (\<lambda>d. to_scale (dep_TemplateLabels d) (dep_Replicas d)) ds) +
           length (filter (\<lambda>s. to_scale (sts_TemplateLabels s) (sts_Replicas s)) ss)), None),
     h @ CListDeployments ns # deployment_patches ds @ CListStatefulSets ns # stateful_set_patches ss)"
proof -
  have "length (plan scaleDeployment ds) = length (filter (\<lambda>d. to_scale (dep_TemplateLabels d) (dep_Replicas d)) ds)"
    "length (plan scaleStatefulSet ss) = length (filter (\<lambda>s. to_scale (sts_TemplateLabels s) (sts_Replicas s)) ss)"
    by (simp_all add: dep.plan_scale sts.plan_scale to_scale_iff)
  with scaleWorkloads_succeeds [of env h ns ds ss] assms show ?thesis by (simp add: patches_plan)
qed

theorem scaleWorkloadsToZero_complete_witness:
  "fst (scaleWorkloadsToZero (sample_env sample_state) ''team'' []) = (2, None)"
proof -
  have r: "replay_stateful_sets ss (deployment_patches ds) = ss" for ss ds
    unfolding deployment_patches_def by (induction ds) simp_all
  show ?thesis
    using scaleWorkloadsToZero_complete [of "sample_env sample_state" "[]" "''team''"
        "[sample_deployment]" "[sample_stateful_set]"]
    by (simp add: r) (simp add: to_scale_def sample_deployment_def sample_stateful_set_def)
qed

text \<open>
  C27: Scaling down is idempotent. When the server's lists show the objects as an earlier
  scale-down left them, a second one makes only the two list calls and reports zero.
\<close>

theorem second_scale_down_patches_nothing:
  assumes "env_listDeployments env h ns = Inr (map (patched scaleDeployment) ds)"
    and "env_listStatefulSets env (h @ [CListDeployments ns]) ns = Inr (map (patched scaleStatefulSet) ss)"
  shows "scaleWorkloadsToZero env ns h = ((0, None), h @ [CListDeployments ns, CListStatefulSets ns])"
  using sd.run_succeeds [OF assms(1)] ss.run_succeeds [OF assms(2)]
  by (simp add: scaleWorkloads_cases dep.plan_scale_again sts.plan_scale_again)

theorem second_scale_down_patches_nothing_witness:
  "fst (scaleWorkloadsToZero
     (sample_env (sample_state\<lparr>sample_deployments := map (patched scaleDeployment) [sample_deployment],
        sample_stateful_sets := map (patched scaleStatefulSet) [sample_stateful_set]\<rparr>)) ''team'' []) =
   (0, None)"
  by (subst second_scale_down_patches_nothing [of _ _ _ "[sample_deployment]" "[sample_stateful_set]"])
     simp_all

text \<open>The answer to a call was not an error.\<close>

fun went_well :: "'q env \<Rightarrow> 'q hist \<Rightarrow> 'q call \<Rightarrow> bool" where
  "went_well env h (CListDeployments ns) = is_ok (env_listDeployments env h ns)"
| "went_well env h (CListStatefulSets ns) = is_ok (env_listStatefulSets env h ns)"
| "went_well env h (CPatchDeployment d d') = (env_patchDeployment env h d d' = None)"
| "went_well env h (CPatchStatefulSet s s') = (env_patchStatefulSet env h s s' = None)"
| "went_well env h c = True"

lemma accepted_went_well:
  "each_call (sd.accepted env) h cs \<Longrightarrow> each_call (went_well env) h cs"
  "each_call (ss.accepted env) h cs \<Longrightarrow> each_call (went_well env) h cs"
  by (erule each_call_mono; auto)+

text \<open>Where a pass stops.\<close>

lemma scaleDeployments_error:
  assumes "scaleDeploymentsToZero env ns h = ((n, Some err), h')"
  obtains (unlisted) e where "env_listDeployments env h ns = Inl e" "n = 0"
      "err = listDeploymentsError ns e" "h' = h @ [CListDeployments ns]"
  | (refused) ds cs d d' rest e where "env_listDeployments env h ns = Inr ds"
      "deployment_patches ds = cs @ CPatchDeployment d d' # rest" "n = int (length cs)" "list_all is_patch cs"
      "err = scaleDeploymentError ns d' e" "env_patchDeployment env (h @ CListDeployments ns # cs) d d' = Some e"
      "h' = h @ CListDeployments ns # cs @ [CPatchDeployment d d']"
      "each_call (went_well env) (h @ [CListDeployments ns]) cs"
proof (cases rule: sd.run_error_at [OF assms])
  case (2 ds ps d d' qs e)
  then show ?thesis
    by (intro refused [of ds "map (\<lambda>(d, d'). CPatchDeployment d d') ps" d d'
          "map (\<lambda>(d, d'). CPatchDeployment d d') qs" e])
      (auto simp: patches_plan [symmetric] list_all_iff accepted_went_well)
qed (rule unlisted)

lemma scaleStatefulSets_error:
  assumes "scaleStatefulSetsToZero env ns h = ((n, Some err), h')"
  obtains (unlisted) e where "env_listStatefulSets env h ns = Inl e" "n = 0"
      "err = listStatefulSetsError ns e" "h' = h @ [CListStatefulSets ns]"
  | (refused) ss cs s s' rest e where "env_listStatefulSets env h ns = Inr ss"
      "stateful_set_patches ss = cs @ CPatchStatefulSet s s' # rest" "n = int (length cs)" "list_all is_patch cs"
      "err = scaleStatefulSetError ns s' e" "env_patchStatefulSet env (h @ CListStatefulSets ns # cs) s s' = Some e"
      "h' = h @ CListStatefulSets ns # cs @ [CPatchStatefulSet s s']"
      "each_call (went_well env) (h @ [CListStatefulSets ns]) cs"
proof (cases rule: ss.run_error_at [OF assms])
  case (2 ss ps s s' qs e)
  then show ?thesis
    by (intro refused [of ss "map (\<lambda>(s, s'). CPatchStatefulSet s s') ps" s s'
          "map (\<lambda>(s, s'). CPatchStatefulSet s s') qs" e])
      (auto simp: patches_plan [symmetric] list_all_iff accepted_went_well)
qed (rule unlisted)

lemma scaleDeployments_done:
  fixes env :: "'q env"
  assumes "scaleDeploymentsToZero env ns h = ((n, None), h')"
  obtains ds where "env_listDeployments env h ns = Inr ds" "n = int (length (deployment_patches ds :: 'q call list))"
    "h' = h @ CListDeployments ns # deployment_patches ds" "list_all is_patch (deployment_patches ds :: 'q call list)"
    "each_call (went_well env) (h @ [CListDeployments ns]) (deployment_patches ds)"
proof -
  obtain ds where ds: "env_listDeployments env h ns = Inr ds" "n = int (length (plan scaleDeployment ds))"
      "h' = h @ CListDeployments ns # scale_deployment_calls ds"
      "each_call (went_well env) (h @ [CListDeployments ns]) (scale_deployment_calls ds)"
    using sd.run_ok_accepted [OF assms] accepted_went_well(1) by blast
  have "length (plan scaleDeployment ds) = length (deployment_patches ds :: 'q call list)"
    by (simp add: patches_length dep.plan_scale to_scale_iff)
  moreover have "list_all is_patch (deployment_patches ds :: 'q call list)"
    by (simp add: deployment_patches_def list_all_iff)
  ultimately show ?thesis using that ds by (simp add: patches_plan)
qed

text \<open>
  C25: A scale-down that fails stops at the failure. When \<open>scaleWorkloadsToZero\<close> returns an error, the
  last call it made is the one the error comes from: a list that failed, or the patch of a workload
  that the server refused, and the error wraps the server's. All calls before it were answered
  without an error, and the count is the number of patches among them. Together they are a beginning
  of the complete scale-down: no call is repeated, left out or undone.
\<close>

theorem scaleWorkloadsToZero_stops_at_error:
  assumes "scaleWorkloadsToZero env ns h = ((n, Some err), h')"
  shows "\<exists>cs c e. h' = h @ cs @ [c] \<and> n = int (length (filter is_patch cs)) \<and>
    each_call (went_well env) h cs \<and>
    (case c of
       CListDeployments m \<Rightarrow> m = ns \<and> env_listDeployments env (h @ cs) ns = Inl e \<and>
         err = Wrapf ''list Deployments in namespace %q: %w'' [FStr ns] e
     | CListStatefulSets m \<Rightarrow> m = ns \<and> env_listStatefulSets env (h @ cs) ns = Inl e \<and>
         err = Wrapf ''list StatefulSets in namespace %q: %w'' [FStr ns] e
     | CPatchDeployment d d' \<Rightarrow> env_patchDeployment env (h @ cs) d d' = Some e \<and>
         err = Wrapf ''scale Deployment %q/%s to zero: %w'' [FStr ns, FStr (dep_Name d')] e
     | CPatchStatefulSet s s' \<Rightarrow> env_patchStatefulSet env (h @ cs) s s' = Some e \<and>
         err = Wrapf ''scale StatefulSet %q/%s to zero: %w'' [FStr ns, FStr (sts_Name s')] e
     | _ \<Rightarrow> False) \<and>
    (\<exists>ds ss rest. CListDeployments ns # deployment_patches ds @ CListStatefulSets ns # stateful_set_patches ss =
         cs @ c # rest \<and>
       (if cs = [] then ds = [] else env_listDeployments env h ns = Inr ds) \<and>
       (if CListStatefulSets ns \<in> set cs
        then env_listStatefulSets env (h @ CListDeployments ns # deployment_patches ds) ns = Inr ss else ss = []))"
proof -
  note errors = listDeploymentsError_def listStatefulSetsError_def scaleDeploymentError_def
    scaleStatefulSetError_def
  have patches: "filter is_patch cs = cs" "CListStatefulSets ns \<notin> set cs" if "list_all is_patch cs" for cs :: "'a call list"
    using that by (auto simp: list_all_iff filter_id_conv)
  obtain n1 e1 h1 where d: "scaleDeploymentsToZero env ns h = ((n1, e1), h1)" by (metis surj_pair)
  show ?thesis
  proof (cases e1)
    case (Some err1)
    with assms d have run: "scaleDeploymentsToZero env ns h = ((n, Some err), h')"
      by (simp add: scaleWorkloads_cases)
    show ?thesis
    proof (cases rule: scaleDeployments_error [OF run])
      case (1 e)
      then show ?thesis
        by (intro exI [of _ "[]"] exI [of _ "CListDeployments ns"] exI [of _ e])
          (auto simp: errors deployment_patches_def stateful_set_patches_def)
    next
      case (2 ds cs w w' rest e)
      then show ?thesis
        by (intro exI [of _ "CListDeployments ns # cs"] exI [of _ "CPatchDeployment w w'"] exI [of _ e])
          (auto simp: errors patches intro!: exI [of _ ds] exI [of _ "[]"])
    qed
  next
    case None
    from d [unfolded None] obtain ds where ds: "env_listDeployments env h ns = Inr ds"
        "n1 = int (length (deployment_patches ds :: 'a call list))" "h1 = h @ CListDeployments ns # deployment_patches ds"
        "list_all is_patch (deployment_patches ds :: 'a call list)"
        "each_call (went_well env) (h @ [CListDeployments ns]) (deployment_patches ds)"
      by (rule scaleDeployments_done)
    obtain n2 e2 h2 where s: "scaleStatefulSetsToZero env ns h1 = ((n2, e2), h2)" by (metis surj_pair)
    from scaleWorkloads_cases(2) [OF d [unfolded None] s] assms
    have e: "e2 = Some err" "h2 = h'" "n = n1 + n2" by simp_all
    show ?thesis
    proof (cases rule: scaleStatefulSets_error [OF s [unfolded e]])
      case (1 e)
      with ds e show ?thesis
        by (intro exI [of _ "CListDeployments ns # deployment_patches ds"] exI [of _ "CListStatefulSets ns"] exI [of _ e])
          (auto simp: errors patches intro!: exI [of _ ds] exI [of _ "[]"])
    next
      case (2 ss cs w w' rest e)
      with ds e show ?thesis
        by (intro exI [of _ "CListDeployments ns # deployment_patches ds @ CListStatefulSets ns # cs"]
            exI [of _ "CPatchStatefulSet w w'"] exI [of _ e])
          (auto simp: errors patches intro!: exI [of _ ds] exI [of _ ss])
    qed
  qed
qed

theorem scaleWorkloadsToZero_stops_at_error_witness:
  "let env = sample_env sample_state\<lparr>env_listStatefulSets := \<lambda>h ns. Inl (ApiError ''down'')\<rparr>;
       r = scaleWorkloadsToZero env ''team'' []
   in fst (fst r) = 1 \<and> snd (fst r) \<noteq> None \<and>
      (\<exists>cs. snd r = cs @ [CListStatefulSets ''team''] \<and> length (filter is_patch cs) = 1)"
proof -
  let ?env = "sample_env sample_state\<lparr>env_listStatefulSets := \<lambda>h ns. Inl (ApiError ''down'')\<rparr>"
  have "scaleDeployment sample_deployment \<noteq> None"
    by (simp add: dep.scale_None_iff sample_defs isExempt_def)
  then obtain d where d: "scaleDeployment sample_deployment = Some d" by auto
  have run: "scaleWorkloadsToZero ?env ''team'' [] =
    ((1, Some (Wrapf ''list StatefulSets in namespace %q: %w'' [FStr ''team''] (ApiError ''down''))),
     [CListDeployments ''team'', CPatchDeployment sample_deployment d, CListStatefulSets ''team''])"
    by (simp add: scaleWorkloadsToZero_def scaleDeploymentsToZero_def scaleStatefulSetsToZero_def
        call_defs d sample_state_def)
  from scaleWorkloadsToZero_stops_at_error [OF run] obtain cs c where
    "[CListDeployments ''team'', CPatchDeployment sample_deployment d, CListStatefulSets ''team''] =
       [] @ cs @ [c :: int call]"
    "1 = int (length (filter is_patch cs))" by blast
  then show ?thesis by (auto simp: run Let_def)
qed

end
