(* ===== verification/Enforcement.thy ===== *)
theory Enforcement
  imports Workload_Scale
begin

text \<open>
  \<open>internal/controller/budgetnamespace_enforcement.go\<close>: the cooldown between a
  scale-to-zero and a restore, finding workloads that wait for a restore, and restoring them
  from their annotation. Loop bodies and loops are modelled as in \<open>Workload_Scale\<close>.
\<close>

section \<open>The cooldown\<close>

definition enforcementOpScaleToZero :: string where
  "enforcementOpScaleToZero = ''ScaleToZero''"

definition enforcementOpRestore :: string where
  "enforcementOpRestore = ''Restore''"

definition defaultEnforcementCooldown :: duration where
  "defaultEnforcementCooldown = 2 * minute"

definition enforcementCooldown :: "bn_spec \<Rightarrow> duration go_result" where
  "enforcementCooldown spec =
     (let s = enf_EnforcementCooldown (spec_Enforcement spec) in
      if s = [] then Inr defaultEnforcementCooldown
      else case parseDuration s of
          Inl err \<Rightarrow> Inl (Wrapf ''parse spec.enforcement.enforcementCooldown %q: %w'' [FStr s] err)
        | Inr d \<Rightarrow> Inr d)"

definition restoreOnRecoveryEnabled :: "bn_spec \<Rightarrow> bool" where
  "restoreOnRecoveryEnabled spec = enf_RestoreOnRecovery (spec_Enforcement spec)"

definition canRestoreAfterScaleDown :: "string \<Rightarrow> go_time option \<Rightarrow> duration \<Rightarrow> go_time \<Rightarrow> bool" where
  "canRestoreAfterScaleDown lastOp lastAt cooldown t =
     (if lastOp \<noteq> enforcementOpScaleToZero then True
      else case lastAt of None \<Rightarrow> True
        | Some tm \<Rightarrow> \<not> time_before t (time_add tm cooldown))"

section \<open>Workloads that wait for a restore\<close>

definition deploymentPending :: "deployment \<Rightarrow> bool" where
  "deploymentPending d =
     (if isExempt (dep_TemplateLabels d) then False
      else
        let replicas = (case dep_Replicas d of None \<Rightarrow> 0 | Some r \<Rightarrow> r) in
        if replicas \<noteq> 0 then False
        else if dep_Annotations d = None then False
        else map_lookup (dep_Annotations d) preScaleReplicasAnnotation \<noteq> None)"

definition deploymentsPendingRestore :: "'q env \<Rightarrow> string \<Rightarrow> 'q hist \<Rightarrow> bool go_result \<times> 'q hist" where
  "deploymentsPendingRestore env ns h =
     (case listDeployments env ns h of
        (Inl err, h1) \<Rightarrow> (Inl (Wrapf ''list Deployments in namespace %q: %w'' [FStr ns] err), h1)
      | (Inr items, h1) \<Rightarrow> (Inr (list_ex deploymentPending items), h1))"

definition statefulSetPending :: "stateful_set \<Rightarrow> bool" where
  "statefulSetPending s =
     (if isExempt (sts_TemplateLabels s) then False
      else
        let replicas = (case sts_Replicas s of None \<Rightarrow> 0 | Some r \<Rightarrow> r) in
        if replicas \<noteq> 0 then False
        else if sts_Annotations s = None then False
        else map_lookup (sts_Annotations s) preScaleReplicasAnnotation \<noteq> None)"

definition statefulSetsPendingRestore :: "'q env \<Rightarrow> string \<Rightarrow> 'q hist \<Rightarrow> bool go_result \<times> 'q hist" where
  "statefulSetsPendingRestore env ns h =
     (case listStatefulSets env ns h of
        (Inl err, h1) \<Rightarrow> (Inl (Wrapf ''list StatefulSets in namespace %q: %w'' [FStr ns] err), h1)
      | (Inr items, h1) \<Rightarrow> (Inr (list_ex statefulSetPending items), h1))"

definition workloadsPendingRestore :: "'q env \<Rightarrow> string \<Rightarrow> 'q hist \<Rightarrow> bool go_result \<times> 'q hist" where
  "workloadsPendingRestore env ns h =
     (case deploymentsPendingRestore env ns h of
        (Inl err, h1) \<Rightarrow> (Inl err, h1)
      | (Inr True, h1) \<Rightarrow> (Inr True, h1)
      | (Inr False, h1) \<Rightarrow> statefulSetsPendingRestore env ns h1)"

section \<open>Restoring\<close>

text \<open>\<open>int32(prior)\<close> is \<open>word_of_int\<close>.\<close>

definition restoreDeployment :: "deployment \<Rightarrow> deployment option" where
  "restoreDeployment d =
     (if isExempt (dep_TemplateLabels d) then None
      else
        let replicas = (case dep_Replicas d of None \<Rightarrow> 0 | Some r \<Rightarrow> r) in
        if replicas \<noteq> 0 then None
        else case map_lookup (dep_Annotations d) preScaleReplicasAnnotation of
          None \<Rightarrow> None
        | Some raw \<Rightarrow>
            (case parseInt32 raw of
               Inl err \<Rightarrow> None
             | Inr prior \<Rightarrow>
                 if prior \<le> 0 then None
                 else Some (d\<lparr>dep_Annotations := map_delete (dep_Annotations d) preScaleReplicasAnnotation,
                              dep_Replicas := Some (word_of_int prior)\<rparr>)))"

fun restoreDeploymentsLoop ::
  "'q env \<Rightarrow> string \<Rightarrow> deployment list \<Rightarrow> int \<Rightarrow> 'q hist \<Rightarrow> (int \<times> go_error option) \<times> 'q hist" where
  "restoreDeploymentsLoop env ns [] n h = ((n, None), h)"
| "restoreDeploymentsLoop env ns (d # ds) n h =
     (case restoreDeployment d of
        None \<Rightarrow> restoreDeploymentsLoop env ns ds n h
      | Some d' \<Rightarrow>
          (case patchDeployment env d d' h of
             (Some err, h1) \<Rightarrow>
               ((n, Some (Wrapf ''restore Deployment %q/%s: %w'' [FStr ns, FStr (dep_Name d')] err)), h1)
           | (None, h1) \<Rightarrow> restoreDeploymentsLoop env ns ds (n + 1) h1))"

definition restoreDeploymentsFromAnnotation ::
  "'q env \<Rightarrow> string \<Rightarrow> 'q hist \<Rightarrow> (int \<times> go_error option) \<times> 'q hist" where
  "restoreDeploymentsFromAnnotation env ns h =
     (case listDeployments env ns h of
        (Inl err, h1) \<Rightarrow> ((0, Some (Wrapf ''list Deployments in namespace %q: %w'' [FStr ns] err)), h1)
      | (Inr items, h1) \<Rightarrow> restoreDeploymentsLoop env ns items 0 h1)"

definition restoreStatefulSet :: "stateful_set \<Rightarrow> stateful_set option" where
  "restoreStatefulSet s =
     (if isExempt (sts_TemplateLabels s) then None
      else
        let replicas = (case sts_Replicas s of None \<Rightarrow> 0 | Some r \<Rightarrow> r) in
        if replicas \<noteq> 0 then None
        else case map_lookup (sts_Annotations s) preScaleReplicasAnnotation of
          None \<Rightarrow> None
        | Some raw \<Rightarrow>
            (case parseInt32 raw of
               Inl err \<Rightarrow> None
             | Inr prior \<Rightarrow>
                 if prior \<le> 0 then None
                 else Some (s\<lparr>sts_Annotations := map_delete (sts_Annotations s) preScaleReplicasAnnotation,
                              sts_Replicas := Some (word_of_int prior)\<rparr>)))"

fun restoreStatefulSetsLoop ::
  "'q env \<Rightarrow> string \<Rightarrow> stateful_set list \<Rightarrow> int \<Rightarrow> 'q hist \<Rightarrow> (int \<times> go_error option) \<times> 'q hist" where
  "restoreStatefulSetsLoop env ns [] n h = ((n, None), h)"
| "restoreStatefulSetsLoop env ns (s # ss) n h =
     (case restoreStatefulSet s of
        None \<Rightarrow> restoreStatefulSetsLoop env ns ss n h
      | Some s' \<Rightarrow>
          (case patchStatefulSet env s s' h of
             (Some err, h1) \<Rightarrow>
               ((n, Some (Wrapf ''restore StatefulSet %q/%s: %w'' [FStr ns, FStr (sts_Name s')] err)), h1)
           | (None, h1) \<Rightarrow> restoreStatefulSetsLoop env ns ss (n + 1) h1))"

definition restoreStatefulSetsFromAnnotation ::
  "'q env \<Rightarrow> string \<Rightarrow> 'q hist \<Rightarrow> (int \<times> go_error option) \<times> 'q hist" where
  "restoreStatefulSetsFromAnnotation env ns h =
     (case listStatefulSets env ns h of
        (Inl err, h1) \<Rightarrow> ((0, Some (Wrapf ''list StatefulSets in namespace %q: %w'' [FStr ns] err)), h1)
      | (Inr items, h1) \<Rightarrow> restoreStatefulSetsLoop env ns items 0 h1)"

definition restoreScaledWorkloads ::
  "'q env \<Rightarrow> string \<Rightarrow> 'q hist \<Rightarrow> (int \<times> go_error option) \<times> 'q hist" where
  "restoreScaledWorkloads env ns h =
     (case restoreDeploymentsFromAnnotation env ns h of
        ((n1, Some err), h1) \<Rightarrow> ((n1, Some err), h1)
      | ((n1, None), h1) \<Rightarrow>
          (case restoreStatefulSetsFromAnnotation env ns h1 of ((n2, err), h2) \<Rightarrow> ((n1 + n2, err), h2)))"

section \<open>The interfaces hold\<close>

interpretation depr: scale_restore dep_Annotations dep_Replicas dep_TemplateLabels dep_upd
    scaleDeployment deploymentPending restoreDeployment
  by unfold_locales
    (auto simp: deploymentPending_def restoreDeployment_def Let_def replicas_or_def savedCount_def
      split: option.splits if_splits sum.splits)

interpretation stsr: scale_restore sts_Annotations sts_Replicas sts_TemplateLabels sts_upd
    scaleStatefulSet statefulSetPending restoreStatefulSet
  by unfold_locales
    (auto simp: statefulSetPending_def restoreStatefulSet_def Let_def replicas_or_def savedCount_def
      split: option.splits if_splits sum.splits)

definition restoreDeploymentError :: "string \<Rightarrow> deployment \<Rightarrow> go_error \<Rightarrow> go_error" where
  "restoreDeploymentError ns d err = Wrapf ''restore Deployment %q/%s: %w'' [FStr ns, FStr (dep_Name d)] err"

definition restoreStatefulSetError :: "string \<Rightarrow> stateful_set \<Rightarrow> go_error \<Rightarrow> go_error" where
  "restoreStatefulSetError ns s err = Wrapf ''restore StatefulSet %q/%s: %w'' [FStr ns, FStr (sts_Name s)] err"

interpretation rd: patch_pass restoreDeployment "env_patchDeployment env" CPatchDeployment
    "restoreDeploymentError ns" "restoreDeploymentsLoop env ns"
    "\<lambda>h. env_listDeployments env h ns" "CListDeployments ns" "listDeploymentsError ns"
    "restoreDeploymentsFromAnnotation env ns" for env ns
  by unfold_locales
    (simp_all add: patchDeployment_def restoreDeploymentError_def restoreDeploymentsFromAnnotation_def
      listDeployments_def listDeploymentsError_def)

interpretation rs: patch_pass restoreStatefulSet "env_patchStatefulSet env" CPatchStatefulSet
    "restoreStatefulSetError ns" "restoreStatefulSetsLoop env ns"
    "\<lambda>h. env_listStatefulSets env h ns" "CListStatefulSets ns" "listStatefulSetsError ns"
    "restoreStatefulSetsFromAnnotation env ns" for env ns
  by unfold_locales
    (simp_all add: patchStatefulSet_def restoreStatefulSetError_def restoreStatefulSetsFromAnnotation_def
      listStatefulSets_def listStatefulSetsError_def)

section \<open>What a run calls\<close>

fun restore_call :: "'q call \<Rightarrow> bool" where
  "restore_call (CListDeployments ns) = True"
| "restore_call (CListStatefulSets ns) = True"
| "restore_call (CPatchDeployment d d') = (restoreDeployment d = Some d')"
| "restore_call (CPatchStatefulSet s s') = (restoreStatefulSet s = Some s')"
| "restore_call _ = False"

fun list_call :: "'q call \<Rightarrow> bool" where
  "list_call (CListDeployments ns) = True"
| "list_call (CListStatefulSets ns) = True"
| "list_call _ = False"

abbreviation restore_deployment_calls :: "deployment list \<Rightarrow> 'q call list" where
  "restore_deployment_calls ds \<equiv> map (\<lambda>(d, d'). CPatchDeployment d d') (plan restoreDeployment ds)"

abbreviation restore_stateful_set_calls :: "stateful_set list \<Rightarrow> 'q call list" where
  "restore_stateful_set_calls ss \<equiv> map (\<lambda>(s, s'). CPatchStatefulSet s s') (plan restoreStatefulSet ss)"

lemma restoreWorkloads_cases:
  "restoreDeploymentsFromAnnotation env ns h = ((n1, Some e), h1) \<Longrightarrow>
   restoreScaledWorkloads env ns h = ((n1, Some e), h1)"
  "restoreDeploymentsFromAnnotation env ns h = ((n1, None), h1) \<Longrightarrow>
   restoreStatefulSetsFromAnnotation env ns h1 = ((n2, e2), h2) \<Longrightarrow>
   restoreScaledWorkloads env ns h = ((n1 + n2, e2), h2)"
  by (simp_all add: restoreScaledWorkloads_def)

lemma restoreWorkloads_grows [grow_intros]: "grows restore_call h (snd (restoreScaledWorkloads env ns h))"
proof -
  obtain n e h1 where d: "restoreDeploymentsFromAnnotation env ns h = ((n, e), h1)" by (metis surj_pair)
  have g1: "grows restore_call h h1" using rd.run_grows [of restore_call ns h env] d by simp
  obtain n2 e2 h2 where s: "restoreStatefulSetsFromAnnotation env ns h1 = ((n2, e2), h2)" by (metis surj_pair)
  have g2: "grows restore_call h1 h2" using rs.run_grows [of restore_call ns h1 env] s by simp
  show ?thesis
    using g1 grows_trans [OF g1 g2] by (cases e) (simp_all add: restoreWorkloads_cases d s)
qed

lemma pendingRestore_grows [grow_intros]: "grows list_call h (snd (workloadsPendingRestore env ns h))"
  by (auto simp: workloadsPendingRestore_def deploymentsPendingRestore_def
      statefulSetsPendingRestore_def call_defs grows_def split: sum.splits bool.splits)

lemma restoreWorkloads_ok:
  assumes "restoreScaledWorkloads env ns h = ((n, None), h')"
  shows "\<exists>ds ss. n = int (length (plan restoreDeployment ds) + length (plan restoreStatefulSet ss)) \<and>
    h' = h @ CListDeployments ns # restore_deployment_calls ds @ CListStatefulSets ns # restore_stateful_set_calls ss"
proof -
  obtain n1 e1 h1 where d: "restoreDeploymentsFromAnnotation env ns h = ((n1, e1), h1)" by (metis surj_pair)
  with assms have d1: "restoreDeploymentsFromAnnotation env ns h = ((n1, None), h1)"
    by (cases e1) (auto simp: restoreWorkloads_cases)
  obtain n2 e2 h2 where s: "restoreStatefulSetsFromAnnotation env ns h1 = ((n2, e2), h2)" by (metis surj_pair)
  with assms d1 have s1: "restoreStatefulSetsFromAnnotation env ns h1 = ((n2, None), h')" "n = n1 + n2"
    by (simp_all add: restoreWorkloads_cases)
  from rd.run_ok [OF d1] rs.run_ok [OF s1(1)] s1(2) show ?thesis by force
qed

lemma restoreWorkloads_count:
  "restoreScaledWorkloads env ns h = ((n, None), h') \<Longrightarrow> n = int (length (filter is_patch (drop (length h) h')))"
  by (drule restoreWorkloads_ok) auto

lemma restoreWorkloads_succeeds:
  assumes "env_listDeployments env h ns = Inr ds"
    and "env_listStatefulSets env (h @ CListDeployments ns # restore_deployment_calls ds) ns = Inr ss"
    and "\<And>h d d'. env_patchDeployment env h d d' = None"
    and "\<And>h s s'. env_patchStatefulSet env h s s' = None"
  shows "restoreScaledWorkloads env ns h =
    ((int (length (plan restoreDeployment ds) + length (plan restoreStatefulSet ss)), None),
     h @ CListDeployments ns # restore_deployment_calls ds
       @ CListStatefulSets ns # restore_stateful_set_calls ss)"
  using rd.run_succeeds [of env h ns ds] rs.run_succeeds [of env _ ns ss] assms
  by (simp add: restoreWorkloads_cases)


section \<open>Properties\<close>

text \<open>
  C15: A restore touches nothing but the replica count and the one annotation of workloads
  that a scale-down left behind. For every server and history, each call that
  \<open>restoreScaledWorkloads\<close> makes is one of the two lists or a patch whose object is not
  exempt, stands at zero replicas and carries a saved count that is a positive \<open>int32\<close>;
  the patched object has that count, has lost the annotation, and is otherwise unchanged.
\<close>

theorem restore_patches_only_saved_workloads:
  "\<exists>cs. snd (restoreScaledWorkloads env ns h) = h @ cs \<and>
     list_all (\<lambda>c. case c of
        CListDeployments n \<Rightarrow> True
      | CListStatefulSets n \<Rightarrow> True
      | CPatchDeployment d d' \<Rightarrow>
          \<not> isExempt (dep_TemplateLabels d) \<and> replicas_or 0 (dep_Replicas d) = 0 \<and>
          d' = d\<lparr>dep_Annotations := dep_Annotations d', dep_Replicas := dep_Replicas d'\<rparr> \<and>
          (\<exists>r. dep_Replicas d' = Some r \<and> 0 < sint r \<and> savedCount (dep_Annotations d) = Some (sint r)) \<and>
          (\<forall>k. map_lookup (dep_Annotations d') k =
             (if k = preScaleReplicasAnnotation then None else map_lookup (dep_Annotations d) k))
      | CPatchStatefulSet s s' \<Rightarrow>
          \<not> isExempt (sts_TemplateLabels s) \<and> replicas_or 0 (sts_Replicas s) = 0 \<and>
          s' = s\<lparr>sts_Annotations := sts_Annotations s', sts_Replicas := sts_Replicas s'\<rparr> \<and>
          (\<exists>r. sts_Replicas s' = Some r \<and> 0 < sint r \<and> savedCount (sts_Annotations s) = Some (sint r)) \<and>
          (\<forall>k. map_lookup (sts_Annotations s') k =
             (if k = preScaleReplicasAnnotation then None else map_lookup (sts_Annotations s) k))
      | _ \<Rightarrow> False) cs"
  (is "\<exists>cs. _ = h @ cs \<and> list_all ?P cs")
proof -
  obtain cs where cs: "snd (restoreScaledWorkloads env ns h) = h @ cs" "list_all restore_call cs"
    using restoreWorkloads_grows [of h env ns] by (auto simp: grows_def)
  have "?P c" if "restore_call c" for c
    using that
    by (cases c) (auto simp: depr.restore_Some_iff stsr.restore_Some_iff savedCount_sint)
  with cs show ?thesis by (auto simp: list_all_iff)
qed

text \<open>
  C7: Restoring undoes scaling. Take a namespace whose workloads carry no saved count yet
  and have no negative replica count, a server that applies the patches of a scale-down (its
  lists later show the patched objects), and any history in between. Then
  \<open>restoreScaledWorkloads\<close> patches exactly the workloads that the scale-down patched, in the
  same order, back to the object that the scale-down found, with its replica count (1 if it
  was not set); only a nil annotation map has become an empty one. Both report the same count.
\<close>

theorem restore_undoes_scale:
  assumes "env_listDeployments env h ns = Inr ds"
    and "env_listStatefulSets env (h @ CListDeployments ns # scale_deployment_calls ds) ns = Inr ss"
    and "env_listDeployments env h2 ns = Inr (map (patched scaleDeployment) ds)"
    and "env_listStatefulSets env
           (h2 @ CListDeployments ns # restore_deployment_calls (map (patched scaleDeployment) ds)) ns =
         Inr (map (patched scaleStatefulSet) ss)"
    and "\<And>h d d'. env_patchDeployment env h d d' = None"
    and "\<And>h s s'. env_patchStatefulSet env h s s' = None"
    and "\<forall>d \<in> set ds. map_lookup (dep_Annotations d) preScaleReplicasAnnotation = None \<and>
           0 \<le> sint (replicas_or 1 (dep_Replicas d))"
    and "\<forall>s \<in> set ss. map_lookup (sts_Annotations s) preScaleReplicasAnnotation = None \<and>
           0 \<le> sint (replicas_or 1 (sts_Replicas s))"
  shows "restoreScaledWorkloads env ns h2 =
    (fst (scaleWorkloadsToZero env ns h),
     h2 @ CListDeployments ns
        # map (\<lambda>(d, d'). CPatchDeployment d' (d\<lparr>dep_Annotations := Some (map_made (dep_Annotations d)),
                dep_Replicas := Some (replicas_or 1 (dep_Replicas d))\<rparr>)) (plan scaleDeployment ds)
        @ CListStatefulSets ns
        # map (\<lambda>(s, s'). CPatchStatefulSet s' (s\<lparr>sts_Annotations := Some (map_made (sts_Annotations s)),
                sts_Replicas := Some (replicas_or 1 (sts_Replicas s))\<rparr>)) (plan scaleStatefulSet ss))"
  using depr.plan_restore_scale [of ds] stsr.plan_restore_scale [of ss]
    scaleWorkloads_succeeds [OF assms(1,2,5,6)] restoreWorkloads_succeeds [OF assms(3,4,5,6)] assms(7,8)
  by (simp add: comp_def case_prod_unfold)

theorem restore_undoes_scale_witness:
  "\<exists>d s. restoreScaledWorkloads (sample_env sample_state) ''team''
     [CListDeployments ''team'', CPatchDeployment sample_deployment d, CListStatefulSets ''team'',
      CPatchStatefulSet sample_stateful_set s] =
    ((2, None),
     [CListDeployments ''team'', CPatchDeployment sample_deployment d, CListStatefulSets ''team'',
      CPatchStatefulSet sample_stateful_set s,
      CListDeployments ''team'',
      CPatchDeployment d (sample_deployment\<lparr>dep_Annotations := Some Map.empty\<rparr>),
      CListStatefulSets ''team'',
      CPatchStatefulSet s sample_stateful_set])"
proof -
  have "scaleDeployment sample_deployment \<noteq> None" "scaleStatefulSet sample_stateful_set \<noteq> None"
    by (simp_all add: dep.scale_None_iff sts.scale_None_iff sample_defs isExempt_def
        costguardExemptLabel_def)
  then obtain d s where ds: "scaleDeployment sample_deployment = Some d"
    "scaleStatefulSet sample_stateful_set = Some s" by auto
  have r: "replay_stateful_sets xs (map (\<lambda>(d, d'). CPatchDeployment d d') ps) = xs" for xs ps
    by (induction ps) auto
  let ?h = "[CListDeployments ''team'', CPatchDeployment sample_deployment d, CListStatefulSets ''team'',
    CPatchStatefulSet sample_stateful_set s]"
  have "scaleWorkloadsToZero (sample_env sample_state) ''team'' [] = ((2, None), ?h)"
    using scaleWorkloads_succeeds [of "sample_env sample_state" "[]" "''team''"
        "[sample_deployment]" "[sample_stateful_set]"] ds
    by (simp add: sample_state_def)
  with restore_undoes_scale [of "sample_env sample_state" "[]" "''team''"
      "[sample_deployment]" "[sample_stateful_set]" ?h] ds
  have "restoreScaledWorkloads (sample_env sample_state) ''team'' ?h = ((2, None),
    ?h @ [CListDeployments ''team'',
      CPatchDeployment d (sample_deployment\<lparr>dep_Annotations := Some Map.empty\<rparr>),
      CListStatefulSets ''team'', CPatchStatefulSet s sample_stateful_set])"
    by (simp add: sample_defs preScaleReplicasAnnotation_def r)
  then show ?thesis by auto
qed



end
