(* ===== verification/Spend_Interface.thy ===== *)
theory Spend_Interface
  imports Environment
begin

text \<open>
  The interface \<open>NamespaceSpendQuerier\<close> of \<open>internal/controller/cost_budget.go\<close>, through
  which the controller asks for billed spend, with the law that the controller relies on: a
  querier reads the clock and queries BigQuery, and touches nothing in the cluster.
\<close>

type_synonym 'q spend_querier =
  "'q hist \<Rightarrow> string \<Rightarrow> string \<Rightarrow> string \<Rightarrow> string \<Rightarrow> duration \<Rightarrow> float64 go_result \<times> 'q hist"

fun spend_call :: "'q call \<Rightarrow> bool" where
  "spend_call CNow = True"
| "spend_call (CBqRead q) = True"
| "spend_call (CBqNext i) = True"
| "spend_call _ = False"

locale spend_source =
  fixes query :: "'q spend_querier"
  assumes query_grows: "grows spend_call h (snd (query h table cluster ns loc lookback))"
begin

lemma query_history: "query h table cluster ns loc lookback = (r, h') \<Longrightarrow> grows spend_call h h'"
  using query_grows [of h table cluster ns loc lookback] by simp

end

text \<open>
  The reconciler: whether it has an event recorder, and its querier, which may be nil. Its
  client is the environment; its scheme is not read.
\<close>

record 'q reconciler =
  r_Recorder :: bool
  r_SpendQuerier :: "'q spend_querier option"

locale optional_spend_source =
  fixes r :: "'q reconciler"
  assumes source: "r_SpendQuerier r = Some q \<Longrightarrow> spend_source q"
begin

lemma query_history:
  "r_SpendQuerier r = Some q \<Longrightarrow> q h table cluster ns loc lookback = (res, h') \<Longrightarrow> grows spend_call h h'"
  by (rule spend_source.query_history [OF source])

end

end
