(* ===== verification/Billing.thy ===== *)
theory Billing
  imports Sample_Environment Spend_Interface
begin

text \<open>
  \<open>internal/billing/spend.go\<close>: checking the name of the billing export table, the
  parameterised query, and reading the sum from its one row. The BigQuery client is a
  parameter: \<open>env_bqRead\<close> runs a query, \<open>env_bqNext\<close> reads the next row of its result.
\<close>

section \<open>The table name\<close>

text \<open>The regular expression \<open>^[a-zA-Z0-9_-]+$\<close>.\<close>

definition bq_char :: "char \<Rightarrow> bool" where
  "bq_char c \<longleftrightarrow>
     97 \<le> byte c \<and> byte c \<le> 122 \<or> 65 \<le> byte c \<and> byte c \<le> 90 \<or>
     48 \<le> byte c \<and> byte c \<le> 57 \<or> c = CHR ''_'' \<or> c = CHR ''-''"

definition bqTablePart :: "string \<Rightarrow> bool" where
  "bqTablePart p \<longleftrightarrow> p \<noteq> [] \<and> list_all bq_char p"

text \<open>The loop over the three parts, from index \<open>i\<close>: the first error.\<close>

fun checkTableParts :: "nat \<Rightarrow> string list \<Rightarrow> go_error option" where
  "checkTableParts i [] = None"
| "checkTableParts i (p # ps) =
     (if \<not> bqTablePart p
      then Some (Errorf ''invalid billing table segment %q (index %d)'' [FStr p, FInt (int i)])
      else checkTableParts (i + 1) ps)"

definition validateTableRef :: "string \<Rightarrow> (string \<times> string \<times> string) go_result" where
  "validateTableRef tableRef =
     (let parts = split_on (CHR ''.'') (trimSpace tableRef) in
      if length parts \<noteq> 3
      then Inl (Errorf ''billing table must be project.dataset.table, got %q'' [FStr tableRef])
      else case checkTableParts 0 parts of
        Some err \<Rightarrow> Inl err
      | None \<Rightarrow> Inr (parts ! 0, parts ! 1, parts ! 2))"

section \<open>The query\<close>

definition newline :: string where
  "newline = [CHR 0x0A]"

text \<open>The text before and after the table name in \<open>FROM %s AS t\<close>.\<close>

definition queryHead :: string where
  "queryHead = newline @ ''SELECT COALESCE(SUM(t.cost), 0) AS total_cost'' @ newline @ ''FROM ''"

definition queryTail :: string where
  "queryTail = '' AS t'' @ newline @ ''WHERE t.usage_start_time >= @start_ts'' @ newline @
     ''  AND EXISTS (SELECT 1 FROM UNNEST(t.labels) AS l WHERE l.key = 'goog-k8s-cluster-name' AND l.value = @cluster)'' @ newline @
     ''  AND EXISTS (SELECT 1 FROM UNNEST(t.labels) AS l WHERE l.key = 'goog-k8s-namespace' AND l.value = @namespace)'' @ newline"

definition tableName :: "string \<Rightarrow> string \<Rightarrow> string \<Rightarrow> string" where
  "tableName proj ds tbl = ''`'' @ proj @ ''.'' @ ds @ ''.'' @ tbl @ ''`''"

definition spendQuery :: "string \<Rightarrow> go_time \<Rightarrow> string \<Rightarrow> string \<Rightarrow> string \<Rightarrow> bq_query" where
  "spendQuery fq start clusterName namespace location =
     \<lparr>bq_Text = queryHead @ fq @ queryTail,
      bq_Parameters = [(''start_ts'', BqTime start), (''cluster'', BqString clusterName),
                       (''namespace'', BqString namespace)],
      bq_Location = (if trimSpace location \<noteq> [] then trimSpace location else [])\<rparr>"

text \<open>
  \<open>configured\<close> is \<open>q != nil && q.client != nil\<close>. An unset \<open>Location\<close> is the empty string.
\<close>

definition NamespaceSpendUSD ::
  "'q env \<Rightarrow> bool \<Rightarrow> 'q hist \<Rightarrow> string \<Rightarrow> string \<Rightarrow> string \<Rightarrow> string \<Rightarrow> duration \<Rightarrow> float64 go_result \<times> 'q hist" where
  "NamespaceSpendUSD env configured h tableRef clusterName namespace location lookback =
     (if \<not> configured then (Inl (Errorf ''bigquery client is not configured'' []), h)
      else case validateTableRef tableRef of
        Inl err \<Rightarrow> (Inl err, h)
      | Inr (proj, ds, tbl) \<Rightarrow>
        if clusterName = [] \<or> namespace = []
        then (Inl (Errorf ''clusterName and namespace must be set'' []), h)
        else
          (case now env h of (t, h1) \<Rightarrow>
           let start = time_add t (neg_duration lookback);
               fq = tableName proj ds tbl;
               qy = spendQuery fq start clusterName namespace location
           in case bqRead env qy h1 of
                (Inl err, h2) \<Rightarrow> (Inl (Wrapf ''bigquery read: %w'' [] err), h2)
              | (Inr it, h2) \<Rightarrow>
                (case bqNext env it h2 of
                   (BqDone, h3) \<Rightarrow> (Inr (Fin 0), h3)
                 | (BqError err, h3) \<Rightarrow> (Inl (Wrapf ''bigquery row: %w'' [] err), h3)
                 | (BqRow totalCost, h3) \<Rightarrow> (Inr totalCost, h3))))"

section \<open>Lemmas\<close>

lemma bq_char_not_special: "bq_char c \<Longrightarrow> c \<noteq> CHR ''.'' \<and> c \<noteq> CHR ''`'' \<and> c \<notin> set newline"
  by (auto simp: bq_char_def byte_def newline_def)

lemma bqTablePart_no_dot: "bqTablePart p \<Longrightarrow> CHR ''.'' \<notin> set p"
  using bq_char_not_special by (auto simp: bqTablePart_def list_all_iff)

lemma checkTableParts_None: "checkTableParts i ps = None \<longleftrightarrow> list_all bqTablePart ps"
  by (induction ps arbitrary: i) simp_all

lemma validateTableRef_Inr:
  "validateTableRef r = Inr (p, d, t) \<longleftrightarrow>
   trimSpace r = p @ ''.'' @ d @ ''.'' @ t \<and> bqTablePart p \<and> bqTablePart d \<and> bqTablePart t"
proof
  assume "validateTableRef r = Inr (p, d, t)"
  then have ps: "split_on (CHR ''.'') (trimSpace r) = [p, d, t]" "list_all bqTablePart [p, d, t]"
    by (auto simp: validateTableRef_def Let_def checkTableParts_None length_Suc_conv numeral_3_eq_3
        split: if_splits option.splits)
  have "trimSpace r = join_with (CHR ''.'') [p, d, t]"
    using join_split_on [of "CHR ''.''" "trimSpace r"] ps(1) by simp
  with ps(2) show "trimSpace r = p @ ''.'' @ d @ ''.'' @ t \<and> bqTablePart p \<and> bqTablePart d \<and> bqTablePart t"
    by simp
next
  assume r: "trimSpace r = p @ ''.'' @ d @ ''.'' @ t \<and> bqTablePart p \<and> bqTablePart d \<and> bqTablePart t"
  then have "split_on (CHR ''.'') (trimSpace r) = [p, d, t]"
    by (simp add: bqTablePart_no_dot split_on_append split_on_single)
  moreover from r have "checkTableParts 0 [p, d, t] = None"
    unfolding checkTableParts_None by simp
  ultimately show "validateTableRef r = Inr (p, d, t)"
    by (simp add: validateTableRef_def del: checkTableParts.simps)
qed

lemma NamespaceSpendUSD_valid:
  assumes "validateTableRef tableRef = Inr (proj, ds, tbl)" "clusterName \<noteq> []" "namespace \<noteq> []"
    and qy: "qy = spendQuery (tableName proj ds tbl) (time_add (env_clock env h) (neg_duration lookback))
    clusterName namespace location"
  shows "NamespaceSpendUSD env True h tableRef clusterName namespace location lookback =
    (case env_bqRead env (h @ [CNow]) qy of
       Inl err \<Rightarrow> (Inl (Wrapf ''bigquery read: %w'' [] err), h @ [CNow, CBqRead qy])
     | Inr it \<Rightarrow>
         ((case env_bqNext env (h @ [CNow, CBqRead qy]) it of
             BqDone \<Rightarrow> Inr (Fin 0)
           | BqError err \<Rightarrow> Inl (Wrapf ''bigquery row: %w'' [] err)
           | BqRow totalCost \<Rightarrow> Inr totalCost),
          h @ [CNow, CBqRead qy, CBqNext it]))"
  using assms
  by (simp add: NamespaceSpendUSD_def call_defs Let_def split: sum.splits bq_next.splits)

lemma NamespaceSpendUSD_invalid:
  "\<not> configured \<Longrightarrow> NamespaceSpendUSD env configured h t c n l w =
     (Inl (Errorf ''bigquery client is not configured'' []), h)"
  "configured \<Longrightarrow> validateTableRef t = Inl err \<Longrightarrow> NamespaceSpendUSD env configured h t c n l w = (Inl err, h)"
  "configured \<Longrightarrow> validateTableRef t = Inr x \<Longrightarrow> c = [] \<or> n = [] \<Longrightarrow>
     NamespaceSpendUSD env configured h t c n l w =
       (Inl (Errorf ''clusterName and namespace must be set'' []), h)"
  by (auto simp: NamespaceSpendUSD_def)

text \<open>Every run makes no call, or the clock, the query, and at most one row.\<close>

lemma NamespaceSpendUSD_calls:
  "snd (NamespaceSpendUSD env configured h t c n l w) = h \<or>
   (\<exists>p d b cs. configured \<and> validateTableRef t = Inr (p, d, b) \<and>
      snd (NamespaceSpendUSD env configured h t c n l w) =
        h @ CNow # CBqRead (spendQuery (tableName p d b)
          (time_add (env_clock env h) (neg_duration w)) c n l) # cs \<and>
      (cs = [] \<or> (\<exists>it. cs = [CBqNext it])))"
proof (cases "configured \<and> is_ok (validateTableRef t) \<and> c \<noteq> [] \<and> n \<noteq> []")
  case True
  then obtain p d b where "validateTableRef t = Inr (p, d, b)" by (auto simp: is_ok_iff)
  with True NamespaceSpendUSD_valid [OF this _ _ refl, where clusterName = c and namespace = n and env = env and h = h and lookback = w and location = l] show ?thesis
    by (auto split: sum.splits bq_next.splits)
next
  case False
  then show ?thesis
    by (cases "validateTableRef t") (auto simp: NamespaceSpendUSD_def)
qed

interpretation billing: spend_source "NamespaceSpendUSD env configured" for env configured
proof unfold_locales
  fix h t c n l w
  show "grows spend_call h (snd (NamespaceSpendUSD env configured h t c n l w))"
    using NamespaceSpendUSD_calls [of env configured h t c n l w] by (auto simp: grows_def)
qed

text \<open>The reconciler that \<open>cmd/main.go\<close> builds: a querier if the client could be created.\<close>

definition newReconciler :: "'q env \<Rightarrow> bool \<Rightarrow> bool \<Rightarrow> 'q reconciler" where
  "newReconciler env recorder clientOk =
     \<lparr>r_Recorder = recorder,
      r_SpendQuerier = (if clientOk then Some (NamespaceSpendUSD env True) else None)\<rparr>"

interpretation wired: optional_spend_source "newReconciler env recorder clientOk"
  for env recorder clientOk
  by unfold_locales (auto simp: newReconciler_def billing.query_grows split: if_splits)

section \<open>Properties\<close>

text \<open>
  \<open>validateTableRef\<close> accepts exactly the names \<open>project.dataset.table\<close>, white space
  around them apart, whose three parts are non-empty and made of letters, digits, underscores
  and hyphens, and it returns these three parts.
\<close>

theorem validateTableRef_accepts:
  "validateTableRef tableRef = Inr (p, d, t) \<longleftrightarrow>
   trimSpace tableRef = p @ ''.'' @ d @ ''.'' @ t \<and>
   (\<forall>s \<in> {p, d, t}. s \<noteq> [] \<and> (\<forall>c \<in> set s. bq_char c))"
  by (auto simp: validateTableRef_Inr bqTablePart_def list_all_iff)

theorem validateTableRef_accepts_witness:
  "validateTableRef ''proj-1.billing.export_v1'' = Inr (''proj-1'', ''billing'', ''export_v1'')"
  by (subst validateTableRef_accepts)
     (simp add: trimSpace_printable printable_def bq_char_def byte_def)

text \<open>
  C23: The query cannot be injected. Every run of \<open>NamespaceSpendUSD\<close> makes at most three
  calls, which read the clock and BigQuery only. If it runs a query, the text is the fixed
  query with the table name between backticks, the name holds no character but letters,
  digits, underscores, hyphens and dots, and the cluster, the namespace and the start of the
  window go in as parameters, not as text.
\<close>

theorem spend_query_is_parameterised:
  "\<exists>cs. snd (NamespaceSpendUSD env configured h tableRef cluster namespace location lookback) = h @ cs \<and>
     length cs \<le> 3 \<and> list_all spend_call cs \<and>
     (\<forall>q. CBqRead q \<in> set cs \<longrightarrow>
        bq_Text q = queryHead @ ''`'' @ trimSpace tableRef @ ''`'' @ queryTail \<and>
        (\<forall>c \<in> set (trimSpace tableRef). bq_char c \<or> c = CHR ''.'') \<and>
        bq_Parameters q = [(''start_ts'', BqTime (time_add (env_clock env h) (neg_duration lookback))),
          (''cluster'', BqString cluster), (''namespace'', BqString namespace)] \<and>
        bq_Location q = trimSpace location)"
  using NamespaceSpendUSD_calls [of env configured h tableRef cluster namespace location lookback]
proof
  assume "\<exists>p d b cs. configured \<and> validateTableRef tableRef = Inr (p, d, b) \<and>
      snd (NamespaceSpendUSD env configured h tableRef cluster namespace location lookback) =
        h @ CNow # CBqRead (spendQuery (tableName p d b)
          (time_add (env_clock env h) (neg_duration lookback)) cluster namespace location) # cs \<and>
      (cs = [] \<or> (\<exists>it. cs = [CBqNext it]))"
  then obtain p d b cs where v: "validateTableRef tableRef = Inr (p, d, b)"
    and h': "snd (NamespaceSpendUSD env configured h tableRef cluster namespace location lookback) =
        h @ CNow # CBqRead (spendQuery (tableName p d b)
          (time_add (env_clock env h) (neg_duration lookback)) cluster namespace location) # cs"
    and cs: "cs = [] \<or> (\<exists>it. cs = [CBqNext it])" by blast
  from v have "trimSpace tableRef = p @ ''.'' @ d @ ''.'' @ b"
    "\<forall>c \<in> set p \<union> set d \<union> set b. bq_char c"
    by (auto simp: validateTableRef_Inr bqTablePart_def list_all_iff)
  then show ?thesis using cs unfolding h'
    by (auto simp: spendQuery_def tableName_def)
qed simp

theorem spend_query_is_parameterised_witness:
  "\<exists>q. CBqRead q \<in> set (snd (NamespaceSpendUSD (sample_env sample_state) True [] ''proj.billing.export''
       ''main'' ''team'' ''EU'' (5 * second))) \<and>
     bq_Text q = queryHead @ ''`proj.billing.export`'' @ queryTail"
proof -
  let ?run = "NamespaceSpendUSD (sample_env sample_state) True [] ''proj.billing.export'' ''main'' ''team'' ''EU'' (5 * second)"
  have t: "trimSpace ''proj.billing.export'' = ''proj.billing.export''"
    by (simp add: trimSpace_printable printable_def byte_def)
  have "validateTableRef ''proj.billing.export'' = Inr (''proj'', ''billing'', ''export'')"
    by (simp add: validateTableRef_Inr t bqTablePart_def bq_char_def byte_def)
  then obtain q where q: "CBqRead q \<in> set (snd ?run)"
    by (simp add: NamespaceSpendUSD_valid [OF _ _ _ refl])
  with spend_query_is_parameterised [of "sample_env sample_state" True "[]" "''proj.billing.export''"
      "''main''" "''team''" "''EU''" "5 * second"] t
  show ?thesis by (intro exI [of _ q]) auto
qed

text \<open>
  C24: What \<open>NamespaceSpendUSD\<close> returns. It returns an amount exactly when the client is
  configured, the table name is valid, cluster and namespace are given, the query could be
  read, and then either there was no row and the amount is zero, or the first row holds it.
  Every other case is an error; no failure is turned into an amount.
\<close>

theorem NamespaceSpendUSD_returns:
  "fst (NamespaceSpendUSD env configured h tableRef cluster namespace location lookback) = Inr x \<longleftrightarrow>
   (let q = spendQuery (''`'' @ trimSpace tableRef @ ''`'')
              (time_add (env_clock env h) (neg_duration lookback)) cluster namespace location in
    configured \<and> is_ok (validateTableRef tableRef) \<and> cluster \<noteq> [] \<and> namespace \<noteq> [] \<and>
    (case env_bqRead env (h @ [CNow]) q of
       Inl _ \<Rightarrow> False
     | Inr it \<Rightarrow>
        (case env_bqNext env (h @ [CNow, CBqRead q]) it of
           BqDone \<Rightarrow> x = Fin 0
         | BqError _ \<Rightarrow> False
         | BqRow totalCost \<Rightarrow> x = totalCost)))"
proof (cases "configured \<and> is_ok (validateTableRef tableRef) \<and> cluster \<noteq> [] \<and> namespace \<noteq> []")
  case True
  then obtain p d b where v: "validateTableRef tableRef = Inr (p, d, b)" by (auto simp: is_ok_iff)
  then have t: "tableName p d b = ''`'' @ trimSpace tableRef @ ''`''"
    by (simp add: validateTableRef_Inr tableName_def)
  from True show ?thesis
    by (auto simp: NamespaceSpendUSD_valid [OF v _ _ refl] t Let_def split: sum.splits bq_next.splits)
next
  case False
  then show ?thesis
    by (cases "validateTableRef tableRef") (auto simp: NamespaceSpendUSD_def)
qed

end
