(* ===== verification/Go_ParseFloat.thy ===== *)
theory Go_ParseFloat
  imports Go_Float
begin

text \<open>
  \<open>strconv.ParseFloat(s, 64)\<close> with everything it accepts (signs, decimal and hexadecimal
  mantissas, exponents, underscores, infinities, NaN) and
  \<open>strconv.FormatFloat(x, 'f', -1, 64)\<close>, which prints the fewest decimal digits that
  parse back to the same number. Shows that parsing what was printed returns the number.
\<close>

section \<open>ParseFloat\<close>

text \<open>The lower-case form of a byte.\<close>

definition lc :: "char \<Rightarrow> nat" where
  "lc c = (if 65 \<le> byte c \<and> byte c \<le> 90 then byte c + 32 else byte c)"

definition lower_text :: "string \<Rightarrow> nat list" where
  "lower_text s = map lc s"

definition digit_in :: "nat \<Rightarrow> char \<Rightarrow> nat option" where
  "digit_in base c =
     (if is_digit c then Some (digit_val c)
      else if base = 16 \<and> 97 \<le> lc c \<and> lc c \<le> 102 then Some (lc c - 87)
      else None)"

text \<open>
  The mantissa: digits with at most one point, underscores skipped. Carries the digits read,
  how many of them follow the point, whether a point and whether a digit was seen.
\<close>

fun scan_mant :: "nat \<Rightarrow> string \<Rightarrow> nat \<Rightarrow> nat \<Rightarrow> bool \<Rightarrow> bool \<Rightarrow> nat \<times> nat \<times> bool \<times> string" where
  "scan_mant base [] m f dot seen = (m, f, seen, [])"
| "scan_mant base (c # cs) m f dot seen =
     (if c = CHR ''_'' then scan_mant base cs m f dot seen
      else if c = CHR ''.'' then
        (if dot then (m, f, seen, c # cs) else scan_mant base cs m f True seen)
      else (case digit_in base c of
          None \<Rightarrow> (m, f, seen, c # cs)
        | Some d \<Rightarrow> scan_mant base cs (m * base + d) (if dot then Suc f else f) dot True))"

text \<open>Exponent digits; a value that has reached 10000 no longer grows.\<close>

fun scan_exp :: "string \<Rightarrow> nat \<Rightarrow> nat \<times> string" where
  "scan_exp [] e = (e, [])"
| "scan_exp (c # cs) e =
     (if c = CHR ''_'' then scan_exp cs e
      else if is_digit c then scan_exp cs (if e < 10000 then e * 10 + digit_val c else e)
      else (e, c # cs))"

text \<open>
  Underscores must stand between digits, or between a base prefix and a digit. The
  character \<open>saw\<close> is the class of the previous one: a digit \<open>0\<close>, an underscore, or
  another.
\<close>

fun underscores_from :: "bool \<Rightarrow> char \<Rightarrow> string \<Rightarrow> bool" where
  "underscores_from hex saw [] \<longleftrightarrow> saw \<noteq> CHR ''_''"
| "underscores_from hex saw (c # cs) \<longleftrightarrow>
     (if is_digit c \<or> hex \<and> 97 \<le> lc c \<and> lc c \<le> 102 then underscores_from hex (CHR ''0'') cs
      else if c = CHR ''_'' then saw = CHR ''0'' \<and> underscores_from hex (CHR ''_'') cs
      else saw \<noteq> CHR ''_'' \<and> underscores_from hex (CHR ''!'') cs)"

definition underscore_ok :: "string \<Rightarrow> bool" where
  "underscore_ok s =
     (let s1 = snd (split_sign s) in
      case s1 of
        z # x # rest \<Rightarrow>
          if z = CHR ''0'' \<and> (lc x = 98 \<or> lc x = 111 \<or> lc x = 120)
          then underscores_from (lc x = 120) (CHR ''0'') rest
          else underscores_from False (CHR ''^'') s1
      | _ \<Rightarrow> underscores_from False (CHR ''^'') s1)"

definition base_prefix :: "string \<Rightarrow> nat \<times> string" where
  "base_prefix s = (case s of
     z # x # rest \<Rightarrow> if z = CHR ''0'' \<and> lc x = 120 \<and> rest \<noteq> [] then (16, rest) else (10, s)
   | _ \<Rightarrow> (10, s))"

definition exp_char :: "nat \<Rightarrow> nat" where
  "exp_char base = (if base = 16 then 112 else 101)"

text \<open>
  The optional exponent after the mantissa, which a hexadecimal mantissa must have:
  its value and the text after it.
\<close>

definition read_exp :: "nat \<Rightarrow> string \<Rightarrow> (int \<times> string) option" where
  "read_exp base s = (case s of
     c # cs \<Rightarrow>
       if lc c = exp_char base then
         (let (eneg, ds) = split_sign cs in
          if ds = [] \<or> \<not> is_digit (hd ds) then None
          else let (e, r) = scan_exp ds 0 in Some (if eneg then - int e else int e, r))
       else if base = 16 then None else Some (0, s)
   | [] \<Rightarrow> if base = 16 then None else Some (0, s))"

text \<open>The sign and the exact magnitude that a numeral denotes.\<close>

definition read_float :: "string \<Rightarrow> (bool \<times> rat) option" where
  "read_float s =
     (let (neg, s1) = split_sign s;
          (base, s2) = base_prefix s1;
          (m, f, seen, s3) = scan_mant base s2 0 0 False False
      in if \<not> seen then None
         else case read_exp base s3 of
             None \<Rightarrow> None
           | Some (e, s4) \<Rightarrow>
               if s4 \<noteq> [] \<or> \<not> underscore_ok s then None
               else Some (neg, of_nat m / of_nat base ^ f * (if base = 16 then 2 powi e else 10 powi e)))"

definition special_float :: "string \<Rightarrow> float64 option" where
  "special_float s =
     (let (neg, r) = split_sign s in
      if lower_text r = lower_text ''inf'' \<or> lower_text r = lower_text ''infinity'' then Some (Inf neg)
      else if lower_text s = lower_text ''nan'' then Some NaN
      else None)"

definition parseFloat64 :: "string \<Rightarrow> float64 go_result" where
  "parseFloat64 s =
     (case special_float s of
        Some x \<Rightarrow> Inr x
      | None \<Rightarrow> (case read_float s of
          None \<Rightarrow> Inl (StdError ''strconv.ParseFloat'' s ''invalid syntax'')
        | Some (neg, q) \<Rightarrow>
            let x = to_f64 neg q in
            if is_inf x then Inl (StdError ''strconv.ParseFloat'' s ''value out of range'') else Inr x))"

lemma is_f64_parseFloat64: "parseFloat64 s = Inr x \<Longrightarrow> is_f64 x"
  by (auto simp: parseFloat64_def special_float_def Let_def
      split: option.splits prod.splits if_splits)

section \<open>FormatFloat\<close>

text \<open>
  A multiple of \<open>10 ^ k\<close> next to \<open>q\<close> that rounds to \<open>q\<close>, the nearer of two.
\<close>

definition decimal_at :: "rat \<Rightarrow> int \<Rightarrow> int option" where
  "decimal_at q k =
     (let u = 10 powi k; lo = \<lfloor>q / u\<rfloor>;
          ok = (\<lambda>c. rnd (of_int c * u) = q)
      in if ok lo \<and> (\<not> ok (lo + 1) \<or> q - of_int lo * u \<le> of_int (lo + 1) * u - q) then Some lo
         else if ok (lo + 1) then Some (lo + 1)
         else None)"

text \<open>
  The shortest decimal: the first exponent, from the most significant one down, that has
  such a multiple. At \<open>-1074\<close> every number of the type is a multiple.
\<close>

definition max_places :: nat where
  "max_places = 1074"

function shortest_decimal :: "rat \<Rightarrow> int \<Rightarrow> int \<times> int" where
  "shortest_decimal q k =
     (if k \<le> - int max_places then (\<lfloor>q * 10 ^ max_places\<rfloor>, - int max_places)
      else (case decimal_at q k of Some c \<Rightarrow> (c, k) | None \<Rightarrow> shortest_decimal q (k - 1)))"
  by pat_completeness auto
termination by (relation "measure (\<lambda>(q, k). nat (k + int max_places))") auto

declare shortest_decimal.simps [simp del]

fun strip_zeros :: "nat \<Rightarrow> nat \<Rightarrow> nat \<times> nat" where
  "strip_zeros d 0 = (d, 0)"
| "strip_zeros d (Suc p) = (if d mod 10 = 0 then strip_zeros (d div 10) p else (d, Suc p))"

text \<open>Print \<open>d * 10 ^ k\<close> without an exponent and without trailing zeros after the point.\<close>

definition pad_digits :: "nat \<Rightarrow> nat \<Rightarrow> string" where
  "pad_digits p n = (let s = digits_of n in replicate (p - length s) (CHR ''0'') @ s)"

definition plain_decimal :: "nat \<Rightarrow> int \<Rightarrow> string" where
  "plain_decimal d k =
     (if 0 \<le> k then digits_of (d * 10 ^ nat k)
      else let (d', p) = strip_zeros d (nat (- k)) in
        if p = 0 then digits_of d'
        else digits_of (d' div 10 ^ p) @ CHR ''.'' # pad_digits p (d' mod 10 ^ p))"

definition format_magnitude :: "rat \<Rightarrow> string" where
  "format_magnitude q =
     (let (d, k) = shortest_decimal q (int (length (digits_of (nat \<lfloor>q\<rfloor>)))) in plain_decimal (nat d) k)"

fun formatFloat64 :: "float64 \<Rightarrow> string" where
  "formatFloat64 NaN = ''NaN''"
| "formatFloat64 (Inf neg) = (if neg then ''-Inf'' else ''+Inf'')"
| "formatFloat64 NegZero = ''-0''"
| "formatFloat64 (Fin q) =
     (if q = 0 then ''0'' else if q < 0 then CHR ''-'' # format_magnitude (- q) else format_magnitude q)"

section \<open>Parsing what was printed\<close>

subsection \<open>The digits denote the number\<close>

lemma scaled_integer:
  assumes "repr q"
  shows "\<exists>n. q * 10 ^ max_places = of_int n"
proof -
  have gen: "\<exists>n. (of_int m * 2 powi k) * 10 ^ N = (of_int n :: rat)" if k: "- int N \<le> k" for m k N
  proof -
    from k have "0 \<le> k + int N" by simp
    then obtain j where j: "k = int j - int N" by (metis add_diff_cancel_right' nonneg_int_cases)
    have "(2::rat) powi k * 10 ^ N = 2 powi k * (2 ^ N * 5 ^ N)" by (simp flip: power_mult_distrib)
    also have "\<dots> = 2 ^ j * 5 ^ N" by (simp add: j power_int_diff)
    finally have "(of_int m * 2 powi k) * 10 ^ N = (of_int (m * (2 ^ j * 5 ^ N)) :: rat)"
      by (simp add: mult.assoc)
    then show ?thesis by blast
  qed
  from assms obtain m k where mk: "q = of_int m * 2 powi k" "-1074 \<le> k" by (auto simp: repr_def)
  from mk(2) have "- int max_places \<le> k" by (simp add: max_places_def)
  from gen [OF this, of m] show ?thesis by (simp only: mk(1))
qed

lemma powi_10_inverse: "(x * 10 ^ n) * 10 powi (- int n) = (x::rat)"
  by (simp add: power_int_minus)

lemma shortest_decimal_rounds:
  assumes "repr q" "shortest_decimal q k0 = (c, k)"
  shows "0 \<le> c \<and> rnd (of_int c * 10 powi k) = q"
  using assms
proof (induction q k0 rule: shortest_decimal.induct)
  case (1 q k0)
  have q: "0 \<le> q" using 1(2) repr_nonneg by blast
  show ?case
  proof (cases "k0 \<le> - int max_places")
    case True
    with 1(3) have ck: "c = \<lfloor>q * 10 ^ max_places\<rfloor>" "k = - int max_places"
      by (auto simp: shortest_decimal.simps [of q k0])
    from scaled_integer [OF 1(2)] have "of_int c = q * 10 ^ max_places" unfolding ck(1) by force
    then have "of_int c * 10 powi k = q" unfolding ck(2) by (simp only: powi_10_inverse)
    moreover have "0 \<le> c" unfolding ck(1) using q by simp
    ultimately show ?thesis using rnd_repr [OF 1(2)] by simp
  next
    case False
    show ?thesis
    proof (cases "decimal_at q k0")
      case None
      with False 1 show ?thesis by (simp add: shortest_decimal.simps [of q k0])
    next
      case (Some d)
      with False 1(3) have "c = d" "k = k0" by (simp_all add: shortest_decimal.simps [of q k0])
      moreover from Some have "d = \<lfloor>q / 10 powi k0\<rfloor> \<or> d = \<lfloor>q / 10 powi k0\<rfloor> + 1"
        by (auto simp: decimal_at_def Let_def split: if_splits)
      moreover have "0 \<le> \<lfloor>q / 10 powi k0\<rfloor>" using q by simp
      ultimately have "0 \<le> d" "c = d" "k = k0" by linarith+
      from Some have "rnd (of_int d * 10 powi k0) = q"
        by (auto simp: decimal_at_def Let_def split: if_splits)
      with \<open>0 \<le> d\<close> \<open>c = d\<close> \<open>k = k0\<close> show ?thesis by simp
    qed
  qed
qed

subsection \<open>Reading plain decimals\<close>

lemma foldl_digits:
  "foldl (\<lambda>a c. a * 10 + digit_val c) m s = m * 10 ^ length s + nat_of_digits s"
proof (induction s rule: rev_induct)
  case Nil
  then show ?case by simp
next
  case (snoc c s)
  then show ?case by (simp add: algebra_simps)
qed

lemma nat_of_digits_append:
  "nat_of_digits (s @ t) = nat_of_digits s * 10 ^ length t + nat_of_digits t"
  using foldl_digits [of "nat_of_digits s" t] foldl_digits [of 0 "s @ t"] foldl_digits [of 0 s]
  by simp

lemma nat_of_digits_zeros [simp]: "nat_of_digits (replicate n (CHR ''0'')) = 0"
  by (induction n) (simp_all flip: replicate_append_same add: digit_val_def byte_def)

lemma digits_of_length: "n < 10 ^ p \<Longrightarrow> 0 < p \<Longrightarrow> length (digits_of n) \<le> p"
proof (induction p arbitrary: n)
  case (Suc p)
  show ?case
  proof (cases "n < 10")
    case False
    with Suc.prems have "n div 10 < 10 ^ p" "0 < p" by (auto intro: Suc_lessI gr0I)
    with Suc.IH [of "n div 10"] False show ?thesis by (simp add: digits_of.simps [of n])
  qed (simp add: digits_of.simps)
qed simp

lemma pad_digits:
  assumes "n < 10 ^ p" "0 < p"
  shows "length (pad_digits p n) = p \<and> nat_of_digits (pad_digits p n) = n \<and> list_all is_digit (pad_digits p n)"
proof -
  have z: "is_digit (CHR ''0'')" by (simp add: is_digit_def byte_def)
  show ?thesis
    using digits_of_length [OF assms] digits_of_all_digits [of n] z
    by (auto simp: pad_digits_def Let_def nat_of_digits_append list_all_iff)
qed

lemma digit_in_digit: "is_digit c \<Longrightarrow> digit_in base c = Some (digit_val c)"
  by (simp add: digit_in_def)

lemma is_digit_not_underscore: "is_digit c \<Longrightarrow> c \<noteq> CHR ''_''"
  by (auto simp: is_digit_def byte_def)

lemma scan_mant_digits:
  "list_all is_digit s \<Longrightarrow>
   scan_mant 10 (s @ r) m f dot seen =
     scan_mant 10 r (m * 10 ^ length s + nat_of_digits s) (if dot then f + length s else f) dot
       (seen \<or> s \<noteq> [])"
proof (induction s arbitrary: m f seen)
  case Nil
  then show ?case by simp
next
  case (Cons c s)
  then have c: "is_digit c" "c \<noteq> CHR ''_''" "c \<noteq> CHR ''.''"
    using is_digit_not_underscore is_digit_not_sign by auto
  have v: "nat_of_digits (c # s) = digit_val c * 10 ^ length s + nat_of_digits s"
    using nat_of_digits_append [of "[c]" s] nat_of_digits_snoc [of "[]" c] by simp
  from Cons c show ?case
    by (simp add: digit_in_digit v algebra_simps)
qed

lemma underscores_from_digits:
  "list_all (\<lambda>c. is_digit c \<or> c = CHR ''.'') s \<Longrightarrow> saw \<noteq> CHR ''_'' \<Longrightarrow> underscores_from hex saw s"
  by (induction s arbitrary: saw) auto

text \<open>A plain decimal: digits, and a point and more digits perhaps.\<close>

definition plain_text :: "string \<Rightarrow> string \<Rightarrow> string" where
  "plain_text ds fs = (if fs = [] then ds else ds @ CHR ''.'' # fs)"

lemma lc_digit: "is_digit c \<Longrightarrow> lc c = byte c \<and> lc c \<le> 57 \<and> 48 \<le> lc c"
  by (simp add: lc_def is_digit_def)

lemma lc_point: "lc (CHR ''.'') = 46"
  by (simp add: lc_def byte_def)

lemma plain_text_chars:
  "list_all is_digit ds \<Longrightarrow> list_all is_digit fs \<Longrightarrow>
   list_all (\<lambda>c. is_digit c \<or> c = CHR ''.'') (plain_text ds fs)"
  by (auto simp: plain_text_def list_all_iff)

lemma plain_chars_lc: "list_all (\<lambda>c. is_digit c \<or> c = CHR ''.'') s \<Longrightarrow> c \<in> set s \<Longrightarrow> lc c \<le> 57"
  using lc_digit lc_point by (fastforce simp: list_all_iff)

lemma underscore_ok_plain:
  assumes "list_all (\<lambda>c. is_digit c \<or> c = CHR ''.'') (snd (split_sign s))"
  shows "underscore_ok s"
proof -
  obtain t where t: "snd (split_sign s) = t" by simp
  have small: "lc x \<le> 57" if "x \<in> set t" for x
    using plain_chars_lc assms that t by blast
  have u: "underscores_from False (CHR ''^'') t"
    by (rule underscores_from_digits) (use assms t in simp_all)
  consider "t = []" | z where "t = [z]" | z x r where "t = z # x # r"
    by (cases t; cases "tl t") auto
  then show ?thesis
  proof cases
    case 3
    then have "lc x \<le> 57" using small by simp
    with u 3 show ?thesis by (simp add: underscore_ok_def t)
  qed (use u in \<open>simp_all add: underscore_ok_def t\<close>)
qed

lemma base_prefix_plain:
  assumes "list_all (\<lambda>c. is_digit c \<or> c = CHR ''.'') s"
  shows "base_prefix s = (10, s)"
proof -
  have small: "lc x \<le> 57" if "x \<in> set s" for x using plain_chars_lc assms that by blast
  consider "s = []" | z where "s = [z]" | z x r where "s = z # x # r"
    by (cases s; cases "tl s") auto
  then show ?thesis
  proof cases
    case 3
    then have "lc x \<le> 57" using small by simp
    with 3 show ?thesis by (simp add: base_prefix_def)
  qed (simp_all add: base_prefix_def)
qed

lemma read_float_plain:
  assumes "split_sign s = (neg, plain_text ds fs)" "ds \<noteq> []"
    "list_all is_digit ds" "list_all is_digit fs"
  shows "read_float s = Some (neg, of_nat (nat_of_digits (ds @ fs)) / 10 ^ length fs)"
proof -
  have pc: "list_all (\<lambda>c. is_digit c \<or> c = CHR ''.'') (plain_text ds fs)"
    by (rule plain_text_chars) (use assms in auto)
  have u: "underscore_ok s" by (rule underscore_ok_plain) (use pc assms(1) in simp)
  have "scan_mant 10 (plain_text ds fs) 0 0 False False
      = (nat_of_digits (ds @ fs), length fs, True, [])"
    using assms(2,3,4) scan_mant_digits [of ds "[]"] scan_mant_digits [of ds "CHR ''.'' # fs"]
      scan_mant_digits [of fs "[]"]
    by (simp add: plain_text_def nat_of_digits_append)
  then show ?thesis
    by (simp add: read_float_def assms(1) base_prefix_plain [OF pc] read_exp_def u)
qed

lemma special_float_digits:
  assumes "split_sign s = (neg, c # r)" "is_digit c"
  shows "special_float s = None"
proof -
  have hd: "lc c \<le> 57" using lc_digit [OF assms(2)] by simp
  have i: "lower_text ''inf'' = [105, 110, 102]" "lower_text ''infinity'' = [105, 110, 102, 105, 110, 105, 116, 121]"
    "lower_text ''nan'' = [110, 97, 110]"
    by (simp_all add: lower_text_def lc_def byte_def)
  have "lower_text s \<noteq> lower_text ''nan''"
  proof (cases s)
    case (Cons x xs)
    with assms(1) hd show ?thesis unfolding i
      by (auto simp: split_sign_def lower_text_def lc_def byte_def split: if_splits)
  qed (use assms(1) in \<open>simp add: split_sign_def\<close>)
  moreover have "lower_text (c # r) \<noteq> lower_text ''inf''" "lower_text (c # r) \<noteq> lower_text ''infinity''"
    unfolding i using hd by (auto simp: lower_text_def)
  ultimately show ?thesis using assms(1) by (simp add: special_float_def)
qed

subsection \<open>Plain decimals print the number\<close>

lemma strip_zeros_value:
  "strip_zeros d p = (d', p') \<Longrightarrow> (of_nat d' :: rat) / 10 ^ p' = of_nat d / 10 ^ p"
proof (induction d p rule: strip_zeros.induct)
  case (2 d p)
  show ?case
  proof (cases "d mod 10 = 0")
    case True
    then have "d = 10 * (d div 10)" by auto
    then have "(of_nat d :: rat) = 10 * of_nat (d div 10)" by (metis of_nat_mult of_nat_numeral)
    with 2 True show ?thesis by simp
  qed (use 2 in simp)
qed simp

lemma plain_decimal_text:
  "\<exists>ds fs. plain_decimal d k = plain_text ds fs \<and> ds \<noteq> [] \<and> list_all is_digit ds \<and> list_all is_digit fs
     \<and> (of_nat (nat_of_digits (ds @ fs)) :: rat) / 10 ^ length fs = of_nat d * 10 powi k"
proof (cases "0 \<le> k")
  case True
  then show ?thesis
    by (intro exI [of _ "digits_of (d * 10 ^ nat k)"] exI [of _ "[]"])
       (simp add: plain_decimal_def plain_text_def digits_of_all_digits power_int_def)
next
  case False
  obtain d' p where st: "strip_zeros d (nat (- k)) = (d', p)" by fastforce
  have v: "(of_nat d' :: rat) / 10 ^ p = of_nat d * 10 powi k"
    using strip_zeros_value [OF st] False by (simp add: power_int_def power_one_over)
  show ?thesis
  proof (cases "p = 0")
    case True
    with False st v show ?thesis
      by (intro exI [of _ "digits_of d'"] exI [of _ "[]"])
         (simp add: plain_decimal_def plain_text_def digits_of_all_digits)
  next
    case p: False
    have "d' mod 10 ^ p < 10 ^ p" by simp
    note pad = pad_digits [OF this, of] p
    then have pad: "length (pad_digits p (d' mod 10 ^ p)) = p"
      "nat_of_digits (pad_digits p (d' mod 10 ^ p)) = d' mod 10 ^ p"
      "list_all is_digit (pad_digits p (d' mod 10 ^ p))" by auto
    from pad(1) p have "pad_digits p (d' mod 10 ^ p) \<noteq> []" by auto
    with False st p have "plain_decimal d k = plain_text (digits_of (d' div 10 ^ p)) (pad_digits p (d' mod 10 ^ p))"
      by (simp add: plain_decimal_def plain_text_def)
    moreover have "nat_of_digits (digits_of (d' div 10 ^ p) @ pad_digits p (d' mod 10 ^ p)) = d'"
      by (simp only: nat_of_digits_append pad nat_of_digits_of div_mult_mod_eq)
    ultimately show ?thesis
      using v pad digits_of_all_digits digits_of_nonempty by metis
  qed
qed

subsection \<open>The round trip\<close>

lemma split_sign_plain:
  assumes "ds \<noteq> []" "list_all is_digit ds"
  shows "split_sign (plain_text ds fs) = (False, plain_text ds fs)"
proof -
  obtain c cs where c: "ds = c # cs" using assms(1) by (cases ds) auto
  with assms(2) have "c \<noteq> CHR ''-''" "c \<noteq> CHR ''+''" using is_digit_not_sign by auto
  with c show ?thesis by (simp add: split_sign_def plain_text_def)
qed

lemma plain_text_Cons:
  assumes "ds \<noteq> []"
  shows "\<exists>r. plain_text ds fs = hd ds # r"
  using assms by (cases ds) (auto simp: plain_text_def)

lemma parse_format_magnitude:
  assumes "repr q" "0 < q" "q < f64_top"
  shows "parseFloat64 (format_magnitude q) = Inr (Fin q)"
    and "parseFloat64 (CHR ''-'' # format_magnitude q) = Inr (Fin (- q))"
proof -
  obtain c k where ck: "shortest_decimal q (int (length (digits_of (nat \<lfloor>q\<rfloor>)))) = (c, k)"
    by fastforce
  from shortest_decimal_rounds [OF assms(1) ck]
  have c: "0 \<le> c" and r: "rnd (of_int c * 10 powi k) = q" by auto
  obtain ds fs where t: "plain_decimal (nat c) k = plain_text ds fs" "ds \<noteq> []"
    "list_all is_digit ds" "list_all is_digit fs"
    "(of_nat (nat_of_digits (ds @ fs)) :: rat) / 10 ^ length fs = of_nat (nat c) * 10 powi k"
    using plain_decimal_text [of "nat c" k] by blast
  obtain x where x: "plain_text ds fs = hd ds # x" using plain_text_Cons [OF t(2)] by blast
  have hd: "is_digit (hd ds)" using t(2,3) by (cases ds) auto
  have fm: "format_magnitude q = plain_text ds fs" by (simp add: format_magnitude_def ck t(1))
  have rr: "rnd (of_nat (nat_of_digits (ds @ fs)) / 10 ^ length fs) = q"
    using r c unfolding t(5) by simp
  have f: "to_f64 neg (of_nat (nat_of_digits (ds @ fs)) / 10 ^ length fs) = Fin (if neg then - q else q)" for neg
    using rr assms(2,3) by (simp add: to_f64_def)
  have s1: "split_sign (plain_text ds fs) = (False, plain_text ds fs)"
    by (rule split_sign_plain) (use t in auto)
  have s2: "split_sign (CHR ''-'' # plain_text ds fs) = (True, plain_text ds fs)" by simp
  show "parseFloat64 (format_magnitude q) = Inr (Fin q)"
    using special_float_digits [OF s1 [unfolded x] hd] read_float_plain [OF s1 t(2-4)] f [of False]
    by (simp add: parseFloat64_def fm flip: x)
  show "parseFloat64 (CHR ''-'' # format_magnitude q) = Inr (Fin (- q))"
    using special_float_digits [OF s2 [unfolded x] hd] read_float_plain [OF s2 t(2-4)] f [of True]
    by (simp add: parseFloat64_def fm flip: x)
qed

lemma parse_format_float: "is_f64 x \<Longrightarrow> parseFloat64 (formatFloat64 x) = Inr x"
proof (cases x)
  case NaN
  then show ?thesis
    by (simp add: parseFloat64_def special_float_def split_sign_def lower_text_def lc_def byte_def)
next
  case (Inf neg)
  then show ?thesis
    by (simp add: parseFloat64_def special_float_def split_sign_def lower_text_def lc_def byte_def)
next
  case NegZero
  have "read_float ''-0'' = Some (True, of_nat (nat_of_digits (''0'' @ [])) / 10 ^ length ([]::string))"
    by (rule read_float_plain) (simp_all add: plain_text_def is_digit_def byte_def split_sign_def)
  moreover have "special_float ''-0'' = None"
    by (rule special_float_digits [of _ True "CHR ''0''" "[]"]) (simp_all add: split_sign_def is_digit_def byte_def)
  ultimately show ?thesis using NegZero
    by (simp add: parseFloat64_def to_f64_def nat_of_digits_def digit_val_def byte_def)
next
  case (Fin q)
  assume x: "is_f64 x"
  show ?thesis
  proof (cases "q = 0")
    case True
    have "read_float ''0'' = Some (False, of_nat (nat_of_digits (''0'' @ [])) / 10 ^ length ([]::string))"
      by (rule read_float_plain) (simp_all add: plain_text_def is_digit_def byte_def split_sign_def)
    moreover have "special_float ''0'' = None"
      by (rule special_float_digits [of _ False "CHR ''0''" "[]"]) (simp_all add: split_sign_def is_digit_def byte_def)
    ultimately show ?thesis using Fin True
      by (simp add: parseFloat64_def to_f64_def nat_of_digits_def digit_val_def byte_def)
  next
    case False
    then show ?thesis using Fin x parse_format_magnitude [of q] parse_format_magnitude [of "- q"]
      by auto
  qed
qed

text \<open>Printed numbers are not empty and have no white space to trim.\<close>

lemma digit_printable: "is_digit c \<Longrightarrow> printable c"
  by (simp add: is_digit_def printable_def)

lemma format_magnitude_printable:
  "format_magnitude q \<noteq> [] \<and> printable (hd (format_magnitude q)) \<and> printable (last (format_magnitude q))"
proof -
  obtain d k where "format_magnitude q = plain_decimal d k"
    by (simp add: format_magnitude_def case_prod_unfold Let_def)
  then obtain ds fs where t: "format_magnitude q = plain_text ds fs" "ds \<noteq> []"
    "list_all is_digit ds" "list_all is_digit fs"
    using plain_decimal_text [of d k] by auto
  then have "hd (plain_text ds fs) \<in> set ds" by (simp add: plain_text_def)
  moreover have "last (plain_text ds fs) \<in> set ds \<union> set fs"
    using t(2) by (simp add: plain_text_def)
  ultimately show ?thesis using t digit_printable
    by (auto simp: list_all_iff plain_text_def)
qed

lemma formatFloat64_printable:
  "formatFloat64 x \<noteq> [] \<and> printable (hd (formatFloat64 x)) \<and> printable (last (formatFloat64 x))"
proof (cases x)
  case (Fin q)
  then show ?thesis
    using format_magnitude_printable [of q] format_magnitude_printable [of "- q"]
    by (auto simp: printable_def byte_def)
qed (auto simp: printable_def byte_def)

lemma trimSpace_formatFloat64 [simp]: "trimSpace (formatFloat64 x) = formatFloat64 x" "formatFloat64 x \<noteq> []"
  using formatFloat64_printable by (simp_all add: trimSpace_printable)

end
