(* ===== verification/Cost_Budget.thy ===== *)
theory Cost_Budget
  imports Billing Go_ParseFloat
begin

text \<open>
  \<open>internal/controller/cost_budget.go\<close>: the check of \<open>spec.costBudget\<close>, its defaults, the
  spend of a namespace with the throttling of queries, and the threshold decisions.
  \<open>float64\<close> values are those of \<open>Go_Float\<close>; the status that \<open>resolveNamespaceSpendUSD\<close>
  writes is in the BudgetNamespace that it returns.
\<close>

section \<open>The spec\<close>

definition defaultCostBudgetLookback :: duration where
  "defaultCostBudgetLookback = 168 * hour"

definition defaultCostBudgetQueryInterval :: duration where
  "defaultCostBudgetQueryInterval = hour"

text \<open>The constant \<open>1e-9\<close> as a \<open>float64\<close>.\<close>

definition costBudgetEpsilon :: float64 where
  "costBudgetEpsilon = to_f64 False (1 / 10 ^ 9)"

definition costBudgetEnabled :: "bn_spec \<Rightarrow> bool" where
  "costBudgetEnabled spec =
     (case spec_CostBudget spec of None \<Rightarrow> False | Some cb \<Rightarrow> cb_Enabled cb)"

definition validateCostBudgetSpec :: "bn_spec \<Rightarrow> go_error option" where
  "validateCostBudgetSpec spec =
     (case spec_CostBudget spec of
        None \<Rightarrow> None
      | Some cb \<Rightarrow>
        if \<not> cb_Enabled cb then None
        else if trimSpace (cb_BillingExportTable cb) = []
        then Some (Errorf ''spec.costBudget.billingExportTable is required when cost budget is enabled'' [])
        else if trimSpace (cb_ClusterName cb) = []
        then Some (Errorf ''spec.costBudget.clusterName is required when cost budget is enabled'' [])
        else if trimSpace (cb_MaxSpendUSD cb) = []
        then Some (Errorf ''spec.costBudget.maxSpendUSD is required when cost budget is enabled'' [])
        else case parseFloat64 (trimSpace (cb_MaxSpendUSD cb)) of
          Inl err \<Rightarrow> Some (Wrapf ''parse spec.costBudget.maxSpendUSD: %w'' [] err)
        | Inr maxUSD \<Rightarrow>
          if fle maxUSD (Fin 0)
          then Some (Errorf ''spec.costBudget.maxSpendUSD must be greater than zero'' [])
          else
            let w = trimSpace (cb_LookbackWindow cb);
                lookbackErr =
                  (if w \<noteq> [] then
                     (case parseDuration w of
                        Inl err \<Rightarrow> Some (Wrapf ''parse spec.costBudget.lookbackWindow: %w'' [] err)
                      | Inr _ \<Rightarrow> None)
                   else None)
            in case lookbackErr of
              Some err \<Rightarrow> Some err
            | None \<Rightarrow>
              let w = trimSpace (cb_QueryInterval cb)
              in if w \<noteq> [] then
                   (case parseDuration w of
                      Inl err \<Rightarrow> Some (Wrapf ''parse spec.costBudget.queryInterval: %w'' [] err)
                    | Inr _ \<Rightarrow> None)
                 else None)"

definition costBudgetLookback :: "cost_budget_spec option \<Rightarrow> duration" where
  "costBudgetLookback cbo =
     (case cbo of
        None \<Rightarrow> defaultCostBudgetLookback
      | Some cb \<Rightarrow>
        let w = trimSpace (cb_LookbackWindow cb) in
        if w = [] then defaultCostBudgetLookback
        else case parseDuration w of
          Inl err \<Rightarrow> defaultCostBudgetLookback
        | Inr d \<Rightarrow> d)"

definition costBudgetQueryInterval :: "cost_budget_spec option \<Rightarrow> duration" where
  "costBudgetQueryInterval cbo =
     (case cbo of
        None \<Rightarrow> defaultCostBudgetQueryInterval
      | Some cb \<Rightarrow>
        let w = trimSpace (cb_QueryInterval cb) in
        if w = [] then defaultCostBudgetQueryInterval
        else case parseDuration w of
          Inl err \<Rightarrow> defaultCostBudgetQueryInterval
        | Inr d \<Rightarrow> d)"

definition costBudgetMaxUSD :: "cost_budget_spec option \<Rightarrow> float64 go_result" where
  "costBudgetMaxUSD cbo =
     (case cbo of
        None \<Rightarrow> Inl (Errorf ''cost budget spec is nil'' [])
      | Some cb \<Rightarrow> parseFloat64 (trimSpace (cb_MaxSpendUSD cb)))"

section \<open>The decisions\<close>

definition spendAtOrOverMax :: "float64 \<Rightarrow> float64 \<Rightarrow> bool" where
  "spendAtOrOverMax spend maxUSD = fle maxUSD (fadd spend costBudgetEpsilon)"

definition withinCostBudgetForRestore :: "bn_spec \<Rightarrow> float64 \<Rightarrow> bool go_result" where
  "withinCostBudgetForRestore spec spend =
     (if \<not> costBudgetEnabled spec then Inr True
      else case costBudgetMaxUSD (spec_CostBudget spec) of
        Inl err \<Rightarrow> Inl err
      | Inr maxUSD \<Rightarrow> Inr (flt (fadd spend costBudgetEpsilon) maxUSD))"

definition enforcementScaleReason :: "bool \<Rightarrow> bool \<Rightarrow> string" where
  "enforcementScaleReason quotaAtHardLimit costOverBudget =
     (if quotaAtHardLimit \<and> costOverBudget then ''resource-quota-and-cost-budget''
      else if costOverBudget then ''cost-budget''
      else ''resource-quota'')"

definition overBudgetReasonMessage :: "bool \<Rightarrow> bool \<Rightarrow> string \<times> string" where
  "overBudgetReasonMessage quotaAtHardLimit costOverBudget =
     (if quotaAtHardLimit \<and> costOverBudget then
        (''CostBudgetAndQuotaExceeded'',
         ''ResourceQuota is at or above a hard limit and billed spend is at or above maxSpendUSD; '' @
         ''non-exempt Deployments and StatefulSets were scaled to zero'')
      else if costOverBudget then
        (''CostBudgetExceeded'',
         ''Billed spend in the lookback window is at or above maxSpendUSD; non-exempt Deployments and StatefulSets were scaled to zero'')
      else
        (''ResourceQuotaAtOrOverHard'',
         ''ResourceQuota usage is at or above a hard limit; non-exempt Deployments and StatefulSets were scaled to zero''))"

section \<open>The spend\<close>

definition resolveNamespaceSpendUSD ::
  "'q reconciler \<Rightarrow> budget_namespace \<Rightarrow> go_time \<Rightarrow> 'q hist \<Rightarrow> float64 go_result \<times> budget_namespace \<times> 'q hist" where
  "resolveNamespaceSpendUSD r bn t h =
     (if \<not> costBudgetEnabled (bn_Spec bn) then (Inr (Fin 0), bn, h)
      else case r_SpendQuerier r of
        None \<Rightarrow> (Inl (Errorf ''cost budget is enabled but BigQuery client is not configured on the operator'' []), bn, h)
      | Some querier \<Rightarrow>
        let cbo = spec_CostBudget (bn_Spec bn); cb = the cbo in
        case validateCostBudgetSpec (bn_Spec bn) of
          Some err \<Rightarrow> (Inl err, bn, h)
        | None \<Rightarrow>
          let interval = costBudgetQueryInterval cbo;
              throttled = (case st_LastCostQueryAt (bn_Status bn) of
                             None \<Rightarrow> False
                           | Some lastAt \<Rightarrow> time_before t (time_add lastAt interval));
              s = trimSpace (st_LastObservedSpendUSD (bn_Status bn))
          in if throttled \<and> s \<noteq> [] then (parseFloat64 s, bn, h)
             else
               let lookback = costBudgetLookback cbo in
               case querier h (cb_BillingExportTable cb) (cb_ClusterName cb)
                      (spec_NamespaceName (bn_Spec bn)) (cb_BillingLocation cb) lookback of
                 (Inl err, h1) \<Rightarrow> (Inl err, bn, h1)
               | (Inr spend, h1) \<Rightarrow>
                   (Inr spend,
                    bn\<lparr>bn_Status := (bn_Status bn)\<lparr>st_LastCostQueryAt := Some t,
                         st_LastObservedSpendUSD := formatFloat64 spend\<rparr>\<rparr>,
                    h1))"

section \<open>Lemmas\<close>

lemma epsilon_Fin: "\<exists>e. costBudgetEpsilon = Fin e \<and> 0 < e \<and> is_f64 (Fin e)"
proof -
  have r: "2 powi (-30) \<le> rnd (1 / 10 ^ 9)" "rnd (1 / 10 ^ 9) \<le> 2 powi 0"
    using rnd_mono [of "2 powi (-30)" "1 / 10 ^ 9"] rnd_mono [of "1 / 10 ^ 9" "2 powi 0"]
      rnd_repr [OF repr_powi, of "-30"] rnd_repr [OF repr_powi, of 0]
    by (simp_all add: power_int_minus)
  have "(2 powi 0 :: rat) < f64_top" by (simp add: f64_top_def)
  with r have top: "rnd (1 / 10 ^ 9) < f64_top" by linarith
  have pos: "0 < rnd (1 / 10 ^ 9)" using r(1) powi_pos [of "-30"] by linarith
  show ?thesis
    using top pos by (intro exI [of _ "rnd (1 / 10 ^ 9)"]) (simp add: costBudgetEpsilon_def to_f64_def Let_def)
qed

lemma fadd_not_NaN: "x \<noteq> NaN \<Longrightarrow> fadd x (Fin e) \<noteq> NaN"
  by (cases x) (simp_all add: f64_of_rat_range)

lemma costBudgetEnabled_iff: "costBudgetEnabled spec \<longleftrightarrow> (\<exists>cb. spec_CostBudget spec = Some cb \<and> cb_Enabled cb)"
  by (auto simp: costBudgetEnabled_def split: option.splits)

text \<open>An optional duration: empty, or one that parses.\<close>

definition duration_ok :: "string \<Rightarrow> bool" where
  "duration_ok s \<longleftrightarrow> trimSpace s = [] \<or> is_ok (parseDuration (trimSpace s))"

lemma validateCostBudgetSpec_enabled:
  assumes "spec_CostBudget spec = Some cb" "cb_Enabled cb"
  shows "validateCostBudgetSpec spec = None \<longleftrightarrow>
    trimSpace (cb_BillingExportTable cb) \<noteq> [] \<and> trimSpace (cb_ClusterName cb) \<noteq> [] \<and>
    trimSpace (cb_MaxSpendUSD cb) \<noteq> [] \<and>
    (\<exists>m. costBudgetMaxUSD (spec_CostBudget spec) = Inr m \<and> \<not> fle m (Fin 0)) \<and>
    duration_ok (cb_LookbackWindow cb) \<and> duration_ok (cb_QueryInterval cb)"
  using assms
  by (auto simp: validateCostBudgetSpec_def costBudgetMaxUSD_def duration_ok_def Let_def is_ok_def
      split: option.splits sum.splits if_splits)

lemma resolve_disabled: "\<not> costBudgetEnabled (bn_Spec bn) \<Longrightarrow> resolveNamespaceSpendUSD r bn t h = (Inr (Fin 0), bn, h)"
  by (simp add: resolveNamespaceSpendUSD_def)

text \<open>The status of a BudgetNamespace whose spend was read at time \<open>t\<close>.\<close>

definition with_spend :: "float64 \<Rightarrow> go_time \<Rightarrow> budget_namespace \<Rightarrow> budget_namespace" where
  "with_spend spend t bn =
     bn\<lparr>bn_Status := (bn_Status bn)\<lparr>st_LastCostQueryAt := Some t,
          st_LastObservedSpendUSD := formatFloat64 spend\<rparr>\<rparr>"

lemma with_spend_simps [simp]:
  "bn_Spec (with_spend x t bn) = bn_Spec bn"
  "bn_Generation (with_spend x t bn) = bn_Generation bn"
  "bn_Name (with_spend x t bn) = bn_Name bn"
  "bn_Namespace (with_spend x t bn) = bn_Namespace bn"
  "bn_CreationTimestamp (with_spend x t bn) = bn_CreationTimestamp bn"
  "st_Conditions (bn_Status (with_spend x t bn)) = st_Conditions (bn_Status bn)"
  "st_LastCostQueryAt (bn_Status (with_spend x t bn)) = Some t"
  "st_LastObservedSpendUSD (bn_Status (with_spend x t bn)) = formatFloat64 x"
  by (simp_all add: with_spend_def)

text \<open>
  The outcomes: an answer without a query, which changes nothing, or the answer of the
  querier, whose amount is written to the status.
\<close>

lemma resolve_cases:
  assumes "resolveNamespaceSpendUSD r bn t h = (res, bn', h')"
  shows "bn' = bn \<and> h' = h \<or>
    (\<exists>q cb. r_SpendQuerier r = Some q \<and> spec_CostBudget (bn_Spec bn) = Some cb \<and>
       q h (cb_BillingExportTable cb) (cb_ClusterName cb) (spec_NamespaceName (bn_Spec bn))
         (cb_BillingLocation cb) (costBudgetLookback (Some cb)) = (res, h') \<and>
       bn' = (case res of Inl _ \<Rightarrow> bn | Inr x \<Rightarrow> with_spend x t bn))"
proof (cases "costBudgetEnabled (bn_Spec bn)")
  case False
  with assms show ?thesis by (simp add: resolve_disabled)
next
  case True
  then obtain cb where cb: "spec_CostBudget (bn_Spec bn) = Some cb" by (auto simp: costBudgetEnabled_iff)
  note def = assms [unfolded resolveNamespaceSpendUSD_def Let_def with_spend_def [symmetric] cb option.sel]
  show ?thesis
  proof (cases "r_SpendQuerier r")
    case None
    with def True show ?thesis by simp
  next
    case q: (Some q)
    obtain x h1 where run: "q h (cb_BillingExportTable cb) (cb_ClusterName cb) (spec_NamespaceName (bn_Spec bn))
        (cb_BillingLocation cb) (costBudgetLookback (Some cb)) = (x, h1)" by (metis surj_pair)
    show ?thesis
    proof (cases "validateCostBudgetSpec (bn_Spec bn)")
      case None
      with def True q run cb show ?thesis by (cases x) (auto split: if_splits)
    next
      case (Some err)
      with def True q show ?thesis by simp
    qed
  qed
qed

text \<open>The object, its metadata, spec and conditions stay as they are.\<close>

lemma resolve_keeps:
  assumes "resolveNamespaceSpendUSD r bn t h = (res, bn', h')"
  shows "bn_Spec bn' = bn_Spec bn \<and> bn_Generation bn' = bn_Generation bn \<and> bn_Name bn' = bn_Name bn \<and>
    bn_Namespace bn' = bn_Namespace bn \<and> bn_CreationTimestamp bn' = bn_CreationTimestamp bn \<and>
    st_Conditions (bn_Status bn') = st_Conditions (bn_Status bn)"
  using resolve_cases [OF assms] by (auto split: sum.splits)

context optional_spend_source
begin

lemma resolve_history:
  "resolveNamespaceSpendUSD r bn t h = (res, bn', h') \<Longrightarrow> grows spend_call h h'"
  using resolve_cases [of r bn t h res bn' h'] query_history by fastforce

end

section \<open>The sample cost budget\<close>

definition sample_reconciler :: "int reconciler" where
  "sample_reconciler = newReconciler (sample_env sample_state) True True"

lemma sample_texts:
  "trimSpace ''proj.billing.export'' = ''proj.billing.export''" "trimSpace ''main'' = ''main''"
  "trimSpace ''5'' = ''5''" "trimSpace ''1m'' = ''1m''"
  "parseDuration ''1m'' = Inr (60 * 1000000000)"
  "parseFloat64 ''5'' = Inr (Fin 5)"
proof -
  show "parseFloat64 ''5'' = Inr (Fin 5)" by code_simp
qed (simp_all add: trimSpace_printable printable_def byte_def parse_duration_eval)

lemma sample_budget_valid:
  "validateCostBudgetSpec (sample_spec\<lparr>spec_CostBudget := Some sample_budget\<rparr>) = None"
  by (simp add: validateCostBudgetSpec_def sample_budget_def sample_texts)

lemma sample_interval: "costBudgetQueryInterval (Some sample_budget) = minute"
  by (simp add: costBudgetQueryInterval_def sample_budget_def sample_texts minute_def second_def)

lemma sample_resolve:
  "\<exists>bn' h'. resolveNamespaceSpendUSD sample_reconciler
      (sample_bn_of (sample_spec\<lparr>spec_CostBudget := Some sample_budget\<rparr>)) t [] = (Inr (Fin 2), bn', h') \<and>
    CBqNext 0 \<in> set h'"
proof -
  have "validateTableRef ''proj.billing.export'' = Inr (''proj'', ''billing'', ''export'')"
    by (simp add: validateTableRef_Inr sample_texts bqTablePart_def bq_char_def byte_def)
  then show ?thesis
    using sample_budget_valid
    by (simp add: resolveNamespaceSpendUSD_def sample_reconciler_def newReconciler_def costBudgetEnabled_def
        NamespaceSpendUSD_valid [OF _ _ _ refl] sample_defs sample_budget_def Let_def)
qed

section \<open>Properties\<close>

text \<open>
  C29: \<open>validateCostBudgetSpec\<close> lets a spec through exactly when its cost budget is absent
  or disabled, or table, cluster and limit are given, the limit parses to a number that is
  not at most zero, and the two durations are empty or parse.
\<close>

theorem validateCostBudgetSpec_accepts:
  "validateCostBudgetSpec spec = None \<longleftrightarrow>
   (case spec_CostBudget spec of
      None \<Rightarrow> True
    | Some cb \<Rightarrow>
        cb_Enabled cb = False \<or>
        trimSpace (cb_BillingExportTable cb) \<noteq> [] \<and> trimSpace (cb_ClusterName cb) \<noteq> [] \<and>
        trimSpace (cb_MaxSpendUSD cb) \<noteq> [] \<and>
        (\<exists>m. parseFloat64 (trimSpace (cb_MaxSpendUSD cb)) = Inr m \<and> (m = NaN \<or> flt (Fin 0) m)) \<and>
        (trimSpace (cb_LookbackWindow cb) = [] \<or> is_ok (parseDuration (trimSpace (cb_LookbackWindow cb)))) \<and>
        (trimSpace (cb_QueryInterval cb) = [] \<or> is_ok (parseDuration (trimSpace (cb_QueryInterval cb)))))"
proof (cases "spec_CostBudget spec")
  case None
  then show ?thesis by (simp add: validateCostBudgetSpec_def)
next
  case (Some cb)
  have "\<not> fle m (Fin 0) \<longleftrightarrow> m = NaN \<or> flt (Fin 0) m" for m
    by (auto simp: flt_def)
  with Some validateCostBudgetSpec_enabled [OF Some] show ?thesis
    by (cases "cb_Enabled cb")
       (auto simp: costBudgetMaxUSD_def duration_ok_def validateCostBudgetSpec_def)
qed

text \<open>
  After validation nothing falls back silently. For a spec that passed, with an enabled
  cost budget, \<open>costBudgetMaxUSD\<close> succeeds, and the look-back window and the query interval
  are the defaults exactly when they were left empty, else the value that was written.
\<close>

theorem valid_budget_is_used_as_written:
  assumes "validateCostBudgetSpec spec = None" "spec_CostBudget spec = Some cb" "cb_Enabled cb"
  shows "is_ok (costBudgetMaxUSD (spec_CostBudget spec)) \<and>
    (if trimSpace (cb_LookbackWindow cb) = [] then costBudgetLookback (Some cb) = 168 * hour
     else parseDuration (trimSpace (cb_LookbackWindow cb)) = Inr (costBudgetLookback (Some cb))) \<and>
    (if trimSpace (cb_QueryInterval cb) = [] then costBudgetQueryInterval (Some cb) = hour
     else parseDuration (trimSpace (cb_QueryInterval cb)) = Inr (costBudgetQueryInterval (Some cb)))"
  using assms validateCostBudgetSpec_enabled [OF assms(2,3)]
  by (auto simp: duration_ok_def is_ok_iff costBudgetLookback_def costBudgetQueryInterval_def
      defaultCostBudgetLookback_def defaultCostBudgetQueryInterval_def Let_def)

theorem valid_budget_is_used_as_written_witness:
  "costBudgetLookback (Some sample_budget) = 168 * hour \<and>
   parseDuration ''1m'' = Inr (costBudgetQueryInterval (Some sample_budget))"
  using valid_budget_is_used_as_written [OF sample_budget_valid]
  by (simp add: sample_budget_def sample_texts)

text \<open>
  The threshold is where it should be and moves the right way. A spend at or above the
  limit is over; and more spend, or a lower limit, never takes a namespace from over to under.
\<close>

theorem spend_threshold_monotone:
  "(is_f64 spend \<and> fle maxUSD spend \<longrightarrow> spendAtOrOverMax spend maxUSD) \<and>
   (spendAtOrOverMax spend maxUSD \<and> fle spend spend' \<and> fle maxUSD' maxUSD \<longrightarrow>
    spendAtOrOverMax spend' maxUSD')"
proof -
  obtain e where e: "costBudgetEpsilon = Fin e" "0 < e" "is_f64 (Fin e)" using epsilon_Fin by blast
  show ?thesis
  proof (intro conjI impI)
    assume s: "is_f64 spend \<and> fle maxUSD spend"
    then have "spend \<noteq> NaN" by auto
    with s e have "fle spend (fadd spend (Fin e))" by (intro fadd_pos_ge) simp_all
    with s fle_trans show "spendAtOrOverMax spend maxUSD"
      unfolding spendAtOrOverMax_def e(1) by blast
  next
    assume "spendAtOrOverMax spend maxUSD \<and> fle spend spend' \<and> fle maxUSD' maxUSD"
    with fadd_mono [of spend spend', OF _ e(3)] fle_trans show "spendAtOrOverMax spend' maxUSD'"
      unfolding spendAtOrOverMax_def e(1) by blast
  qed
qed

theorem spend_threshold_monotone_witness:
  "spendAtOrOverMax (Fin 4) (Fin 4) \<and> spendAtOrOverMax (Fin 5) (Fin (7 / 2))"
proof -
  have "repr 4" unfolding repr_def by (intro exI [of _ 4] exI [of _ 0]) simp
  then have f: "is_f64 (Fin 4)" by (simp add: f64_top_def)
  show ?thesis
    using spend_threshold_monotone [of "Fin 4" "Fin 4" "Fin 5" "Fin (7 / 2)"] f by simp
qed

text \<open>
  The test for a restore is exactly the opposite of the test for a scale-down, when
  neither the spend nor the limit is NaN: with an enabled cost budget that passed validation,
  \<open>withinCostBudgetForRestore\<close> answers true just when the spend is not at or over the limit.
\<close>

theorem restore_test_is_complement:
  assumes "costBudgetEnabled spec" "costBudgetMaxUSD (spec_CostBudget spec) = Inr maxUSD"
    and "maxUSD \<noteq> NaN" "spend \<noteq> NaN"
  shows "withinCostBudgetForRestore spec spend = Inr (\<not> spendAtOrOverMax spend maxUSD)"
proof -
  have "fadd spend costBudgetEpsilon \<noteq> NaN" using assms(4) epsilon_Fin fadd_not_NaN by metis
  with assms(1-3) show ?thesis
    by (simp add: withinCostBudgetForRestore_def flt_def spendAtOrOverMax_def)
qed

theorem restore_test_is_complement_witness:
  "withinCostBudgetForRestore (sample_spec\<lparr>spec_CostBudget := Some sample_budget\<rparr>) (Fin 6) =
   Inr (\<not> spendAtOrOverMax (Fin 6) (Fin 5))"
proof -
  have t: "trimSpace ''5'' = ''5''" by (simp add: trimSpace_printable printable_def byte_def)
  have "parseFloat64 ''5'' = Inr (Fin 5)" by code_simp
  with t show ?thesis
    by (intro restore_test_is_complement)
       (simp_all add: costBudgetEnabled_iff costBudgetMaxUSD_def sample_budget_def)
qed

text \<open>
  C40: A limit of NaN is accepted and switches the cost budget off. A spec whose
  \<open>maxSpendUSD\<close> is the word NaN passes validation when its other fields do; then no spend
  is ever at or over the limit, and none is within it for a restore.
\<close>

theorem nan_limit_is_never_reached:
  assumes "validateCostBudgetSpec (spec\<lparr>spec_CostBudget := Some cb\<rparr>) = None" "cb_Enabled cb"
  shows "validateCostBudgetSpec (spec\<lparr>spec_CostBudget := Some (cb\<lparr>cb_MaxSpendUSD := ''NaN''\<rparr>)\<rparr>) = None \<and>
    costBudgetMaxUSD (Some (cb\<lparr>cb_MaxSpendUSD := ''NaN''\<rparr>)) = Inr NaN \<and>
    \<not> spendAtOrOverMax spend NaN \<and>
    withinCostBudgetForRestore (spec\<lparr>spec_CostBudget := Some (cb\<lparr>cb_MaxSpendUSD := ''NaN''\<rparr>)\<rparr>) spend = Inr False"
proof -
  have t: "trimSpace ''NaN'' = ''NaN''" by (simp add: trimSpace_printable printable_def byte_def)
  have f: "parseFloat64 ''NaN'' = Inr NaN" using parse_format_float [of NaN] by simp
  show ?thesis
    using assms validateCostBudgetSpec_enabled [of "spec\<lparr>spec_CostBudget := Some cb\<rparr>" cb]
      validateCostBudgetSpec_enabled [of "spec\<lparr>spec_CostBudget := Some (cb\<lparr>cb_MaxSpendUSD := ''NaN''\<rparr>)\<rparr>"
        "cb\<lparr>cb_MaxSpendUSD := ''NaN''\<rparr>"]
    by (simp add: costBudgetMaxUSD_def t f spendAtOrOverMax_def withinCostBudgetForRestore_def
        costBudgetEnabled_def)
qed

theorem nan_limit_is_never_reached_witness:
  "validateCostBudgetSpec (sample_spec\<lparr>spec_CostBudget := Some (sample_budget\<lparr>cb_MaxSpendUSD := ''NaN''\<rparr>)\<rparr>) = None"
  using nan_limit_is_never_reached [OF sample_budget_valid] by (simp add: sample_budget_def)

text \<open>
  C18: Throttling neither queries nor loses anything. After a query at time \<open>t0\<close> returned a
  double, asking again on the same object before the query interval is over makes no call,
  leaves the object as it is, and returns exactly the same number: printing the spend into
  \<open>status.lastObservedSpendUSD\<close> and parsing it back is the identity.
\<close>

theorem throttled_spend_is_the_last_spend:
  assumes "resolveNamespaceSpendUSD r bn t0 h = (Inr spend, bn1, h1)" "h1 \<noteq> h" "is_f64 spend"
    and "time_before t1 (time_add t0 (costBudgetQueryInterval (spec_CostBudget (bn_Spec bn))))"
  shows "resolveNamespaceSpendUSD r bn1 t1 h2 = (Inr spend, bn1, h2)"
proof -
  have en: "costBudgetEnabled (bn_Spec bn)"
    using assms(1,2) resolve_disabled [of bn r t0 h] by auto
  have valid: "validateCostBudgetSpec (bn_Spec bn) = None"
    using assms(1,2) en
    by (cases "validateCostBudgetSpec (bn_Spec bn)")
       (auto simp: resolveNamespaceSpendUSD_def split: option.splits)
  from resolve_cases [OF assms(1)] assms(2) obtain q where
    "r_SpendQuerier r = Some q" "bn1 = with_spend spend t0 bn" by auto
  with en valid assms(3,4) show ?thesis
    by (simp add: resolveNamespaceSpendUSD_def parse_format_float)
qed

theorem throttled_spend_is_the_last_spend_witness:
  "\<exists>bn1 h1. resolveNamespaceSpendUSD sample_reconciler bn1 (30 * second) h1 = (Inr (Fin 2), bn1, h1) \<and>
     CBqNext 0 \<in> set h1"
proof -
  let ?bn = "sample_bn_of (sample_spec\<lparr>spec_CostBudget := Some sample_budget\<rparr>)"
  obtain bn1 h1 where run: "resolveNamespaceSpendUSD sample_reconciler ?bn 0 [] = (Inr (Fin 2), bn1, h1)"
    "CBqNext 0 \<in> set h1"
    using sample_resolve by blast
  have "repr 2" unfolding repr_def by (intro exI [of _ 2] exI [of _ 0]) simp
  then have f: "is_f64 (Fin 2)" by (simp add: f64_top_def)
  have "h1 \<noteq> []" using run(2) by auto
  from throttled_spend_is_the_last_spend [OF run(1) this f, of "30 * second" h1]
  have "resolveNamespaceSpendUSD sample_reconciler bn1 (30 * second) h1 = (Inr (Fin 2), bn1, h1)"
    by (auto simp: sample_bn_of_def sample_interval time_ops second_def minute_def)
  with run(2) show ?thesis by blast
qed

text \<open>
  C30: What reading the spend may touch. With the querier that the operator is started with,
  or with none, \<open>resolveNamespaceSpendUSD\<close> only reads the clock and BigQuery. It changes
  nothing of the BudgetNamespace but the two status fields of the query, and these only when
  it returns the amount that it writes there; an error leaves the object untouched.
\<close>

theorem spend_changes_only_its_status:
  assumes "resolveNamespaceSpendUSD (newReconciler env recorder clientOk) bn t h = (res, bn', h')"
  shows "(\<exists>cs. h' = h @ cs \<and> list_all spend_call cs) \<and>
    (bn' = bn \<or> (\<exists>x. res = Inr x \<and>
       bn' = bn\<lparr>bn_Status := (bn_Status bn)\<lparr>st_LastCostQueryAt := Some t,
               st_LastObservedSpendUSD := formatFloat64 x\<rparr>\<rparr>))"
  using wired.resolve_history [OF assms] resolve_cases [OF assms]
  by (auto simp: grows_def with_spend_def split: sum.splits)

theorem spend_changes_only_its_status_witness:
  "\<exists>bn' h'. resolveNamespaceSpendUSD sample_reconciler
      (sample_bn_of (sample_spec\<lparr>spec_CostBudget := Some sample_budget\<rparr>)) 0 [] = (Inr (Fin 2), bn', h') \<and>
    list_all spend_call h'"
proof -
  obtain bn' h' where run: "resolveNamespaceSpendUSD sample_reconciler
      (sample_bn_of (sample_spec\<lparr>spec_CostBudget := Some sample_budget\<rparr>)) 0 [] = (Inr (Fin 2), bn', h')"
    using sample_resolve by blast
  with spend_changes_only_its_status [of "sample_env sample_state" True True, folded sample_reconciler_def, OF run]
  show ?thesis by auto
qed

end
