(* ===== verification/Namespace_Setup.thy ===== *)
theory Namespace_Setup
  imports Sample_Environment "HOL-Library.Multiset"
begin

text \<open>
  The part of \<open>Reconcile\<close> in \<open>internal/controller/budgetnamespace_controller.go\<close> that
  brings the managed Namespace, its ResourceQuota and its LimitRange to the desired state,
  and the check of the quota's usage. The mutate functions that the code passes to
  \<open>CreateOrPatch\<close> and \<open>CreateOrUpdate\<close> are the functions inside the calls.
\<close>

section \<open>Constants\<close>

definition resourceQuotaName :: string where
  "resourceQuotaName = ''costguard-quota''"

definition limitRangeName :: string where
  "limitRangeName = ''costguard-limitrange''"

section \<open>The Namespace\<close>

text \<open>\<open>maps.Copy(dst, src)\<close> after \<open>dst\<close> was made if it was nil.\<close>

definition mergeInto :: "string go_map \<Rightarrow> string go_map \<Rightarrow> string go_map" where
  "mergeInto src dst = (case src of None \<Rightarrow> dst | Some m \<Rightarrow> Some (map_made dst ++ m))"

definition mutateNamespace :: "bn_spec \<Rightarrow> k8s_namespace \<Rightarrow> k8s_namespace" where
  "mutateNamespace spec n =
     n\<lparr>ns_Labels := mergeInto (spec_Labels spec) (ns_Labels n),
       ns_Annotations := mergeInto (spec_Annotations spec) (ns_Annotations n)\<rparr>"

definition ensureNamespace :: "'q env \<Rightarrow> bn_spec \<Rightarrow> 'q hist \<Rightarrow> unit go_result \<times> 'q hist" where
  "ensureNamespace env spec h =
     (let namespace = \<lparr>ns_Name = spec_NamespaceName spec, ns_Labels = None, ns_Annotations = None\<rparr> in
      case createOrPatchNamespace env namespace (mutateNamespace spec) h of
        (Some err, h1) \<Rightarrow> (Inl (Wrapf ''ensure namespace %q: %w'' [FStr (spec_NamespaceName spec)] err), h1)
      | (None, h1) \<Rightarrow> (Inr (), h1))"

section \<open>The ResourceQuota\<close>

definition parseQuantity :: "'q env \<Rightarrow> string \<Rightarrow> string \<Rightarrow> 'q go_result" where
  "parseQuantity env message s =
     (case env_parseQuantity env s of Inl err \<Rightarrow> Inl (Wrapf message [] err) | Inr q \<Rightarrow> Inr q)"

text \<open>\<open>resource.MustParse(fmt.Sprintf("%d", n))\<close>.\<close>

definition mustParseCount :: "'q env \<Rightarrow> int32 \<Rightarrow> 'q go_result" where
  "mustParseCount env n =
     (case env_mustParse env (format_int (sint n)) of
        None \<Rightarrow> Inl (GoPanic ''resource.MustParse'')
      | Some q \<Rightarrow> Inr q)"

definition quotaHard :: "'q env \<Rightarrow> quota_spec \<Rightarrow> 'q resource_list go_result" where
  "quotaHard env q =
     (case parseQuantity env ''parse quota.cpu: %w'' (quota_CPU q) of Inl err \<Rightarrow> Inl err
      | Inr requestCPU \<Rightarrow>
        case parseQuantity env ''parse quota.memory: %w'' (quota_Memory q) of Inl err \<Rightarrow> Inl err
      | Inr requestMemory \<Rightarrow>
        case parseQuantity env ''parse quota.storage: %w'' (quota_Storage q) of Inl err \<Rightarrow> Inl err
      | Inr requestStorage \<Rightarrow>
        case mustParseCount env (quota_PersistentVolumeClaims q) of Inl err \<Rightarrow> Inl err
      | Inr pvcCount \<Rightarrow>
        case mustParseCount env (quota_Pods q) of Inl err \<Rightarrow> Inl err
      | Inr podCount \<Rightarrow>
        Inr [(''requests.cpu'', requestCPU), (''requests.memory'', requestMemory),
             (''requests.storage'', requestStorage), (''persistentvolumeclaims'', pvcCount),
             (''pods'', podCount)])"

definition mutateQuota :: "'q resource_list \<Rightarrow> 'q resource_quota \<Rightarrow> 'q resource_quota" where
  "mutateQuota hard rq = rq\<lparr>rq_Hard := hard\<rparr>"

definition applyResourceQuota :: "'q env \<Rightarrow> bn_spec \<Rightarrow> 'q hist \<Rightarrow> unit go_result \<times> 'q hist" where
  "applyResourceQuota env spec h =
     (case quotaHard env (spec_Quota spec) of
        Inl err \<Rightarrow> (Inl err, h)
      | Inr hard \<Rightarrow>
        let resourceQuota = \<lparr>rq_Name = resourceQuotaName, rq_Namespace = spec_NamespaceName spec,
              rq_Hard = hard, rq_Used = []\<rparr> in
        case createOrUpdateQuota env resourceQuota (mutateQuota hard) h of
          (Some err, h1) \<Rightarrow>
            (Inl (Wrapf ''apply ResourceQuota in namespace %q: %w'' [FStr (spec_NamespaceName spec)] err), h1)
        | (None, h1) \<Rightarrow> (Inr (), h1))"

section \<open>The LimitRange\<close>

definition limitItems :: "'q env \<Rightarrow> defaults_spec \<Rightarrow> 'q limit_range_item list go_result" where
  "limitItems env d =
     (case parseQuantity env ''parse defaults.requestCPU: %w'' (defaults_RequestCPU d) of Inl err \<Rightarrow> Inl err
      | Inr requestCPUDefault \<Rightarrow>
        case parseQuantity env ''parse defaults.requestMemory: %w'' (defaults_RequestMemory d) of Inl err \<Rightarrow> Inl err
      | Inr requestMemoryDefault \<Rightarrow>
        case parseQuantity env ''parse defaults.limitCPU: %w'' (defaults_LimitCPU d) of Inl err \<Rightarrow> Inl err
      | Inr limitCPUDefault \<Rightarrow>
        case parseQuantity env ''parse defaults.limitMemory: %w'' (defaults_LimitMemory d) of Inl err \<Rightarrow> Inl err
      | Inr limitMemoryDefault \<Rightarrow>
        Inr [\<lparr>lri_Type = ''Container'',
              lri_DefaultRequest = [(''cpu'', requestCPUDefault), (''memory'', requestMemoryDefault)],
              lri_Default = [(''cpu'', limitCPUDefault), (''memory'', limitMemoryDefault)]\<rparr>])"

definition mutateLimits :: "'q limit_range_item list \<Rightarrow> 'q limit_range \<Rightarrow> 'q limit_range" where
  "mutateLimits items lr = lr\<lparr>lr_Limits := items\<rparr>"

definition applyLimitRange :: "'q env \<Rightarrow> bn_spec \<Rightarrow> 'q hist \<Rightarrow> unit go_result \<times> 'q hist" where
  "applyLimitRange env spec h =
     (case limitItems env (spec_Defaults spec) of
        Inl err \<Rightarrow> (Inl err, h)
      | Inr items \<Rightarrow>
        let limitRange = \<lparr>lr_Name = limitRangeName, lr_Namespace = spec_NamespaceName spec,
              lr_Limits = items\<rparr> in
        case createOrUpdateLimits env limitRange (mutateLimits items) h of
          (Some err, h1) \<Rightarrow>
            (Inl (Wrapf ''apply LimitRange in namespace %q: %w'' [FStr (spec_NamespaceName spec)] err), h1)
        | (None, h1) \<Rightarrow> (Inr (), h1))"

definition ensureResources :: "'q env \<Rightarrow> bn_spec \<Rightarrow> 'q hist \<Rightarrow> unit go_result \<times> 'q hist" where
  "ensureResources env spec h =
     go_bind (ensureNamespace env spec h) (\<lambda>_ h1.
     go_bind (applyResourceQuota env spec h1) (\<lambda>_ h2. applyLimitRange env spec h2))"

section \<open>The quota's usage\<close>

text \<open>The \<open>range\<close> loop over the hard limits, in the order of the list.\<close>

fun quotaLoop :: "'q env \<Rightarrow> 'q resource_list \<Rightarrow> 'q resource_list \<Rightarrow> bool" where
  "quotaLoop env used [] = False"
| "quotaLoop env used ((name, hardQty) # hard) =
     (case map_of used name of
        None \<Rightarrow> quotaLoop env used hard
      | Some usedQty \<Rightarrow> if 0 \<le> env_cmp env usedQty hardQty then True else quotaLoop env used hard)"

definition quotaUsedAtOrOverHard :: "'q env \<Rightarrow> 'q resource_quota \<Rightarrow> bool" where
  "quotaUsedAtOrOverHard env rq = quotaLoop env (rq_Used rq) (rq_Hard rq)"

section \<open>Lemmas\<close>

fun setup_call :: "'q call \<Rightarrow> bool" where
  "setup_call (CCreateOrPatchNamespace n f) = True"
| "setup_call (CCreateOrUpdateQuota rq f) = True"
| "setup_call (CCreateOrUpdateLimits lr f) = True"
| "setup_call _ = False"

lemma ensureNamespace_grows [grow_intros]: "grows setup_call h (snd (ensureNamespace env spec h))"
  by (auto simp: ensureNamespace_def call_defs Let_def grows_snoc split: option.splits)

lemma applyResourceQuota_grows [grow_intros]: "grows setup_call h (snd (applyResourceQuota env spec h))"
  by (auto simp: applyResourceQuota_def call_defs Let_def grows_snoc split: option.splits sum.splits)

lemma applyLimitRange_grows [grow_intros]: "grows setup_call h (snd (applyLimitRange env spec h))"
  by (auto simp: applyLimitRange_def call_defs Let_def grows_snoc split: option.splits sum.splits)

lemma ensureResources_grows [grow_intros]: "grows setup_call h (snd (ensureResources env spec h))"
  unfolding ensureResources_def by (intro grow_intros)

lemma quotaLoop_iff:
  "quotaLoop env used hard \<longleftrightarrow>
   (\<exists>(name, limit) \<in> set hard. \<exists>u. map_of used name = Some u \<and> 0 \<le> env_cmp env u limit)"
  by (induction hard) (auto split: option.splits)

lemma mergeInto_lookup:
  "map_lookup (mergeInto src dst) k =
   (case map_lookup src k of None \<Rightarrow> map_lookup dst k | Some v \<Rightarrow> Some v)"
  by (auto simp: mergeInto_def map_add_def split: option.splits)

lemma mergeInto_twice [simp]: "mergeInto src (mergeInto src dst) = mergeInto src dst"
  by (auto simp: mergeInto_def map_add_def intro!: ext split: option.splits)

lemma parseQuantity_ok: "parseQuantity env msg s = Inr q \<longleftrightarrow> env_parseQuantity env s = Inr q"
  by (simp add: parseQuantity_def split: sum.splits)

lemma quotaHard_ok:
  "quotaHard env q = Inr hard \<longleftrightarrow>
   (\<exists>cpu mem sto pvc pods. env_parseQuantity env (quota_CPU q) = Inr cpu \<and>
      env_parseQuantity env (quota_Memory q) = Inr mem \<and> env_parseQuantity env (quota_Storage q) = Inr sto \<and>
      env_mustParse env (format_int (sint (quota_PersistentVolumeClaims q))) = Some pvc \<and>
      env_mustParse env (format_int (sint (quota_Pods q))) = Some pods \<and>
      hard = [(''requests.cpu'', cpu), (''requests.memory'', mem), (''requests.storage'', sto),
              (''persistentvolumeclaims'', pvc), (''pods'', pods)])"
  by (auto simp: quotaHard_def mustParseCount_def parseQuantity_def split: sum.splits option.splits)

lemma limitItems_ok:
  "limitItems env d = Inr items \<longleftrightarrow>
   (\<exists>rc rm lc lm. env_parseQuantity env (defaults_RequestCPU d) = Inr rc \<and>
      env_parseQuantity env (defaults_RequestMemory d) = Inr rm \<and>
      env_parseQuantity env (defaults_LimitCPU d) = Inr lc \<and>
      env_parseQuantity env (defaults_LimitMemory d) = Inr lm \<and>
      items = [\<lparr>lri_Type = ''Container'', lri_DefaultRequest = [(''cpu'', rc), (''memory'', rm)],
                lri_Default = [(''cpu'', lc), (''memory'', lm)]\<rparr>])"
  by (auto simp: limitItems_def parseQuantity_def split: sum.splits)

lemma ensureResources_steps:
  "ensureResources env spec h = (Inr (), h') \<longleftrightarrow>
   (\<exists>hard items. quotaHard env (spec_Quota spec) = Inr hard \<and> limitItems env (spec_Defaults spec) = Inr items \<and>
      (let c1 = CCreateOrPatchNamespace
             \<lparr>ns_Name = spec_NamespaceName spec, ns_Labels = None, ns_Annotations = None\<rparr> (mutateNamespace spec);
           rq = \<lparr>rq_Name = resourceQuotaName, rq_Namespace = spec_NamespaceName spec, rq_Hard = hard, rq_Used = []\<rparr>;
           lr = \<lparr>lr_Name = limitRangeName, lr_Namespace = spec_NamespaceName spec, lr_Limits = items\<rparr>;
           c2 = CCreateOrUpdateQuota rq (mutateQuota hard); c3 = CCreateOrUpdateLimits lr (mutateLimits items)
       in env_createOrPatchNamespace env h
            \<lparr>ns_Name = spec_NamespaceName spec, ns_Labels = None, ns_Annotations = None\<rparr> (mutateNamespace spec) = None \<and>
          env_createOrUpdateQuota env (h @ [c1]) rq (mutateQuota hard) = None \<and>
          env_createOrUpdateLimits env (h @ [c1, c2]) lr (mutateLimits items) = None \<and>
          h' = h @ [c1, c2, c3]))"
  by (auto simp: ensureResources_def ensureNamespace_def applyResourceQuota_def applyLimitRange_def
      call_defs Let_def go_bind_ok_iff split: option.splits sum.splits)

section \<open>Properties\<close>

text \<open>
  Ensuring the Namespace merges. Whatever Namespace exists on the server, the mutate
  function gives it every label and annotation of the spec, keeps all its other ones and its
  name, and applied again changes nothing.
\<close>

theorem namespace_merge_keeps_the_rest:
  "ns_Name (mutateNamespace spec n) = ns_Name n \<and>
   (\<forall>k. map_lookup (ns_Labels (mutateNamespace spec n)) k =
      (case map_lookup (spec_Labels spec) k of None \<Rightarrow> map_lookup (ns_Labels n) k | Some v \<Rightarrow> Some v)) \<and>
   (\<forall>k. map_lookup (ns_Annotations (mutateNamespace spec n)) k =
      (case map_lookup (spec_Annotations spec) k of None \<Rightarrow> map_lookup (ns_Annotations n) k | Some v \<Rightarrow> Some v)) \<and>
   mutateNamespace spec (mutateNamespace spec n) = mutateNamespace spec n"
  by (simp add: mutateNamespace_def mergeInto_lookup)

text \<open>
  C31: When the three objects are ensured without an error, exactly three writes were made, in
  the order Namespace, ResourceQuota, LimitRange, all for the namespace of the spec; the two
  mutate functions set the hard limits and the container defaults to the parsed quantities of
  the spec, whatever object they find, and keep the rest of it.
\<close>

theorem ensureResources_writes:
  assumes "ensureResources env spec h = (Inr (), h')"
  shows "\<exists>cpu mem sto pvc pods rc rm lc lm n f rq g lr k.
    env_parseQuantity env (quota_CPU (spec_Quota spec)) = Inr cpu \<and>
    env_parseQuantity env (quota_Memory (spec_Quota spec)) = Inr mem \<and>
    env_parseQuantity env (quota_Storage (spec_Quota spec)) = Inr sto \<and>
    env_mustParse env (format_int (sint (quota_PersistentVolumeClaims (spec_Quota spec)))) = Some pvc \<and>
    env_mustParse env (format_int (sint (quota_Pods (spec_Quota spec)))) = Some pods \<and>
    env_parseQuantity env (defaults_RequestCPU (spec_Defaults spec)) = Inr rc \<and>
    env_parseQuantity env (defaults_RequestMemory (spec_Defaults spec)) = Inr rm \<and>
    env_parseQuantity env (defaults_LimitCPU (spec_Defaults spec)) = Inr lc \<and>
    env_parseQuantity env (defaults_LimitMemory (spec_Defaults spec)) = Inr lm \<and>
    h' = h @ [CCreateOrPatchNamespace n f, CCreateOrUpdateQuota rq g, CCreateOrUpdateLimits lr k] \<and>
    f = mutateNamespace spec \<and>
    ns_Name n = spec_NamespaceName spec \<and> rq_Namespace rq = spec_NamespaceName spec \<and>
    lr_Namespace lr = spec_NamespaceName spec \<and>
    (\<forall>q. g q = q\<lparr>rq_Hard := [(''requests.cpu'', cpu), (''requests.memory'', mem), (''requests.storage'', sto),
              (''persistentvolumeclaims'', pvc), (''pods'', pods)]\<rparr>) \<and>
    (\<forall>l. k l = l\<lparr>lr_Limits := [\<lparr>lri_Type = ''Container'',
              lri_DefaultRequest = [(''cpu'', rc), (''memory'', rm)],
              lri_Default = [(''cpu'', lc), (''memory'', lm)]\<rparr>]\<rparr>)"
  using assms
  by (auto simp: ensureResources_steps quotaHard_ok limitItems_ok Let_def mutateQuota_def mutateLimits_def)

theorem ensureResources_writes_witness:
  "\<exists>n f rq g lr k. ensureResources (sample_env sample_state) sample_spec [] =
     (Inr (), [CCreateOrPatchNamespace n f, CCreateOrUpdateQuota rq g, CCreateOrUpdateLimits lr k]) \<and>
     rq_Hard (g rq) = [(''requests.cpu'', 4), (''requests.memory'', 8), (''requests.storage'', 20),
       (''persistentvolumeclaims'', 5), (''pods'', 10)]"
proof -
  have p: "parseInt32 ''4'' = Inr 4" "parseInt32 ''8'' = Inr 8" "parseInt32 ''20'' = Inr 20"
    "parseInt32 ''1'' = Inr 1" "parseInt32 ''2'' = Inr 2"
    by (simp_all add: parse_int_eval)
  have "\<exists>h'. ensureResources (sample_env sample_state) sample_spec [] = (Inr (), h')"
    by (simp add: ensureResources_steps quotaHard_ok limitItems_ok Let_def sample_spec_def p parseInt32_format_int)
  then obtain h' where run: "ensureResources (sample_env sample_state) sample_spec [] = (Inr (), h')" by blast
  from ensureResources_writes [OF run] obtain n f rq g lr k where
    "h' = [CCreateOrPatchNamespace n f, CCreateOrUpdateQuota rq g, CCreateOrUpdateLimits lr k]"
    "g rq = rq\<lparr>rq_Hard := [(''requests.cpu'', 4), (''requests.memory'', 8), (''requests.storage'', 20),
       (''persistentvolumeclaims'', 5), (''pods'', 10)]\<rparr>"
    by (simp add: sample_spec_def p parseInt32_format_int) metis
  then show ?thesis
    by (intro exI [of _ n] exI [of _ f] exI [of _ rq] exI [of _ g] exI [of _ lr] exI [of _ k])
       (simp add: run)
qed

text \<open>
  C32: The usage check does not depend on the order in which Go visits the two maps. It
  answers true exactly when some hard limit has a reported usage that is not below it;
  limits without a reported usage are skipped.
\<close>

theorem quota_check_any_order:
  assumes "mset hard = mset (rq_Hard rq)" "map_of used = map_of (rq_Used rq)"
  shows "quotaUsedAtOrOverHard env (rq\<lparr>rq_Hard := hard, rq_Used := used\<rparr>) = quotaUsedAtOrOverHard env rq \<and>
    (quotaUsedAtOrOverHard env rq \<longleftrightarrow>
     (\<exists>name limit u. (name, limit) \<in> set (rq_Hard rq) \<and> map_of (rq_Used rq) name = Some u \<and>
        0 \<le> env_cmp env u limit))"
  using assms(2) mset_eq_setD [OF assms(1)]
  by (auto simp: quotaUsedAtOrOverHard_def quotaLoop_iff)

theorem quota_check_any_order_witness:
  "quotaUsedAtOrOverHard (sample_env sample_state)
     \<lparr>rq_Name = [], rq_Namespace = [], rq_Hard = [(''pods'', 10), (''requests.cpu'', 4)],
      rq_Used = [(''pods'', 10)]\<rparr>"
proof -
  let ?rq = "\<lparr>rq_Name = [], rq_Namespace = [], rq_Hard = [(''requests.cpu'', 4), (''pods'', 10 :: int)],
    rq_Used = [(''pods'', 10)]\<rparr>"
  have "quotaUsedAtOrOverHard (sample_env sample_state) ?rq"
    by (simp add: quotaUsedAtOrOverHard_def)
  then show ?thesis
    using quota_check_any_order [of "[(''pods'', 10), (''requests.cpu'', 4)]" ?rq "[(''pods'', 10)]"
        "sample_env sample_state"] by simp
qed

end
