(* ===== verification/Reconcile_TTL.thy ===== *)
theory Reconcile_TTL
  imports Namespace_Setup
begin

text \<open>
  The time-to-live part of \<open>Reconcile\<close> in
  \<open>internal/controller/budgetnamespace_controller.go\<close>: from \<open>spec.ttl\<close> and the creation
  time to expired, deleting and the time of the next reconcile; and the deletion.
\<close>

definition ttlDeleteGracePeriod :: duration where
  "ttlDeleteGracePeriod = 10 * second"

text \<open>The variables of the block, with their zero values when there is no TTL.\<close>

record ttl_state =
  ttl_expired :: bool
  ttl_deleting :: bool
  ttl_expiresAt :: "go_time option"
  ttl_deleteAfterTTL :: go_time
  ttl_requeueAfterTTL :: duration

definition no_ttl :: ttl_state where
  "no_ttl = \<lparr>ttl_expired = False, ttl_deleting = False, ttl_expiresAt = None,
     ttl_deleteAfterTTL = zero_time, ttl_requeueAfterTTL = 0\<rparr>"

text \<open>\<open>t\<close> is the local variable \<open>now\<close>; \<open>time.Until\<close> reads the clock again.\<close>

definition evaluateTTL :: "'q env \<Rightarrow> budget_namespace \<Rightarrow> go_time \<Rightarrow> 'q hist \<Rightarrow> ttl_state go_result \<times> 'q hist" where
  "evaluateTTL env bn t h =
     (let s = spec_TTL (bn_Spec bn) in
      if s = [] then (Inr no_ttl, h)
      else case parseDuration s of
        Inl err \<Rightarrow> (Inl (Wrapf ''parse spec.ttl %q: %w'' [FStr s] err), h)
      | Inr ttlDuration \<Rightarrow>
        let expiry = time_add (bn_CreationTimestamp bn) ttlDuration;
            deleteAfterTTL = time_add expiry ttlDeleteGracePeriod;
            expired = (\<not> time_before t expiry);
            deleting = (expired \<and> \<not> time_before t deleteAfterTTL);
            target = (if \<not> expired then expiry else if \<not> deleting then deleteAfterTTL else zero_time);
            state = \<lparr>ttl_expired = expired, ttl_deleting = deleting, ttl_expiresAt = Some expiry,
              ttl_deleteAfterTTL = deleteAfterTTL, ttl_requeueAfterTTL = 0\<rparr>
        in if \<not> is_zero_time target \<and> time_after target t then
             (case now env h of (u, h1) \<Rightarrow>
                (Inr (state\<lparr>ttl_requeueAfterTTL := min (time_sub target u) (10 * minute)\<rparr>), h1))
           else if deleting then (Inr (state\<lparr>ttl_requeueAfterTTL := 10 * second\<rparr>), h)
           else (Inr state, h))"

definition deleteExpired :: "'q env \<Rightarrow> bn_spec \<Rightarrow> 'q hist \<Rightarrow> unit go_result \<times> 'q hist" where
  "deleteExpired env spec h =
     (let namespace = \<lparr>ns_Name = spec_NamespaceName spec, ns_Labels = None, ns_Annotations = None\<rparr> in
      case deleteNamespace env namespace h of
        (None, h1) \<Rightarrow> (Inr (), h1)
      | (Some err, h1) \<Rightarrow>
        if \<not> env_isNotFound env err
        then (Inl (Wrapf ''delete expired namespace %q: %w'' [FStr (spec_NamespaceName spec)] err), h1)
        else (Inr (), h1))"

section \<open>Lemmas\<close>

fun clock_call :: "'q call \<Rightarrow> bool" where
  "clock_call CNow = True"
| "clock_call _ = False"

lemma evaluateTTL_grows [grow_intros]: "grows clock_call h (snd (evaluateTTL env bn t h))"
  by (auto simp: evaluateTTL_def call_defs Let_def grows_snoc split: sum.splits)

lemma deleteExpired_grows: "grows is_delete h (snd (deleteExpired env spec h))"
  by (auto simp: deleteExpired_def call_defs Let_def grows_snoc split: option.splits)

text \<open>The instant at which a BudgetNamespace expires, if it has a TTL.\<close>

definition expiry_time :: "budget_namespace \<Rightarrow> go_time option" where
  "expiry_time bn =
     (if spec_TTL (bn_Spec bn) = [] then None
      else case parseDuration (spec_TTL (bn_Spec bn)) of
        Inl _ \<Rightarrow> None
      | Inr d \<Rightarrow> Some (bn_CreationTimestamp bn + d))"

definition expired_at :: "budget_namespace \<Rightarrow> go_time \<Rightarrow> bool" where
  "expired_at bn t \<longleftrightarrow> (case expiry_time bn of None \<Rightarrow> False | Some e \<Rightarrow> e \<le> t)"

definition delete_due_at :: "budget_namespace \<Rightarrow> go_time \<Rightarrow> bool" where
  "delete_due_at bn t \<longleftrightarrow> (case expiry_time bn of None \<Rightarrow> False | Some e \<Rightarrow> e + ttlDeleteGracePeriod \<le> t)"

lemma delete_due_expired: "delete_due_at bn t \<Longrightarrow> expired_at bn t"
  by (auto simp: delete_due_at_def expired_at_def ttlDeleteGracePeriod_def second_def split: option.splits)

lemma evaluateTTL_ok:
  assumes "evaluateTTL env bn t h = (Inr ttl, h')"
  shows "ttl_expired ttl = expired_at bn t" "ttl_deleting ttl = delete_due_at bn t"
    "ttl_expiresAt ttl = expiry_time bn"
    "spec_TTL (bn_Spec bn) = [] \<longleftrightarrow> expiry_time bn = None"
  using assms
  by (auto simp: evaluateTTL_def expired_at_def delete_due_at_def expiry_time_def call_defs Let_def
      time_ops no_ttl_def ttlDeleteGracePeriod_def second_def split: sum.splits if_splits)

text \<open>The requeue delay: until the next boundary, at most ten minutes.\<close>

lemma evaluateTTL_requeue:
  assumes "evaluateTTL env bn t h = (Inr ttl, h')"
  shows "ttl_requeueAfterTTL ttl \<le> 10 * minute"
    and "\<not> expired_at bn t \<Longrightarrow> expiry_time bn = Some e \<Longrightarrow> e \<noteq> zero_time \<Longrightarrow>
      h' = h @ [CNow] \<and> ttl_requeueAfterTTL ttl = min (time_sub e (env_clock env h)) (10 * minute)"
    and "delete_due_at bn t \<Longrightarrow> ttl_requeueAfterTTL ttl = 10 * second"
    and "expired_at bn t \<Longrightarrow> \<not> delete_due_at bn t \<Longrightarrow> expiry_time bn = Some e \<Longrightarrow>
      e + ttlDeleteGracePeriod \<noteq> zero_time \<Longrightarrow>
      h' = h @ [CNow] \<and> ttl_requeueAfterTTL ttl = min (time_sub (e + ttlDeleteGracePeriod) (env_clock env h)) (10 * minute)"
    and "expiry_time bn = None \<Longrightarrow> h' = h \<and> ttl_requeueAfterTTL ttl = 0"
  using assms
  by (auto simp: evaluateTTL_def expired_at_def delete_due_at_def expiry_time_def call_defs Let_def
      time_ops no_ttl_def ttlDeleteGracePeriod_def is_zero_time_def minute_def second_def
      split: sum.splits if_splits)

end
