(* ===== verification/Reconcile_Enforce.thy ===== *)
theory Reconcile_Enforce
  imports Enforcement Cost_Budget Reconcile_TTL
begin

text \<open>
  The enforcement part of \<open>Reconcile\<close> in
  \<open>internal/controller/budgetnamespace_controller.go\<close>: evaluating quota and cost, scaling to
  zero when the budget is at risk or in the grace period of an expired TTL, restoring when
  the risk is over, with the events that are recorded on the way.
\<close>

section \<open>Local variables and events\<close>

text \<open>The variables that the block shares with the rest of \<open>Reconcile\<close>.\<close>

record locals =
  lv_bn :: budget_namespace
  lv_lastEnfAt :: "go_time option"
  lv_lastEnfOp :: string
  lv_recoveryDeferred :: bool
  lv_quotaEvaluated :: bool
  lv_quotaAtHardLimit :: bool
  lv_costBudgetEvaluated :: bool
  lv_costOverBudget :: bool

definition initial_locals :: "budget_namespace \<Rightarrow> locals" where
  "initial_locals bn =
     \<lparr>lv_bn = bn, lv_lastEnfAt = st_LastEnforcementAt (bn_Status bn),
      lv_lastEnfOp = st_LastEnforcementOperation (bn_Status bn), lv_recoveryDeferred = False,
      lv_quotaEvaluated = False, lv_quotaAtHardLimit = False, lv_costBudgetEvaluated = False,
      lv_costOverBudget = False\<rparr>"

abbreviation lv_spec :: "locals \<Rightarrow> bn_spec" where
  "lv_spec lv \<equiv> bn_Spec (lv_bn lv)"

definition shouldScaleDeploymentsToZero :: "bn_spec \<Rightarrow> bool" where
  "shouldScaleDeploymentsToZero spec =
     (let enf = spec_Enforcement spec in
      if enf_Action enf = ''None'' then False
      else if \<not> enf_Enabled enf then False
      else enf_Action enf = [] \<or> enf_Action enf = enforcementOpScaleToZero)"

definition recordNormal :: "'q reconciler \<Rightarrow> string \<Rightarrow> go_text \<Rightarrow> 'q hist \<Rightarrow> 'q hist" where
  "recordNormal r reason message h =
     (if r_Recorder r then h @ [CEvent EventNormal reason message] else h)"

definition recordWarning :: "'q reconciler \<Rightarrow> string \<Rightarrow> go_text \<Rightarrow> 'q hist \<Rightarrow> 'q hist" where
  "recordWarning r reason message h =
     (if r_Recorder r then h @ [CEvent EventWarning reason message] else h)"

section \<open>Evaluating the budget\<close>

text \<open>The cooldown, the quota and the cost; returns the cooldown and the spend.\<close>

definition evaluateBudget ::
  "'q reconciler \<Rightarrow> 'q env \<Rightarrow> go_time \<Rightarrow> locals \<Rightarrow> 'q hist \<Rightarrow> (duration \<times> float64 \<times> locals) go_result \<times> 'q hist" where
  "evaluateBudget r env t lv h =
     (case enforcementCooldown (lv_spec lv) of
        Inl err \<Rightarrow> (Inl err, recordWarning r ''InvalidEnforcementCooldown'' (ErrorText err) h)
      | Inr cooldown \<Rightarrow>
        case getResourceQuota env (spec_NamespaceName (lv_spec lv)) resourceQuotaName h of
          (Inl err, h1) \<Rightarrow>
            (Inl (Wrapf ''get ResourceQuota %q for usage check: %w'' [FStr resourceQuotaName] err), h1)
        | (Inr rq, h1) \<Rightarrow>
          let lv1 = lv\<lparr>lv_quotaEvaluated := True, lv_quotaAtHardLimit := quotaUsedAtOrOverHard env rq\<rparr> in
          if costBudgetEnabled (lv_spec lv) then
            (case resolveNamespaceSpendUSD r (lv_bn lv) t h1 of
               (Inl err, bn, h2) \<Rightarrow> (Inl err, recordWarning r ''CostBudgetQueryFailed'' (ErrorText err) h2)
             | (Inr costSpend, bn, h2) \<Rightarrow>
               (case costBudgetMaxUSD (spec_CostBudget (lv_spec lv)) of
                  Inl perr \<Rightarrow> (Inl perr, h2)
                | Inr maxUSD \<Rightarrow>
                    (Inr (cooldown, costSpend,
                          lv1\<lparr>lv_bn := bn, lv_costBudgetEvaluated := True,
                              lv_costOverBudget := spendAtOrOverMax costSpend maxUSD\<rparr>), h2)))
          else (Inr (cooldown, Fin 0, lv1), h1))"

section \<open>Scaling to zero\<close>

text \<open>The call of \<open>scaleWorkloadsToZero\<close> and what follows it, at both of its call sites.\<close>

definition scaleDown ::
  "'q reconciler \<Rightarrow> 'q env \<Rightarrow> (int \<Rightarrow> go_text) \<Rightarrow> locals \<Rightarrow> 'q hist \<Rightarrow> locals go_result \<times> 'q hist" where
  "scaleDown r env message lv h =
     (case scaleWorkloadsToZero env (spec_NamespaceName (lv_spec lv)) h of
        ((n, Some err), h1) \<Rightarrow> (Inl err, recordWarning r ''ScaleToZeroFailed'' (ErrorText err) h1)
      | ((n, None), h1) \<Rightarrow>
        if 0 < n then
          (case now env h1 of (u, h2) \<Rightarrow>
             (Inr (lv\<lparr>lv_lastEnfAt := Some u, lv_lastEnfOp := enforcementOpScaleToZero\<rparr>),
              recordNormal r ''ScaledToZero'' (message n) h2))
        else (Inr lv, h1))"

definition scaleAtRisk :: "'q reconciler \<Rightarrow> 'q env \<Rightarrow> locals \<Rightarrow> 'q hist \<Rightarrow> locals go_result \<times> 'q hist" where
  "scaleAtRisk r env lv h =
     (let reason = enforcementScaleReason (lv_quotaAtHardLimit lv) (lv_costOverBudget lv) in
      scaleDown r env (\<lambda>n. Sprintf ''Scaled %d workload(s) to zero (%s)'' [FInt n, FStr reason]) lv h)"

definition scaleInGrace :: "'q reconciler \<Rightarrow> 'q env \<Rightarrow> locals \<Rightarrow> 'q hist \<Rightarrow> locals go_result \<times> 'q hist" where
  "scaleInGrace r env lv h =
     scaleDown r env (\<lambda>n. Sprintf ''Scaled %d workload(s) to zero (TTL grace)'' [FInt n]) lv h"

section \<open>Restoring\<close>

definition restoreNow :: "'q reconciler \<Rightarrow> 'q env \<Rightarrow> locals \<Rightarrow> 'q hist \<Rightarrow> locals go_result \<times> 'q hist" where
  "restoreNow r env lv h =
     (case restoreScaledWorkloads env (spec_NamespaceName (lv_spec lv)) h of
        ((n, Some err), h1) \<Rightarrow> (Inl err, recordWarning r ''RestoreFailed'' (ErrorText err) h1)
      | ((n, None), h1) \<Rightarrow>
        if 0 < n then
          (case now env h1 of (u, h2) \<Rightarrow>
             (Inr (lv\<lparr>lv_lastEnfAt := Some u, lv_lastEnfOp := enforcementOpRestore\<rparr>),
              recordNormal r ''RestoredReplicas''
                (Sprintf ''Restored %d workload(s) from saved replica counts'' [FInt n]) h2))
        else (Inr lv, h1))"

text \<open>\<open>lastEnfAt.Add(cooldown)\<close> panics when \<open>lastEnfAt\<close> is nil.\<close>

definition deferRestore ::
  "'q reconciler \<Rightarrow> go_time \<Rightarrow> duration \<Rightarrow> locals \<Rightarrow> 'q hist \<Rightarrow> locals go_result \<times> 'q hist" where
  "deferRestore r t cooldown lv h =
     (case lv_lastEnfAt lv of
        None \<Rightarrow> (Inl (GoPanic ''invalid memory address or nil pointer dereference''), h)
      | Some lastEnfAt \<Rightarrow>
        let remaining = max (time_sub (time_add lastEnfAt cooldown) t) 0;
            msg = Sprintf ''Restore deferred for %s (enforcement cooldown after scale-to-zero)''
                    [FDur (truncate_duration remaining second)]
        in (Inr (lv\<lparr>lv_recoveryDeferred := True\<rparr>), recordNormal r ''RecoveryDeferred'' msg h))"

definition recoverWorkloads ::
  "'q reconciler \<Rightarrow> 'q env \<Rightarrow> go_time \<Rightarrow> duration \<Rightarrow> float64 \<Rightarrow> locals \<Rightarrow> 'q hist \<Rightarrow> locals go_result \<times> 'q hist" where
  "recoverWorkloads r env t cooldown costSpend lv h =
     (case workloadsPendingRestore env (spec_NamespaceName (lv_spec lv)) h of
        (Inl err, h1) \<Rightarrow> (Inl err, h1)
      | (Inr pending, h1) \<Rightarrow>
        if pending then
          (case withinCostBudgetForRestore (lv_spec lv) costSpend of
             Inl err \<Rightarrow> (Inl err, h1)
           | Inr okCost \<Rightarrow>
             if \<not> okCost then
               (Inr lv, recordNormal r ''RecoveryDeferred''
                          (lit ''Restore deferred: billed spend is still at or above maxSpendUSD'') h1)
             else if canRestoreAfterScaleDown (lv_lastEnfOp lv) (lv_lastEnfAt lv) cooldown t
             then restoreNow r env lv h1
             else deferRestore r t cooldown lv h1)
        else (Inr lv, h1))"

section \<open>The block\<close>

definition enforceBudget :: "'q reconciler \<Rightarrow> 'q env \<Rightarrow> go_time \<Rightarrow> locals \<Rightarrow> 'q hist \<Rightarrow> locals go_result \<times> 'q hist" where
  "enforceBudget r env t lv h =
     go_bind (evaluateBudget r env t lv h) (\<lambda>(cooldown, costSpend, lv1) h1.
       let atBudgetRisk = (lv_quotaAtHardLimit lv1 \<or> lv_costOverBudget lv1) in
       if atBudgetRisk then scaleAtRisk r env lv1 h1
       else if restoreOnRecoveryEnabled (lv_spec lv1)
       then recoverWorkloads r env t cooldown costSpend lv1 h1
       else (Inr lv1, h1))"

text \<open>The three-way branch of \<open>Reconcile\<close> on the TTL state.\<close>

definition reconcileWorkloads ::
  "'q reconciler \<Rightarrow> 'q env \<Rightarrow> go_time \<Rightarrow> ttl_state \<Rightarrow> locals \<Rightarrow> 'q hist \<Rightarrow> locals go_result \<times> 'q hist" where
  "reconcileWorkloads r env t ttl lv h =
     (if \<not> ttl_expired ttl then
        go_bind (ensureResources env (lv_spec lv) h) (\<lambda>_ h1.
          if shouldScaleDeploymentsToZero (lv_spec lv) then enforceBudget r env t lv h1
          else (Inr lv, h1))
      else if ttl_expired ttl \<and> \<not> ttl_deleting ttl \<and> shouldScaleDeploymentsToZero (lv_spec lv)
      then scaleInGrace r env lv h
      else if ttl_deleting ttl then
        go_bind (deleteExpired env (lv_spec lv) h) (\<lambda>_ h1. (Inr lv, h1))
      else (Inr lv, h))"

section \<open>Lemmas: evaluating the budget\<close>

text \<open>The calls of each part.\<close>

fun budget_call :: "'q call \<Rightarrow> bool" where
  "budget_call (CGetResourceQuota ns n) = True"
| "budget_call (CEvent typ reason msg) = True"
| "budget_call c = spend_call c"

definition scale_run_call :: "'q call \<Rightarrow> bool" where
  "scale_run_call c \<longleftrightarrow> scale_call c \<or> c = CNow \<or> is_event c"

definition restore_run_call :: "'q call \<Rightarrow> bool" where
  "restore_run_call c \<longleftrightarrow> restore_call c \<or> c = CNow \<or> is_event c"

lemma spend_budget_call: "spend_call c \<Longrightarrow> budget_call c"
  by (cases c) simp_all

lemma list_restore_call: "list_call c \<Longrightarrow> restore_call c"
  by (cases c) simp_all

lemma record_grows [grow_intros]:
  "(r_Recorder r \<Longrightarrow> P (CEvent EventNormal reason msg)) \<Longrightarrow> grows P h (recordNormal r reason msg h)"
  "(r_Recorder r \<Longrightarrow> P (CEvent EventWarning reason msg)) \<Longrightarrow> grows P h (recordWarning r reason msg h)"
  by (simp_all add: recordNormal_def recordWarning_def grows_snoc)

lemma record_grows_from:
  "grows P h h1 \<Longrightarrow> (r_Recorder r \<Longrightarrow> P (CEvent EventNormal reason msg)) \<Longrightarrow> grows P h (recordNormal r reason msg h1)"
  "grows P h h1 \<Longrightarrow> (r_Recorder r \<Longrightarrow> P (CEvent EventWarning reason msg)) \<Longrightarrow> grows P h (recordWarning r reason msg h1)"
  by (simp_all add: recordNormal_def recordWarning_def grows_snocI)

text \<open>
  What a successful evaluation has found: the cooldown and the quota, then nothing more
  without a cost budget, or the spend and the limit.
\<close>

lemma evaluateBudget_ok:
  assumes "evaluateBudget r env t lv h = (Inr (cooldown, spend, lv1), h')"
  obtains rq h1 where "enforcementCooldown (lv_spec lv) = Inr cooldown"
    "env_getResourceQuota env h (spec_NamespaceName (lv_spec lv)) resourceQuotaName = Inr rq"
    "h1 = h @ [CGetResourceQuota (spec_NamespaceName (lv_spec lv)) resourceQuotaName]"
    "\<not> costBudgetEnabled (lv_spec lv) \<and> spend = Fin 0 \<and> h' = h1 \<and>
       lv1 = lv\<lparr>lv_quotaEvaluated := True, lv_quotaAtHardLimit := quotaUsedAtOrOverHard env rq\<rparr>
     \<or> costBudgetEnabled (lv_spec lv) \<and>
       (\<exists>bn m. resolveNamespaceSpendUSD r (lv_bn lv) t h1 = (Inr spend, bn, h') \<and>
          costBudgetMaxUSD (spec_CostBudget (lv_spec lv)) = Inr m \<and>
          lv1 = lv\<lparr>lv_quotaEvaluated := True, lv_quotaAtHardLimit := quotaUsedAtOrOverHard env rq,
            lv_bn := bn, lv_costBudgetEvaluated := True, lv_costOverBudget := spendAtOrOverMax spend m\<rparr>)"
proof (cases "costBudgetEnabled (lv_spec lv)")
  case False
  with assms show ?thesis
    by (auto simp: evaluateBudget_def call_defs Let_def split: sum.splits intro: that)
next
  case True
  obtain res bn h2 where run: "resolveNamespaceSpendUSD r (lv_bn lv) t
      (h @ [CGetResourceQuota (spec_NamespaceName (lv_spec lv)) resourceQuotaName]) = (res, bn, h2)"
    by (metis surj_pair)
  show ?thesis
    using assms True run
    by (cases res) (auto simp: evaluateBudget_def call_defs Let_def split: sum.splits intro: that)
qed

lemma evaluateBudget_keeps:
  assumes "evaluateBudget r env t lv h = (Inr (cooldown, spend, lv1), h')"
  shows "lv_spec lv1 = lv_spec lv" "bn_Generation (lv_bn lv1) = bn_Generation (lv_bn lv)"
    "lv_lastEnfAt lv1 = lv_lastEnfAt lv" "lv_lastEnfOp lv1 = lv_lastEnfOp lv"
    "lv_recoveryDeferred lv1 = lv_recoveryDeferred lv" "lv_quotaEvaluated lv1"
    "st_Conditions (bn_Status (lv_bn lv1)) = st_Conditions (bn_Status (lv_bn lv))"
  by (rule evaluateBudget_ok [OF assms]; auto dest: resolve_keeps)+

context optional_spend_source
begin

lemma evaluateBudget_grows: "grows budget_call h (snd (evaluateBudget r env t lv h))"
proof (cases "enforcementCooldown (lv_spec lv)")
  case (Inl err)
  then show ?thesis by (simp add: evaluateBudget_def record_grows)
next
  case (Inr cooldown)
  let ?h1 = "h @ [CGetResourceQuota (spec_NamespaceName (lv_spec lv)) resourceQuotaName]"
  obtain res bn h2 where run: "resolveNamespaceSpendUSD r (lv_bn lv) t ?h1 = (res, bn, h2)"
    by (metis surj_pair)
  have g1: "grows budget_call h ?h1" by (simp add: grows_snoc)
  moreover have "grows budget_call ?h1 h2"
    using grows_mono [OF resolve_history [OF run]] spend_budget_call by blast
  ultimately have "grows budget_call h h2" by (rule grows_trans)
  with g1 Inr run show ?thesis
    by (auto simp: evaluateBudget_def call_defs Let_def record_grows_from split: sum.splits)
qed

end

section \<open>Lemmas: scaling and restoring\<close>

lemma scaleDown_grows: "grows scale_run_call h (snd (scaleDown r env message lv h))"
proof -
  obtain n e h1 where run: "scaleWorkloadsToZero env (spec_NamespaceName (lv_spec lv)) h = ((n, e), h1)"
    by (metis surj_pair)
  have g: "grows scale_run_call h h1"
    using grows_mono [OF scaleWorkloads_grows [of h env "spec_NamespaceName (lv_spec lv)"], of scale_run_call] run
    by (simp add: scale_run_call_def)
  show ?thesis
    using g by (cases e) (auto simp: scaleDown_def run call_defs scale_run_call_def
        intro!: record_grows_from grows_snocI)
qed

lemma restoreNow_grows: "grows restore_run_call h (snd (restoreNow r env lv h))"
proof -
  obtain n e h1 where run: "restoreScaledWorkloads env (spec_NamespaceName (lv_spec lv)) h = ((n, e), h1)"
    by (metis surj_pair)
  have g: "grows restore_run_call h h1"
    using grows_mono [OF restoreWorkloads_grows [of h env "spec_NamespaceName (lv_spec lv)"], of restore_run_call] run
    by (simp add: restore_run_call_def)
  show ?thesis
    using g by (cases e) (auto simp: restoreNow_def run call_defs restore_run_call_def
        intro!: record_grows_from grows_snocI)
qed

definition at_risk :: "locals \<Rightarrow> bool" where
  "at_risk lv \<longleftrightarrow> lv_quotaAtHardLimit lv \<or> lv_costOverBudget lv"

text \<open>A restore is allowed: the cost is below the limit, and the cooldown is over.\<close>

definition restore_allowed :: "locals \<Rightarrow> duration \<Rightarrow> float64 \<Rightarrow> go_time \<Rightarrow> bool" where
  "restore_allowed lv cooldown spend t \<longleftrightarrow>
     withinCostBudgetForRestore (lv_spec lv) spend = Inr True \<and>
     canRestoreAfterScaleDown (lv_lastEnfOp lv) (lv_lastEnfAt lv) cooldown t"

lemma canRestore_iff:
  "canRestoreAfterScaleDown lastOp lastAt cooldown t \<longleftrightarrow>
   \<not> (lastOp = ''ScaleToZero'' \<and> (\<exists>tm. lastAt = Some tm \<and> t < tm + cooldown))"
  by (auto simp: canRestoreAfterScaleDown_def enforcementOpScaleToZero_def time_ops split: option.splits)

text \<open>The calls of the enforcement parts; a patch only of the kind that is allowed.\<close>

fun work_call :: "'q call \<Rightarrow> bool" where
  "work_call (CListDeployments ns) = True"
| "work_call (CListStatefulSets ns) = True"
| "work_call (CPatchDeployment d d') = True"
| "work_call (CPatchStatefulSet s s') = True"
| "work_call c = budget_call c"

lemma work_call_kinds:
  "budget_call c \<Longrightarrow> work_call c \<and> \<not> is_patch c"
  "scale_run_call c \<Longrightarrow> work_call c \<and> (is_patch c \<longrightarrow> scale_call c)"
  "restore_run_call c \<Longrightarrow> work_call c \<and> (is_patch c \<longrightarrow> restore_call c)"
  "list_call c \<Longrightarrow> work_call c \<and> \<not> is_patch c"
  "work_call c \<Longrightarrow> \<not> setup_call c \<and> \<not> is_delete c \<and> \<not> is_status_update c"
  by (cases c; simp add: scale_run_call_def restore_run_call_def)+

text \<open>A patch that scales does not restore.\<close>

lemma scale_not_restore_call: "is_patch c \<Longrightarrow> scale_call c \<Longrightarrow> \<not> restore_call c"
  by (cases c) (auto dest!: dep.scaled_replicas depr.restored_positive sts.scaled_replicas stsr.restored_positive)

definition recover_call :: "bool \<Rightarrow> 'q call \<Rightarrow> bool" where
  "recover_call allowed c \<longleftrightarrow> work_call c \<and> (is_patch c \<longrightarrow> restore_call c \<and> allowed)"

lemma recoverWorkloads_grows:
  "grows (recover_call (restore_allowed lv cooldown spend t)) h
     (snd (recoverWorkloads r env t cooldown spend lv h))"
proof -
  let ?P = "recover_call (restore_allowed lv cooldown spend t)"
  have ev: "?P (CEvent e x m)" for e x m by (simp add: recover_call_def)
  obtain res h1 where pend: "workloadsPendingRestore env (spec_NamespaceName (lv_spec lv)) h = (res, h1)"
    by (metis surj_pair)
  have g: "grows ?P h h1"
    using grows_mono [OF pendingRestore_grows [of h env "spec_NamespaceName (lv_spec lv)"], of ?P] pend
      work_call_kinds(4) by (auto simp: recover_call_def)
  have restore: "grows ?P h (snd (restoreNow r env lv h1))" if "restore_allowed lv cooldown spend t"
  proof (rule grows_trans [OF g])
    show "grows ?P h1 (snd (restoreNow r env lv h1))"
      using grows_mono [OF restoreNow_grows, of ?P] that work_call_kinds(3) by (auto simp: recover_call_def)
  qed
  have deferred: "grows ?P h (snd (deferRestore r t cooldown lv h1))"
    by (cases "lv_lastEnfAt lv") (auto simp: deferRestore_def Let_def intro!: record_grows_from g ev)
  show ?thesis
  proof (cases "res = Inr True \<and> withinCostBudgetForRestore (lv_spec lv) spend = Inr True")
    case True
    with restore deferred show ?thesis
      by (cases "canRestoreAfterScaleDown (lv_lastEnfOp lv) (lv_lastEnfAt lv) cooldown t")
         (simp_all add: recoverWorkloads_def pend restore_allowed_def)
  next
    case False
    then show ?thesis
      by (cases res; cases "withinCostBudgetForRestore (lv_spec lv) spend")
         (auto simp: recoverWorkloads_def pend intro!: record_grows_from g ev)
  qed
qed

text \<open>
  What the block may do, given what the evaluation of the budget has found: scale down when
  the budget is at risk, restore when it is not and a restore is wanted and allowed.
\<close>

definition may_patch :: "(duration \<times> float64 \<times> locals) go_result \<Rightarrow> go_time \<Rightarrow> 'q call \<Rightarrow> bool" where
  "may_patch found t c =
     (case found of
        Inl _ \<Rightarrow> False
      | Inr (cooldown, spend, lv) \<Rightarrow>
          if at_risk lv then scale_call c
          else restoreOnRecoveryEnabled (lv_spec lv) \<and> restore_allowed lv cooldown spend t \<and> restore_call c)"

context optional_spend_source
begin

lemma enforceBudget_grows:
  "grows (\<lambda>c. work_call c \<and> (is_patch c \<longrightarrow> may_patch (fst (evaluateBudget r env t lv h)) t c)) h
     (snd (enforceBudget r env t lv h))"
  (is "grows ?P _ _")
  unfolding enforceBudget_def
proof (rule grows_go_bind)
  show "grows ?P h (snd (evaluateBudget r env t lv h))"
  proof (rule grows_mono [OF evaluateBudget_grows])
    show "?P c" if "budget_call c" for c using work_call_kinds(1) [OF that] by simp
  qed
next
  fix x h1
  assume b: "evaluateBudget r env t lv h = (Inr x, h1)"
  obtain cooldown spend lv1 where x: "x = (cooldown, spend, lv1)" by (cases x)
  consider "at_risk lv1" | "\<not> at_risk lv1" "restoreOnRecoveryEnabled (lv_spec lv1)"
    | "\<not> at_risk lv1" "\<not> restoreOnRecoveryEnabled (lv_spec lv1)" by blast
  then show "grows ?P h1 (snd ((case x of (cooldown, costSpend, lv1) \<Rightarrow> \<lambda>h1.
      let atBudgetRisk = (lv_quotaAtHardLimit lv1 \<or> lv_costOverBudget lv1) in
      if atBudgetRisk then scaleAtRisk r env lv1 h1
      else if restoreOnRecoveryEnabled (lv_spec lv1) then recoverWorkloads r env t cooldown costSpend lv1 h1
      else (Inr lv1, h1)) h1))"
  proof cases
    case 1
    have "grows ?P h1 (snd (scaleAtRisk r env lv1 h1))"
      unfolding scaleAtRisk_def Let_def
    proof (rule grows_mono [OF scaleDown_grows])
      show "?P c" if "scale_run_call c" for c
        using 1 work_call_kinds(2) [OF that] by (simp add: b x may_patch_def)
    qed
    with 1 show ?thesis by (simp add: x at_risk_def Let_def)
  next
    case 2
    have "grows ?P h1 (snd (recoverWorkloads r env t cooldown spend lv1 h1))"
    proof (rule grows_mono [OF recoverWorkloads_grows])
      show "?P c" if "recover_call (restore_allowed lv1 cooldown spend t) c" for c
        using 2 that by (simp add: b x may_patch_def recover_call_def)
    qed
    with 2 show ?thesis by (simp add: x at_risk_def Let_def)
  next
    case 3
    then show ?thesis by (simp add: x at_risk_def Let_def)
  qed
qed

end

section \<open>Lemmas: the branch on the TTL state\<close>

text \<open>What the evaluation of the budget finds when \<open>reconcileWorkloads\<close> starts at \<open>h\<close>.\<close>

definition budget_found ::
  "'q reconciler \<Rightarrow> 'q env \<Rightarrow> go_time \<Rightarrow> locals \<Rightarrow> 'q hist \<Rightarrow> (duration \<times> float64 \<times> locals) go_result" where
  "budget_found r env t lv h = fst (evaluateBudget r env t lv (snd (ensureResources env (lv_spec lv) h)))"

text \<open>
  The calls that the branch may make: the three writes before expiry, the deletion when it is
  due, patches only with enforcement, and never a status update.
\<close>

definition permitted ::
  "'q reconciler \<Rightarrow> 'q env \<Rightarrow> go_time \<Rightarrow> ttl_state \<Rightarrow> locals \<Rightarrow> 'q hist \<Rightarrow> 'q call \<Rightarrow> bool" where
  "permitted r env t ttl lv h c \<longleftrightarrow>
     (setup_call c \<longrightarrow> \<not> ttl_expired ttl) \<and>
     (is_delete c \<longrightarrow> ttl_expired ttl \<and> ttl_deleting ttl \<and>
        c = CDeleteNamespace \<lparr>ns_Name = spec_NamespaceName (lv_spec lv), ns_Labels = None, ns_Annotations = None\<rparr>) \<and>
     (is_patch c \<longrightarrow> shouldScaleDeploymentsToZero (lv_spec lv) \<and>
        (if ttl_expired ttl then \<not> ttl_deleting ttl \<and> scale_call c
         else may_patch (budget_found r env t lv h) t c)) \<and>
     \<not> is_status_update c"

lemma setup_call_kinds: "setup_call c \<Longrightarrow> \<not> is_delete c \<and> \<not> is_patch c \<and> \<not> is_status_update c"
  by (cases c) simp_all

lemma delete_call_kinds: "is_delete c \<Longrightarrow> \<not> setup_call c \<and> \<not> is_patch c \<and> \<not> is_status_update c"
  by (cases c) simp_all

lemma deleteExpired_call:
  "snd (deleteExpired env spec h) =
   h @ [CDeleteNamespace \<lparr>ns_Name = spec_NamespaceName spec, ns_Labels = None, ns_Annotations = None\<rparr>]"
  by (simp add: deleteExpired_def call_defs Let_def split: option.splits)

context optional_spend_source
begin

lemma reconcileWorkloads_grows:
  "grows (permitted r env t ttl lv h) h (snd (reconcileWorkloads r env t ttl lv h))"
proof -
  let ?P = "permitted r env t ttl lv h"
  consider (live) "\<not> ttl_expired ttl"
    | (grace) "ttl_expired ttl" "\<not> ttl_deleting ttl" "shouldScaleDeploymentsToZero (lv_spec lv)"
    | (due) "ttl_expired ttl" "ttl_deleting ttl"
    | (idle) "ttl_expired ttl" "\<not> ttl_deleting ttl" "\<not> shouldScaleDeploymentsToZero (lv_spec lv)"
    by blast
  then show ?thesis
  proof cases
    case live
    let ?rest = "\<lambda>h1. if shouldScaleDeploymentsToZero (lv_spec lv) then enforceBudget r env t lv h1 else (Inr lv, h1)"
    have "grows ?P h (snd (go_bind (ensureResources env (lv_spec lv) h) (\<lambda>_. ?rest)))"
    proof (rule grows_go_bind)
      show "grows ?P h (snd (ensureResources env (lv_spec lv) h))"
        by (rule grows_mono [OF ensureResources_grows])
           (use live in \<open>auto simp: permitted_def dest: setup_call_kinds\<close>)
    next
      fix x h1
      assume run: "ensureResources env (lv_spec lv) h = (Inr x, h1)"
      have "grows ?P h1 (snd (enforceBudget r env t lv h1))" if "shouldScaleDeploymentsToZero (lv_spec lv)"
        by (rule grows_mono [OF enforceBudget_grows])
           (use live run that in \<open>auto simp: permitted_def budget_found_def dest: work_call_kinds(5)\<close>)
      then show "grows ?P h1 (snd (?rest h1))" by simp
    qed
    with live show ?thesis by (simp add: reconcileWorkloads_def)
  next
    case grace
    have "grows ?P h (snd (scaleInGrace r env lv h))"
      unfolding scaleInGrace_def
      by (rule grows_mono [OF scaleDown_grows])
         (use grace in \<open>auto simp: permitted_def dest: work_call_kinds(2,5)\<close>)
    with grace show ?thesis by (simp add: reconcileWorkloads_def)
  next
    case due
    then have "?P (CDeleteNamespace \<lparr>ns_Name = spec_NamespaceName (lv_spec lv), ns_Labels = None, ns_Annotations = None\<rparr>)"
      by (simp add: permitted_def)
    then have "grows ?P h (snd (deleteExpired env (lv_spec lv) h))"
      by (simp add: deleteExpired_call grows_snoc)
    then have "grows ?P h (snd (go_bind (deleteExpired env (lv_spec lv) h) (\<lambda>_ h1. (Inr lv, h1))))"
      by (rule grows_go_bind) simp
    with due show ?thesis by (simp add: reconcileWorkloads_def)
  next
    case idle
    then show ?thesis by (simp add: reconcileWorkloads_def)
  qed
qed

end

section \<open>Lemmas: what is recorded\<close>

text \<open>
  The enforcement that the local variables record after the calls since \<open>h\<close>: when a workload
  was patched, its kind, and a clock reading taken after the last patch; else what it was.
\<close>

definition recorded :: "'q env \<Rightarrow> 'q hist \<Rightarrow> locals \<Rightarrow> locals \<Rightarrow> 'q hist \<Rightarrow> bool" where
  "recorded env h lv lv' h' \<longleftrightarrow>
     (\<exists>cs. h' = h @ cs \<and>
        (if list_ex is_patch cs then
           (\<exists>p s. cs = p @ s \<and> \<not> list_ex is_patch s \<and> lv_lastEnfAt lv' = Some (env_clock env (h @ p))) \<and>
           (lv_lastEnfOp lv' = ''ScaleToZero'' \<and> list_all scale_call (filter is_patch cs) \<or>
            lv_lastEnfOp lv' = ''Restore'' \<and> list_all restore_call (filter is_patch cs))
         else lv_lastEnfAt lv' = lv_lastEnfAt lv \<and> lv_lastEnfOp lv' = lv_lastEnfOp lv))"

abbreviation same_record :: "locals \<Rightarrow> locals \<Rightarrow> bool" where
  "same_record lv lv' \<equiv> lv_lastEnfAt lv' = lv_lastEnfAt lv \<and> lv_lastEnfOp lv' = lv_lastEnfOp lv"

abbreviation no_patch :: "'q call \<Rightarrow> bool" where
  "no_patch c \<equiv> \<not> is_patch c"

lemma recorded_none: "grows no_patch h h' \<Longrightarrow> same_record lv lv' \<Longrightarrow> recorded env h lv lv' h'"
  by (auto simp: recorded_def grows_def list_ex_iff list_all_iff)

lemma filter_no_patch: "\<not> list_ex is_patch s \<Longrightarrow> filter is_patch s = []"
  by (auto simp: list_ex_iff filter_empty_conv)

lemma recordedI:
  assumes h': "h' = h @ p @ s" and s: "\<not> list_ex is_patch s" and p: "list_ex is_patch p"
    and at: "lv_lastEnfAt lv' = Some (env_clock env (h @ p))"
    and op: "lv_lastEnfOp lv' = ''ScaleToZero'' \<and> list_all scale_call (filter is_patch p) \<or>
      lv_lastEnfOp lv' = ''Restore'' \<and> list_all restore_call (filter is_patch p)"
  shows "recorded env h lv lv' h'"
proof -
  have "\<exists>q t. p @ s = q @ t \<and> \<not> list_ex is_patch t \<and> lv_lastEnfAt lv' = Some (env_clock env (h @ q))"
    using s at by blast
  with h' p op s show ?thesis
    unfolding recorded_def by (intro exI [of _ "p @ s"]) (simp add: filter_no_patch)
qed

lemma recorded_after:
  assumes "grows no_patch h h1" "recorded env h1 lv1 lv' h'" "same_record lv lv1"
  shows "recorded env h lv lv' h'"
proof -
  from assms(1) obtain p where p: "h1 = h @ p" and np: "\<not> list_ex is_patch p"
    by (auto simp: grows_def list_ex_iff list_all_iff)
  from assms(2) p obtain cs where cs: "h' = h @ p @ cs" and r: "if list_ex is_patch cs then
        (\<exists>q s. cs = q @ s \<and> \<not> list_ex is_patch s \<and> lv_lastEnfAt lv' = Some (env_clock env ((h @ p) @ q))) \<and>
        (lv_lastEnfOp lv' = ''ScaleToZero'' \<and> list_all scale_call (filter is_patch cs) \<or>
         lv_lastEnfOp lv' = ''Restore'' \<and> list_all restore_call (filter is_patch cs))
      else same_record lv1 lv'" by (auto simp: recorded_def)
  show ?thesis
  proof (cases "list_ex is_patch cs")
    case True
    with r obtain q s where q: "cs = q @ s" "\<not> list_ex is_patch s"
      "lv_lastEnfAt lv' = Some (env_clock env ((h @ p) @ q))" by auto
    with True have "list_ex is_patch q" by simp
    with True r q np cs show ?thesis
      by (intro recordedI [where p = "p @ q" and s = s]) (simp_all add: filter_no_patch)
  next
    case False
    with r np cs assms(3) show ?thesis unfolding recorded_def by (intro exI [of _ "p @ cs"]) simp
  qed
qed

lemma recorded_snoc:
  assumes "recorded env h lv lv' h'" "\<not> is_patch c"
  shows "recorded env h lv lv' (h' @ [c])"
proof -
  from assms(1) obtain cs where h': "h' = h @ cs" and r: "if list_ex is_patch cs then
        (\<exists>p s. cs = p @ s \<and> \<not> list_ex is_patch s \<and> lv_lastEnfAt lv' = Some (env_clock env (h @ p))) \<and>
        (lv_lastEnfOp lv' = ''ScaleToZero'' \<and> list_all scale_call (filter is_patch cs) \<or>
         lv_lastEnfOp lv' = ''Restore'' \<and> list_all restore_call (filter is_patch cs))
      else same_record lv lv'" by (auto simp: recorded_def)
  show ?thesis
  proof (cases "list_ex is_patch cs")
    case True
    with r obtain p s where "cs = p @ s" "\<not> list_ex is_patch s"
      "lv_lastEnfAt lv' = Some (env_clock env (h @ p))" by auto
    with True r h' assms(2) show ?thesis
      by (intro recordedI [where p = p and s = "s @ [c]"]) (simp_all add: filter_no_patch)
  next
    case False
    with r h' assms(2) show ?thesis unfolding recorded_def by (intro exI [of _ "cs @ [c]"]) simp
  qed
qed

lemma recordNormal_suffix: "\<exists>e. recordNormal r reason msg h = h @ e \<and> \<not> list_ex is_patch e"
  by (simp add: recordNormal_def)

lemma scaleDown_recorded:
  assumes "scaleDown r env message lv h = (Inr lv', h')"
  shows "recorded env h lv lv' h'"
proof -
  obtain n e h1 where run: "scaleWorkloadsToZero env (spec_NamespaceName (lv_spec lv)) h = ((n, e), h1)"
    by (metis surj_pair)
  with assms have e: "e = None" by (cases e) (auto simp: scaleDown_def)
  from scaleWorkloads_grows [of h env "spec_NamespaceName (lv_spec lv)"] run obtain cs where
    cs: "h1 = h @ cs" "list_all scale_call cs" by (auto simp: grows_def)
  have n: "n = int (length (filter is_patch cs))"
    using scaleWorkloads_count [OF run [unfolded e]] cs by simp
  show ?thesis
  proof (cases "0 < n")
    case True
    obtain ev where ev: "recordNormal r ''ScaledToZero'' (message n) (h1 @ [CNow]) = (h1 @ [CNow]) @ ev"
      "\<not> list_ex is_patch ev" using recordNormal_suffix by blast
    from True assms run e ev have h': "h' = h @ cs @ CNow # ev" and at: "lv_lastEnfAt lv' = Some (env_clock env (h @ cs))"
      and op: "lv_lastEnfOp lv' = ''ScaleToZero''"
      by (auto simp: scaleDown_def call_defs cs(1) enforcementOpScaleToZero_def)
    from True n have "list_ex is_patch cs"
      by (cases "list_ex is_patch cs") (auto simp: filter_no_patch)
    with h' at op ev(2) cs(2) show ?thesis
      by (intro recordedI [where p = cs and s = "CNow # ev"]) (auto simp: list_all_iff)
  next
    case False
    with n have "list_all no_patch cs" by (auto simp: list_all_iff filter_empty_conv)
    then have "grows no_patch h h1" using cs(1) by (auto simp: grows_def)
    with False assms run e show ?thesis by (auto simp: scaleDown_def intro: recorded_none)
  qed
qed

lemma restoreNow_recorded:
  assumes "restoreNow r env lv h = (Inr lv', h')"
  shows "recorded env h lv lv' h'"
proof -
  obtain n e h1 where run: "restoreScaledWorkloads env (spec_NamespaceName (lv_spec lv)) h = ((n, e), h1)"
    by (metis surj_pair)
  with assms have e: "e = None" by (cases e) (auto simp: restoreNow_def)
  from restoreWorkloads_grows [of h env "spec_NamespaceName (lv_spec lv)"] run obtain cs where
    cs: "h1 = h @ cs" "list_all restore_call cs" by (auto simp: grows_def)
  have n: "n = int (length (filter is_patch cs))"
    using restoreWorkloads_count [OF run [unfolded e]] cs by simp
  show ?thesis
  proof (cases "0 < n")
    case True
    obtain ev where ev: "recordNormal r ''RestoredReplicas''
        (Sprintf ''Restored %d workload(s) from saved replica counts'' [FInt n]) (h1 @ [CNow]) = (h1 @ [CNow]) @ ev"
      "\<not> list_ex is_patch ev" using recordNormal_suffix by blast
    from True assms run e ev have h': "h' = h @ cs @ CNow # ev" and at: "lv_lastEnfAt lv' = Some (env_clock env (h @ cs))"
      and op: "lv_lastEnfOp lv' = ''Restore''"
      by (auto simp: restoreNow_def call_defs cs(1) enforcementOpRestore_def)
    from True n have "list_ex is_patch cs"
      by (cases "list_ex is_patch cs") (auto simp: filter_no_patch)
    with h' at op ev(2) cs(2) show ?thesis
      by (intro recordedI [where p = cs and s = "CNow # ev"]) (auto simp: list_all_iff)
  next
    case False
    with n have "list_all no_patch cs" by (auto simp: list_all_iff filter_empty_conv)
    then have "grows no_patch h h1" using cs(1) by (auto simp: grows_def)
    with False assms run e show ?thesis by (auto simp: restoreNow_def intro: recorded_none)
  qed
qed

lemma recoverWorkloads_recorded:
  assumes "recoverWorkloads r env t cooldown spend lv h = (Inr lv', h')"
  shows "recorded env h lv lv' h'"
proof -
  obtain res h1 where pend: "workloadsPendingRestore env (spec_NamespaceName (lv_spec lv)) h = (res, h1)"
    by (metis surj_pair)
  have g: "grows no_patch h h1"
    using grows_mono [OF pendingRestore_grows [of h env "spec_NamespaceName (lv_spec lv)"], of no_patch] pend
      work_call_kinds(4) by auto
  have ev: "grows no_patch h (recordNormal r reason msg h1)" for reason msg
    using g by (rule record_grows_from) simp
  show ?thesis
    using assms g ev recorded_after [OF g restoreNow_recorded]
    by (auto simp: recoverWorkloads_def deferRestore_def Let_def pend intro: recorded_none
        split: sum.splits if_splits option.splits)
qed

context optional_spend_source
begin

lemma enforceBudget_recorded:
  assumes "enforceBudget r env t lv h = (Inr lv', h')"
  shows "recorded env h lv lv' h'"
proof -
  from assms obtain x h1 where b: "evaluateBudget r env t lv h = (Inr x, h1)"
    by (auto simp: enforceBudget_def go_bind_ok_iff)
  obtain cooldown spend lv1 where x: "x = (cooldown, spend, lv1)" by (cases x)
  have g: "grows no_patch h h1"
    using grows_mono [OF evaluateBudget_grows [of h env t lv], of no_patch] b work_call_kinds(1) by auto
  have "recorded env h1 lv1 lv' h'"
    using assms b x
    by (auto simp: enforceBudget_def scaleAtRisk_def Let_def
        intro: scaleDown_recorded recoverWorkloads_recorded recorded_none split: if_splits)
  with g evaluateBudget_keeps(3,4) [OF b [unfolded x]] show ?thesis by (simp add: recorded_after)
qed

lemma reconcileWorkloads_recorded:
  assumes "reconcileWorkloads r env t ttl lv h = (Inr lv', h')"
  shows "recorded env h lv lv' h'"
proof -
  have e: "grows no_patch h h1" if "ensureResources env (lv_spec lv) h = (Inr u, h1)" for u h1
    using grows_mono [OF ensureResources_grows [of h env "lv_spec lv"], of no_patch] that setup_call_kinds by auto
  have d: "grows no_patch h (snd (deleteExpired env (lv_spec lv) h))"
    by (simp add: deleteExpired_call grows_snoc)
  show ?thesis
    using assms d
    by (auto simp: reconcileWorkloads_def scaleInGrace_def go_bind_ok_iff
        intro: scaleDown_recorded recorded_none recorded_after [OF e enforceBudget_recorded] e split: if_splits)
qed

end

section \<open>Lemmas: when a restore is deferred\<close>

lemma recoverWorkloads_deferred:
  assumes "recoverWorkloads r env t cooldown spend lv h = (Inr lv', h')" "lv_recoveryDeferred lv'"
    and "\<not> lv_recoveryDeferred lv"
  shows "lv_lastEnfOp lv = ''ScaleToZero'' \<and> (\<exists>tm. lv_lastEnfAt lv = Some tm \<and> t < tm + cooldown)"
proof (rule ccontr)
  assume "\<not> ?thesis"
  then have "canRestoreAfterScaleDown (lv_lastEnfOp lv) (lv_lastEnfAt lv) cooldown t"
    by (simp add: canRestore_iff)
  with assms show False
    by (auto simp: recoverWorkloads_def restoreNow_def call_defs split: prod.splits sum.splits if_splits option.splits)
qed

text \<open>The nil pointer of the deferred branch is never followed.\<close>

lemma deferRestore_defined:
  "\<not> canRestoreAfterScaleDown (lv_lastEnfOp lv) (lv_lastEnfAt lv) cooldown t \<Longrightarrow>
   \<exists>lv'. fst (deferRestore r t cooldown lv h) = Inr lv'"
  by (auto simp: canRestore_iff deferRestore_def Let_def)

lemma reconcileWorkloads_deferred:
  assumes run: "reconcileWorkloads r env t ttl lv h = (Inr lv', h')" "lv_recoveryDeferred lv'"
    and "\<not> lv_recoveryDeferred lv"
  shows "\<not> ttl_expired ttl \<and> shouldScaleDeploymentsToZero (lv_spec lv) \<and>
    (\<exists>cooldown. enforcementCooldown (lv_spec lv) = Inr cooldown \<and> lv_lastEnfOp lv = ''ScaleToZero'' \<and>
      (\<exists>tm. lv_lastEnfAt lv = Some tm \<and> t < tm + cooldown))"
proof -
  have down: "lv_recoveryDeferred y = lv_recoveryDeferred x" if "scaleDown r env m x g = (Inr y, g')" for m x y g g'
    using that by (auto simp: scaleDown_def call_defs split: prod.splits option.splits if_splits)
  from run assms(3) obtain h1 where live: "\<not> ttl_expired ttl" "shouldScaleDeploymentsToZero (lv_spec lv)"
    and en: "enforceBudget r env t lv h1 = (Inr lv', h')"
    by (auto simp: reconcileWorkloads_def scaleInGrace_def go_bind_ok_iff dest: down split: if_splits)
  from en obtain cooldown spend lv1 h2 where b: "evaluateBudget r env t lv h1 = (Inr (cooldown, spend, lv1), h2)"
    by (auto simp: enforceBudget_def go_bind_ok_iff)
  note keeps = evaluateBudget_keeps [OF b]
  from en b run(2) keeps(5) assms(3) have "recoverWorkloads r env t cooldown spend lv1 h2 = (Inr lv', h')"
    by (auto simp: enforceBudget_def scaleAtRisk_def Let_def dest: down split: if_splits)
  from recoverWorkloads_deferred [OF this run(2)] keeps(3-5) assms(3) live evaluateBudget_ok [OF b] show ?thesis
    by auto
qed

end
