(* ===== verification/Reconcile_Status.thy ===== *)
theory Reconcile_Status
  imports Reconcile_Enforce
begin

text \<open>
  The status part of \<open>Reconcile\<close> in
  \<open>internal/controller/budgetnamespace_controller.go\<close>: the status fields and the
  conditions. Each condition is a function of the TTL state and the local variables;
  \<open>apimeta.SetStatusCondition\<close>, which puts it into the list, is a parameter.
\<close>

definition conditionTypeExpired :: string where
  "conditionTypeExpired = ''Expired''"

definition conditionTypeOverBudget :: string where
  "conditionTypeOverBudget = ''OverBudget''"

definition conditionTypeEnforcementRecoveryDeferred :: string where
  "conditionTypeEnforcementRecoveryDeferred = ''EnforcementRecoveryDeferred''"

definition conditionTypeReady :: string where
  "conditionTypeReady = ''Ready''"

definition conditionReasonTTLExpired :: string where
  "conditionReasonTTLExpired = ''TTLExpired''"

text \<open>The literal \<open>metav1.Condition{...}\<close> with the generation as \<open>ObservedGeneration\<close>.\<close>

definition newCondition :: "locals \<Rightarrow> string \<Rightarrow> condition_status \<Rightarrow> string \<Rightarrow> go_text \<Rightarrow> condition" where
  "newCondition lv typ status reason message =
     \<lparr>cond_Type = typ, cond_Status = status, cond_ObservedGeneration = bn_Generation (lv_bn lv),
      cond_LastTransitionTime = None, cond_Reason = reason, cond_Message = message\<rparr>"

definition expiredCondition :: "ttl_state \<Rightarrow> locals \<Rightarrow> condition option" where
  "expiredCondition ttl lv =
     (if spec_TTL (lv_spec lv) = [] then None
      else if ttl_expired ttl then
        Some (newCondition lv conditionTypeExpired ConditionTrue conditionReasonTTLExpired
          (Sprintf ''Namespace TTL expired; deleting after %s'' [FDur ttlDeleteGracePeriod]))
      else Some (newCondition lv conditionTypeExpired ConditionFalse ''TTLActive'' (lit ''TTL is active'')))"

definition overBudgetCondition :: "ttl_state \<Rightarrow> locals \<Rightarrow> condition option" where
  "overBudgetCondition ttl lv =
     (if \<not> shouldScaleDeploymentsToZero (lv_spec lv) then
        Some (newCondition lv conditionTypeOverBudget ConditionFalse ''EnforcementDisabled''
          (lit ''Scale-to-zero enforcement is disabled''))
      else if lv_quotaEvaluated lv then
        (let budgetViolated = (lv_quotaAtHardLimit lv \<or> lv_costOverBudget lv) in
         if budgetViolated then
           (let (reason, message) = overBudgetReasonMessage (lv_quotaAtHardLimit lv) (lv_costOverBudget lv)
            in Some (newCondition lv conditionTypeOverBudget ConditionTrue reason (lit message)))
         else
           (let msg = (if costBudgetEnabled (lv_spec lv) \<and> lv_costBudgetEvaluated lv
                       then ''ResourceQuota usage is below hard limits and billed spend is below maxSpendUSD''
                       else ''ResourceQuota usage is below hard limits'')
            in Some (newCondition lv conditionTypeOverBudget ConditionFalse ''WithinBudget'' (lit msg))))
      else if spec_TTL (lv_spec lv) \<noteq> [] \<and> ttl_expired ttl then
        Some (newCondition lv conditionTypeOverBudget ConditionFalse conditionReasonTTLExpired
          (lit ''Resource quota usage is not re-evaluated after TTL expiry''))
      else None)"

definition deferredCondition :: "locals \<Rightarrow> condition" where
  "deferredCondition lv =
     (if \<not> shouldScaleDeploymentsToZero (lv_spec lv) \<or> \<not> lv_quotaEvaluated lv then
        newCondition lv conditionTypeEnforcementRecoveryDeferred ConditionFalse ''NotApplicable''
          (lit ''Enforcement recovery deferral is not tracked in this state'')
      else if lv_recoveryDeferred lv then
        newCondition lv conditionTypeEnforcementRecoveryDeferred ConditionTrue ''AwaitingEnforcementCooldown''
          (lit ''Restore is waiting for enforcement cooldown after scale-to-zero'')
      else
        newCondition lv conditionTypeEnforcementRecoveryDeferred ConditionFalse ''NotDeferred''
          (lit ''No restore action is blocked by enforcement cooldown''))"

definition readyCondition :: "ttl_state \<Rightarrow> locals \<Rightarrow> condition" where
  "readyCondition ttl lv =
     (let ns = spec_NamespaceName (lv_spec lv) in
      if spec_TTL (lv_spec lv) \<noteq> [] \<and> ttl_expired ttl
      then newCondition lv conditionTypeReady ConditionFalse conditionReasonTTLExpired
             (Sprintf ''Namespace %q is expired by TTL'' [FStr ns])
      else newCondition lv conditionTypeReady ConditionTrue ''NamespaceReady''
             (Sprintf ''Namespace %q is present'' [FStr ns]))"

text \<open>The conditions that are set, in the order of the code.\<close>

definition newConditions :: "ttl_state \<Rightarrow> locals \<Rightarrow> condition list" where
  "newConditions ttl lv =
     (case expiredCondition ttl lv of None \<Rightarrow> [] | Some c \<Rightarrow> [c]) @
     (case overBudgetCondition ttl lv of None \<Rightarrow> [] | Some c \<Rightarrow> [c]) @
     [deferredCondition lv, readyCondition ttl lv]"

definition writeStatus :: "'q env \<Rightarrow> 'q hist \<Rightarrow> ttl_state \<Rightarrow> locals \<Rightarrow> budget_namespace" where
  "writeStatus env h ttl lv =
     (let bn = lv_bn lv in
      bn\<lparr>bn_Status := (bn_Status bn)\<lparr>
           st_ObservedGeneration := bn_Generation bn,
           st_ManagedNamespace := spec_NamespaceName (bn_Spec bn),
           st_ExpiresAt := ttl_expiresAt ttl,
           st_LastEnforcementAt := lv_lastEnfAt lv,
           st_LastEnforcementOperation := lv_lastEnfOp lv,
           st_Conditions := foldl (env_setStatusCondition env h) (st_Conditions (bn_Status bn))
                              (newConditions ttl lv)\<rparr>\<rparr>)"

section \<open>Lemmas\<close>

lemma newCondition_simps [simp]:
  "cond_Type (newCondition lv typ status reason msg) = typ"
  "cond_Status (newCondition lv typ status reason msg) = status"
  "cond_Reason (newCondition lv typ status reason msg) = reason"
  "cond_Message (newCondition lv typ status reason msg) = msg"
  "cond_ObservedGeneration (newCondition lv typ status reason msg) = bn_Generation (lv_bn lv)"
  by (simp_all add: newCondition_def)

lemma writeStatus_fields [simp]:
  "bn_Name (writeStatus env h ttl lv) = bn_Name (lv_bn lv)"
  "bn_Namespace (writeStatus env h ttl lv) = bn_Namespace (lv_bn lv)"
  "bn_Spec (writeStatus env h ttl lv) = lv_spec lv"
  "bn_CreationTimestamp (writeStatus env h ttl lv) = bn_CreationTimestamp (lv_bn lv)"
  "st_LastEnforcementAt (bn_Status (writeStatus env h ttl lv)) = lv_lastEnfAt lv"
  "st_LastEnforcementOperation (bn_Status (writeStatus env h ttl lv)) = lv_lastEnfOp lv"
  by (simp_all add: writeStatus_def Let_def)

lemmas condition_types =
  conditionTypeExpired_def conditionTypeOverBudget_def
  conditionTypeEnforcementRecoveryDeferred_def conditionTypeReady_def

text \<open>The types of the new conditions are distinct, so none overwrites another.\<close>

lemma expiredCondition_type: "expiredCondition ttl lv = Some c \<Longrightarrow> cond_Type c = conditionTypeExpired"
  by (auto simp: expiredCondition_def split: if_splits)

lemma overBudgetCondition_type: "overBudgetCondition ttl lv = Some c \<Longrightarrow> cond_Type c = conditionTypeOverBudget"
  by (auto simp: overBudgetCondition_def Let_def split: if_splits prod.splits)

lemma deferredCondition_type [simp]: "cond_Type (deferredCondition lv) = conditionTypeEnforcementRecoveryDeferred"
  by (simp add: deferredCondition_def)

lemma readyCondition_type [simp]: "cond_Type (readyCondition ttl lv) = conditionTypeReady"
  by (simp add: readyCondition_def Let_def)

text \<open>The status and the reason of two of the conditions.\<close>

definition budget_verdict :: "bool \<Rightarrow> bool \<Rightarrow> condition_status \<times> string" where
  "budget_verdict quotaAtHardLimit costOverBudget =
     (case (quotaAtHardLimit, costOverBudget) of
        (True, True) \<Rightarrow> (ConditionTrue, ''CostBudgetAndQuotaExceeded'')
      | (False, True) \<Rightarrow> (ConditionTrue, ''CostBudgetExceeded'')
      | (True, False) \<Rightarrow> (ConditionTrue, ''ResourceQuotaAtOrOverHard'')
      | (False, False) \<Rightarrow> (ConditionFalse, ''WithinBudget''))"

lemma overBudgetCondition_reason:
  assumes "overBudgetCondition ttl lv = Some c"
  shows "if \<not> shouldScaleDeploymentsToZero (lv_spec lv)
      then cond_Status c = ConditionFalse \<and> cond_Reason c = ''EnforcementDisabled''
    else if lv_quotaEvaluated lv then
      (cond_Status c, cond_Reason c) = budget_verdict (lv_quotaAtHardLimit lv) (lv_costOverBudget lv)
    else cond_Status c = ConditionFalse \<and> cond_Reason c = ''TTLExpired''"
  using assms
  by (auto simp: overBudgetCondition_def overBudgetReasonMessage_def conditionReasonTTLExpired_def
      budget_verdict_def Let_def split: if_splits bool.splits)

lemma overBudgetCondition_set:
  "overBudgetCondition ttl lv \<noteq> None \<longleftrightarrow>
   \<not> shouldScaleDeploymentsToZero (lv_spec lv) \<or> lv_quotaEvaluated lv \<or> spec_TTL (lv_spec lv) \<noteq> [] \<and> ttl_expired ttl"
  by (auto simp: overBudgetCondition_def Let_def split: prod.splits)

lemma deferredCondition_status:
  "cond_Status (deferredCondition lv) =
   (if shouldScaleDeploymentsToZero (lv_spec lv) \<and> lv_quotaEvaluated lv \<and> lv_recoveryDeferred lv
    then ConditionTrue else ConditionFalse)"
  by (simp add: deferredCondition_def)

lemma newConditions_distinct: "distinct (map cond_Type (newConditions ttl lv))"
  using expiredCondition_type [of ttl lv] overBudgetCondition_type [of ttl lv]
  by (auto simp: newConditions_def condition_types split: option.splits)

section \<open>The condition helper\<close>

text \<open>
  What is documented of \<open>SetStatusCondition\<close>: it updates the condition of the given type and
  leaves the conditions of other types alone; the transition time is its own business.
\<close>

locale condition_setter =
  fixes set_condition :: "condition list \<Rightarrow> condition \<Rightarrow> condition list"
  assumes set_same: "\<exists>c'. findCondition (set_condition cs c) (cond_Type c) = Some c' \<and>
      cond_Status c' = cond_Status c \<and> cond_Reason c' = cond_Reason c \<and>
      cond_Message c' = cond_Message c \<and> cond_ObservedGeneration c' = cond_ObservedGeneration c"
    and set_other: "t \<noteq> cond_Type c \<Longrightarrow> findCondition (set_condition cs c) t = findCondition cs t"
begin

lemma fold_other:
  "t \<notin> cond_Type ` set new \<Longrightarrow> findCondition (foldl set_condition cs new) t = findCondition cs t"
  by (induction new arbitrary: cs) (simp_all add: set_other)

lemma fold_same:
  "c \<in> set new \<Longrightarrow> distinct (map cond_Type new) \<Longrightarrow>
   \<exists>c'. findCondition (foldl set_condition cs new) (cond_Type c) = Some c' \<and>
      cond_Status c' = cond_Status c \<and> cond_Reason c' = cond_Reason c \<and>
      cond_Message c' = cond_Message c \<and> cond_ObservedGeneration c' = cond_ObservedGeneration c"
proof (induction new arbitrary: cs)
  case (Cons d new)
  show ?case
  proof (cases "c \<in> set new")
    case True
    with Cons show ?thesis by simp
  next
    case False
    with Cons.prems have "c = d" "cond_Type c \<notin> cond_Type ` set new" by auto
    then show ?thesis using set_same [of cs c] fold_other [of "cond_Type c" new] by simp
  qed
qed simp

end

lemma findCondition_put_condition:
  "findCondition (put_condition cs c) t = (if t = cond_Type c then Some c else findCondition cs t)"
  by (induction cs) (auto simp: findCondition_def)

interpretation put: condition_setter put_condition
  by unfold_locales (simp_all add: findCondition_put_condition)

end
