(* ===== verification/Watches.thy ===== *)
theory Watches
  imports Namespace_Setup
begin

text \<open>
  \<open>internal/controller/budgetnamespace_watches.go\<close> and the predicate in
  \<open>SetupWithManager\<close>: which BudgetNamespaces are reconciled after an event of a watched
  object. The queue of requests and the event sources are of controller-runtime.
\<close>

text \<open>A \<open>client.Object\<close>, as far as its type switch tells it apart.\<close>

datatype 'q client_object = ObjQuota "'q resource_quota" | ObjOther string

definition quotaPredicate :: "'q client_object \<Rightarrow> bool" where
  "quotaPredicate obj = (case obj of ObjQuota rq \<Rightarrow> rq_Name rq = resourceQuotaName | ObjOther _ \<Rightarrow> False)"

text \<open>The loop over the list; a request is a namespace with a name.\<close>

fun requestsLoop :: "string \<Rightarrow> budget_namespace list \<Rightarrow> namespaced_name list" where
  "requestsLoop ns [] = []"
| "requestsLoop ns (item # items) =
     (if spec_NamespaceName (bn_Spec item) \<noteq> ns then requestsLoop ns items
      else \<lparr>nn_Namespace = bn_Namespace item, nn_Name = bn_Name item\<rparr> # requestsLoop ns items)"

definition resourceQuotaToRequests ::
  "'q env \<Rightarrow> 'q client_object \<Rightarrow> 'q hist \<Rightarrow> namespaced_name list \<times> 'q hist" where
  "resourceQuotaToRequests env obj h =
     (case obj of
        ObjOther _ \<Rightarrow> ([], h)
      | ObjQuota rq \<Rightarrow>
        if rq_Name rq \<noteq> resourceQuotaName then ([], h)
        else case listBudgetNamespaces env h of
          (Inl err, h1) \<Rightarrow> ([], h1)
        | (Inr items, h1) \<Rightarrow> (requestsLoop (rq_Namespace rq) items, h1))"

text \<open>\<open>Watches(&corev1.ResourceQuota{}, ...)\<close>: the predicate, then the mapping.\<close>

definition quotaEvent :: "'q env \<Rightarrow> 'q client_object \<Rightarrow> 'q hist \<Rightarrow> namespaced_name list \<times> 'q hist" where
  "quotaEvent env obj h = (if quotaPredicate obj then resourceQuotaToRequests env obj h else ([], h))"

text \<open>
  What \<open>SetupWithManager\<close> asks of the builder: the kind to reconcile, the watches, each with
  its mapping and its predicate, and the name. \<open>Complete\<close> is of controller-runtime.
\<close>

record 'q controller_config =
  cc_For :: string
  cc_Watches :: "(string \<times> ('q client_object \<Rightarrow> 'q hist \<Rightarrow> namespaced_name list \<times> 'q hist) \<times>
    ('q client_object \<Rightarrow> bool)) list"
  cc_Named :: string

definition controllerConfig :: "'q env \<Rightarrow> 'q controller_config" where
  "controllerConfig env =
     \<lparr>cc_For = ''BudgetNamespace'',
      cc_Watches = [(''ResourceQuota'', resourceQuotaToRequests env, quotaPredicate)],
      cc_Named = ''budgetnamespace''\<rparr>"

definition SetupWithManager ::
  "'q env \<Rightarrow> ('q controller_config \<Rightarrow> 'r \<Rightarrow> go_error option) \<Rightarrow> 'r \<Rightarrow> go_error option" where
  "SetupWithManager env build r = build (controllerConfig env) r"

section \<open>Lemmas\<close>

lemma requestsLoop_filter:
  "requestsLoop ns items = map (\<lambda>b. \<lparr>nn_Namespace = bn_Namespace b, nn_Name = bn_Name b\<rparr>)
     (filter (\<lambda>b. spec_NamespaceName (bn_Spec b) = ns) items)"
  by (induction items) simp_all

section \<open>Properties\<close>

text \<open>
  C33: A change of a quota reconciles the right objects. When the list of BudgetNamespaces can
  be read, an event of the operator's own ResourceQuota in a namespace enqueues, in list order
  and once each, exactly the BudgetNamespaces that manage this namespace; an event of any other
  object enqueues nothing and does not even list them; and what the predicate lets through is
  what the mapping would have handled.
\<close>

theorem quota_event_requests:
  assumes "env_listBudgetNamespaces env h = Inr items"
  shows "quotaEvent env obj h = resourceQuotaToRequests env obj h \<and>
    quotaEvent env obj h =
      (case obj of
         ObjQuota rq \<Rightarrow>
           if rq_Name rq = ''costguard-quota''
           then (map (\<lambda>b. \<lparr>nn_Namespace = bn_Namespace b, nn_Name = bn_Name b\<rparr>)
                   [b \<leftarrow> items. spec_NamespaceName (bn_Spec b) = rq_Namespace rq],
                 h @ [CListBudgetNamespaces])
           else ([], h)
       | ObjOther _ \<Rightarrow> ([], h))"
  using assms
  by (cases obj)
     (simp_all add: quotaEvent_def quotaPredicate_def resourceQuotaToRequests_def call_defs
       requestsLoop_filter resourceQuotaName_def)

theorem quota_event_requests_witness:
  "fst (quotaEvent (sample_env sample_state)
     (ObjQuota \<lparr>rq_Name = ''costguard-quota'', rq_Namespace = ''team'', rq_Hard = [], rq_Used = []\<rparr>) []) =
   [\<lparr>nn_Namespace = ''default'', nn_Name = ''budget''\<rparr>]"
  using quota_event_requests [of "sample_env sample_state" "[]" "[sample_bn_of sample_spec]"
      "ObjQuota \<lparr>rq_Name = ''costguard-quota'', rq_Namespace = ''team'', rq_Hard = [], rq_Used = []\<rparr>", THEN conjunct2]
  by simp

end
