(* ===== verification/Reconcile.thy ===== *)
theory Reconcile
  imports Reconcile_Status Watches
begin

text \<open>
  \<open>Reconcile\<close> of \<open>internal/controller/budgetnamespace_controller.go\<close>, put together from
  its parts: \<open>Reconcile_TTL\<close>, \<open>Reconcile_Enforce\<close> and \<open>Reconcile_Status\<close>.
\<close>

definition enforcementPollInterval :: duration where
  "enforcementPollInterval = 30 * second"

record reconcile_result =
  res_Requeue :: bool
  res_RequeueAfter :: duration

definition emptyResult :: reconcile_result where
  "emptyResult = \<lparr>res_Requeue = False, res_RequeueAfter = 0\<rparr>"

definition requeueResult :: "ttl_state \<Rightarrow> bn_spec \<Rightarrow> reconcile_result" where
  "requeueResult ttl spec =
     (let requeueAfter =
        (if shouldScaleDeploymentsToZero spec \<and> \<not> ttl_expired ttl
         then (if ttl_requeueAfterTTL ttl = 0 \<or> enforcementPollInterval < ttl_requeueAfterTTL ttl
               then enforcementPollInterval else ttl_requeueAfterTTL ttl)
         else ttl_requeueAfterTTL ttl)
      in if 0 < requeueAfter then emptyResult\<lparr>res_RequeueAfter := requeueAfter\<rparr> else emptyResult)"

text \<open>
  After an accepted update the client decodes the server's answer into the object, and the code goes
  on to read its spec. The update is accepted only for the version of the object that was read, so the
  spec is still that of the object before it, which the model uses.
\<close>

definition finishReconcile :: "'q env \<Rightarrow> ttl_state \<Rightarrow> locals \<Rightarrow> 'q hist \<Rightarrow> reconcile_result go_result \<times> 'q hist" where
  "finishReconcile env ttl lv h =
     (case updateStatus env (writeStatus env h ttl lv) h of
        (Some err, h1) \<Rightarrow>
          if env_isConflict env err then (Inr (emptyResult\<lparr>res_Requeue := True\<rparr>), h1)
          else (Inl (Wrapf ''update BudgetNamespace status: %w'' [] err), h1)
      | (None, h1) \<Rightarrow> (Inr (requeueResult ttl (lv_spec lv)), h1))"

definition Reconcile ::
  "'q reconciler \<Rightarrow> 'q env \<Rightarrow> namespaced_name \<Rightarrow> 'q hist \<Rightarrow> reconcile_result go_result \<times> 'q hist" where
  "Reconcile r env req h =
     (case getBudgetNamespace env req h of
        (Inl err, h1) \<Rightarrow> (if env_isNotFound env err then Inr emptyResult else Inl err, h1)
      | (Inr bn, h1) \<Rightarrow>
        case validateCostBudgetSpec (bn_Spec bn) of
          Some err \<Rightarrow> (Inl err, h1)
        | None \<Rightarrow>
          (case now env h1 of (t, h2) \<Rightarrow>
             go_bind (evaluateTTL env bn t h2) (\<lambda>ttl h3.
             go_bind (reconcileWorkloads r env t ttl (initial_locals bn) h3) (\<lambda>lv h4.
             finishReconcile env ttl lv h4))))"

section \<open>Lemmas: the shape of a run\<close>

text \<open>The histories of a run that starts at \<open>h\<close>: after the object was read, and after the clock.\<close>

abbreviation read_at :: "'q hist \<Rightarrow> namespaced_name \<Rightarrow> 'q hist" where
  "read_at h req \<equiv> h @ [CGetBudgetNamespace req]"

abbreviation started_at :: "'q hist \<Rightarrow> namespaced_name \<Rightarrow> 'q hist" where
  "started_at h req \<equiv> h @ [CGetBudgetNamespace req, CNow]"

text \<open>The local variable \<open>now\<close> of a run.\<close>

definition now_of :: "'q env \<Rightarrow> 'q hist \<Rightarrow> namespaced_name \<Rightarrow> go_time" where
  "now_of env h req = env_clock env (read_at h req)"

text \<open>The calls that a run has made.\<close>

definition calls_of :: "'q reconciler \<Rightarrow> 'q env \<Rightarrow> namespaced_name \<Rightarrow> 'q hist \<Rightarrow> 'q call list" where
  "calls_of r env req h = drop (length h) (snd (Reconcile r env req h))"

lemma Reconcile_unread:
  "env_getBudgetNamespace env h req = Inl err \<Longrightarrow>
   Reconcile r env req h = (if env_isNotFound env err then Inr emptyResult else Inl err, read_at h req)"
  by (simp add: Reconcile_def call_defs)

lemma Reconcile_invalid:
  "env_getBudgetNamespace env h req = Inr bn \<Longrightarrow> validateCostBudgetSpec (bn_Spec bn) = Some err \<Longrightarrow>
   Reconcile r env req h = (Inl err, read_at h req)"
  by (simp add: Reconcile_def call_defs)

lemma Reconcile_valid:
  "env_getBudgetNamespace env h req = Inr bn \<Longrightarrow> validateCostBudgetSpec (bn_Spec bn) = None \<Longrightarrow>
   Reconcile r env req h =
     go_bind (evaluateTTL env bn (now_of env h req) (started_at h req)) (\<lambda>ttl h3.
     go_bind (reconcileWorkloads r env (now_of env h req) ttl (initial_locals bn) h3) (\<lambda>lv h4.
     finishReconcile env ttl lv h4))"
  by (simp add: Reconcile_def call_defs now_of_def)

lemma finish_call:
  "snd (finishReconcile env ttl lv h) = h @ [CUpdateStatus (writeStatus env h ttl lv)]"
  by (simp add: finishReconcile_def call_defs split: option.splits)

lemma evaluateTTL_error: "evaluateTTL env bn t h = (Inl err, h') \<Longrightarrow> h' = h"
  by (auto simp: evaluateTTL_def Let_def call_defs split: sum.splits if_splits)

context optional_spend_source
begin

text \<open>Everything that a run may call, when its TTL could be evaluated.\<close>

lemma Reconcile_grows:
  assumes bn: "env_getBudgetNamespace env h req = Inr bn"
    and ttl: "evaluateTTL env bn (now_of env h req) (started_at h req) = (Inr ttl, h3)"
  shows "grows (\<lambda>c. c = CGetBudgetNamespace req \<or> c = CNow \<or> is_status_update c \<or>
      permitted r env (now_of env h req) ttl (initial_locals bn) h3 c) h (snd (Reconcile r env req h))"
    (is "grows ?P _ _")
proof (cases "validateCostBudgetSpec (bn_Spec bn)")
  case (Some err)
  with bn show ?thesis by (simp add: Reconcile_invalid grows_snoc)
next
  case None
  have g0: "grows ?P h (started_at h req)" by (simp add: grows_def)
  have "grows clock_call (started_at h req) h3"
    using evaluateTTL_grows [of "started_at h req" env bn "now_of env h req"] ttl by simp
  then have "grows ?P (started_at h req) h3"
    by (rule grows_mono) (auto elim: clock_call.elims)
  with g0 have g1: "grows ?P h h3" by (rule grows_trans)
  have "grows ?P h3 (snd (go_bind (reconcileWorkloads r env (now_of env h req) ttl (initial_locals bn) h3)
      (\<lambda>lv h4. finishReconcile env ttl lv h4)))"
  proof (rule grows_go_bind)
    show "grows ?P h3 (snd (reconcileWorkloads r env (now_of env h req) ttl (initial_locals bn) h3))"
      by (rule grows_mono [OF reconcileWorkloads_grows]) simp
  qed (simp add: finish_call grows_snoc)
  with g1 have "grows ?P h (snd (go_bind (reconcileWorkloads r env (now_of env h req) ttl (initial_locals bn) h3)
      (\<lambda>lv h4. finishReconcile env ttl lv h4)))" by (rule grows_trans)
  with bn None ttl show ?thesis by (simp add: Reconcile_valid)
qed

text \<open>The same for one call, with the cases in which the run ends before that.\<close>

lemma Reconcile_call:
  assumes "c \<in> set (calls_of r env req h)" "c \<noteq> CGetBudgetNamespace req" "c \<noteq> CNow" "\<not> is_status_update c"
  obtains bn ttl h3 where "env_getBudgetNamespace env h req = Inr bn"
    "evaluateTTL env bn (now_of env h req) (started_at h req) = (Inr ttl, h3)"
    "permitted r env (now_of env h req) ttl (initial_locals bn) h3 c"
proof (cases "env_getBudgetNamespace env h req")
  case (Inl err)
  with assms show ?thesis by (simp add: calls_of_def Reconcile_unread)
next
  case (Inr bn)
  obtain res h3 where ttl: "evaluateTTL env bn (now_of env h req) (started_at h req) = (res, h3)"
    by (metis surj_pair)
  show ?thesis
  proof (cases res)
    case err: (Inl err)
    with ttl have "h3 = started_at h req" using evaluateTTL_error by blast
    with Inr ttl err assms show ?thesis
      by (cases "validateCostBudgetSpec (bn_Spec bn)")
         (simp_all add: calls_of_def Reconcile_valid Reconcile_invalid)
  next
    case ok: (Inr t)
    from grows_drop [OF Reconcile_grows [OF Inr ttl [unfolded ok]]] assms that [OF Inr ttl [unfolded ok]]
    show ?thesis by (auto simp: calls_of_def list_all_iff)
  qed
qed

end

section \<open>Lemmas: the end of a run\<close>

lemma finishReconcile_ok:
  assumes "finishReconcile env ttl lv h = (Inr res, h')"
  shows "h' = h @ [CUpdateStatus (writeStatus env h ttl lv)]"
    and "env_updateStatus env h (writeStatus env h ttl lv) = None \<and> res = requeueResult ttl (lv_spec lv)
      \<or> (\<exists>err. env_updateStatus env h (writeStatus env h ttl lv) = Some err \<and> env_isConflict env err \<and>
           res = emptyResult\<lparr>res_Requeue := True\<rparr>)"
  using assms by (auto simp: finishReconcile_def call_defs split: option.splits if_splits)

text \<open>A run that comes to its end, with everything it computed.\<close>

lemma Reconcile_ok:
  assumes "Reconcile r env req h = (Inr res, h')" "env_getBudgetNamespace env h req = Inr bn"
  obtains ttl h3 lv h4 where "validateCostBudgetSpec (bn_Spec bn) = None"
    "evaluateTTL env bn (now_of env h req) (started_at h req) = (Inr ttl, h3)"
    "reconcileWorkloads r env (now_of env h req) ttl (initial_locals bn) h3 = (Inr lv, h4)"
    "finishReconcile env ttl lv h4 = (Inr res, h')"
proof (cases "validateCostBudgetSpec (bn_Spec bn)")
  case None
  with assms that show ?thesis by (auto simp: Reconcile_valid go_bind_ok_iff)
next
  case (Some err)
  with assms show ?thesis by (simp add: Reconcile_invalid)
qed

text \<open>What the branch keeps of the local variables.\<close>

lemma scaleDown_keeps:
  "scaleDown r env message lv h = (Inr lv', h') \<Longrightarrow>
   lv_bn lv' = lv_bn lv \<and> lv_recoveryDeferred lv' = lv_recoveryDeferred lv \<and>
   lv_quotaEvaluated lv' = lv_quotaEvaluated lv \<and> lv_quotaAtHardLimit lv' = lv_quotaAtHardLimit lv \<and>
   lv_costBudgetEvaluated lv' = lv_costBudgetEvaluated lv \<and> lv_costOverBudget lv' = lv_costOverBudget lv"
  by (auto simp: scaleDown_def call_defs split: prod.splits option.splits if_splits)

lemma restoreNow_keeps:
  "restoreNow r env lv h = (Inr lv', h') \<Longrightarrow>
   lv_bn lv' = lv_bn lv \<and> lv_recoveryDeferred lv' = lv_recoveryDeferred lv \<and>
   lv_quotaEvaluated lv' = lv_quotaEvaluated lv \<and> lv_quotaAtHardLimit lv' = lv_quotaAtHardLimit lv \<and>
   lv_costBudgetEvaluated lv' = lv_costBudgetEvaluated lv \<and> lv_costOverBudget lv' = lv_costOverBudget lv"
  by (auto simp: restoreNow_def call_defs split: prod.splits option.splits if_splits)

lemma recoverWorkloads_keeps:
  "recoverWorkloads r env t cooldown spend lv h = (Inr lv', h') \<Longrightarrow>
   lv_bn lv' = lv_bn lv \<and>
   lv_quotaEvaluated lv' = lv_quotaEvaluated lv \<and> lv_quotaAtHardLimit lv' = lv_quotaAtHardLimit lv \<and>
   lv_costBudgetEvaluated lv' = lv_costBudgetEvaluated lv \<and> lv_costOverBudget lv' = lv_costOverBudget lv"
  by (auto simp: recoverWorkloads_def deferRestore_def Let_def dest!: restoreNow_keeps
      split: prod.splits sum.splits option.splits if_splits)

text \<open>The variables that a successful branch ends with, in terms of what was found.\<close>

lemma enforceBudget_keeps:
  assumes "enforceBudget r env t lv h = (Inr lv', h')"
  obtains cooldown spend lv1 where "fst (evaluateBudget r env t lv h) = Inr (cooldown, spend, lv1)"
    "lv_bn lv' = lv_bn lv1" "lv_quotaEvaluated lv'"
    "lv_quotaAtHardLimit lv' = lv_quotaAtHardLimit lv1" "lv_costOverBudget lv' = lv_costOverBudget lv1"
    "lv_costBudgetEvaluated lv' = lv_costBudgetEvaluated lv1"
    "lv_spec lv' = lv_spec lv" "bn_Generation (lv_bn lv') = bn_Generation (lv_bn lv)"
    "st_Conditions (bn_Status (lv_bn lv')) = st_Conditions (bn_Status (lv_bn lv))"
proof -
  from assms obtain x h1 where b: "evaluateBudget r env t lv h = (Inr x, h1)"
    by (auto simp: enforceBudget_def go_bind_ok_iff)
  obtain cooldown spend lv1 where x: "x = (cooldown, spend, lv1)" by (cases x)
  note keeps = evaluateBudget_keeps [OF b [unfolded x]]
  from assms b x have "lv_bn lv' = lv_bn lv1 \<and> lv_quotaEvaluated lv' = lv_quotaEvaluated lv1 \<and>
      lv_quotaAtHardLimit lv' = lv_quotaAtHardLimit lv1 \<and> lv_costOverBudget lv' = lv_costOverBudget lv1 \<and>
      lv_costBudgetEvaluated lv' = lv_costBudgetEvaluated lv1"
    by (auto simp: enforceBudget_def scaleAtRisk_def Let_def dest!: scaleDown_keeps recoverWorkloads_keeps
        split: if_splits)
  with b x keeps show ?thesis by (intro that [of cooldown spend lv1]) simp_all
qed

lemma reconcileWorkloads_keeps:
  assumes "reconcileWorkloads r env t ttl lv h = (Inr lv', h')"
  shows "lv_spec lv' = lv_spec lv" "bn_Generation (lv_bn lv') = bn_Generation (lv_bn lv)"
    "st_Conditions (bn_Status (lv_bn lv')) = st_Conditions (bn_Status (lv_bn lv))"
    "lv_quotaEvaluated lv' \<longleftrightarrow> lv_quotaEvaluated lv \<or> \<not> ttl_expired ttl \<and> shouldScaleDeploymentsToZero (lv_spec lv)"
proof -
  have e: "lv_spec lv' = lv_spec lv \<and> bn_Generation (lv_bn lv') = bn_Generation (lv_bn lv) \<and>
      st_Conditions (bn_Status (lv_bn lv')) = st_Conditions (bn_Status (lv_bn lv)) \<and> lv_quotaEvaluated lv'"
    if "enforceBudget r env t lv h1 = (Inr lv', h')" for h1
    using enforceBudget_keeps [OF that] by metis
  have "lv_spec lv' = lv_spec lv \<and> bn_Generation (lv_bn lv') = bn_Generation (lv_bn lv) \<and>
    st_Conditions (bn_Status (lv_bn lv')) = st_Conditions (bn_Status (lv_bn lv)) \<and>
    (lv_quotaEvaluated lv' \<longleftrightarrow> lv_quotaEvaluated lv \<or> \<not> ttl_expired ttl \<and> shouldScaleDeploymentsToZero (lv_spec lv))"
    using assms e
    by (auto simp: reconcileWorkloads_def scaleInGrace_def go_bind_ok_iff dest!: scaleDown_keeps split: if_splits)
  then show "lv_spec lv' = lv_spec lv" "bn_Generation (lv_bn lv') = bn_Generation (lv_bn lv)"
    "st_Conditions (bn_Status (lv_bn lv')) = st_Conditions (bn_Status (lv_bn lv))"
    "lv_quotaEvaluated lv' \<longleftrightarrow> lv_quotaEvaluated lv \<or> \<not> ttl_expired ttl \<and> shouldScaleDeploymentsToZero (lv_spec lv)"
    by simp_all
qed

text \<open>Nothing of the object in memory changes before the status is written, but the status.\<close>

lemma evaluateBudget_object:
  "evaluateBudget r env t lv h = (Inr (c, s, lv1), h') \<Longrightarrow> \<exists>st. lv_bn lv1 = (lv_bn lv)\<lparr>bn_Status := st\<rparr>"
  by (auto simp: evaluateBudget_def resolveNamespaceSpendUSD_def call_defs Let_def
      split: sum.splits prod.splits if_splits option.splits) (metis budget_namespace.surjective budget_namespace.update_convs(6))+

lemma reconcileWorkloads_object:
  assumes "reconcileWorkloads r env t ttl lv h = (Inr lv', h')"
  shows "\<exists>st. lv_bn lv' = (lv_bn lv)\<lparr>bn_Status := st\<rparr>"
proof -
  have same: "lv_bn x = lv_bn y \<Longrightarrow> \<exists>st. lv_bn x = (lv_bn y)\<lparr>bn_Status := st\<rparr>" for x y :: locals
    by (metis budget_namespace.surjective budget_namespace.update_convs(6))
  have "\<exists>st. lv_bn lv' = (lv_bn lv)\<lparr>bn_Status := st\<rparr>" if en: "enforceBudget r env t lv h1 = (Inr lv', h')" for h1
  proof -
    from en obtain c s lv1 h2 where b: "evaluateBudget r env t lv h1 = (Inr (c, s, lv1), h2)"
      by (auto simp: enforceBudget_def go_bind_ok_iff)
    with en have "lv_bn lv' = lv_bn lv1"
      by (auto simp: enforceBudget_def scaleAtRisk_def Let_def dest!: scaleDown_keeps recoverWorkloads_keeps split: if_splits)
    with evaluateBudget_object [OF b] show ?thesis by simp
  qed
  moreover have "lv_bn lv' = lv_bn lv" if "\<nexists>h1. enforceBudget r env t lv h1 = (Inr lv', h')"
    using assms that
    by (auto simp: reconcileWorkloads_def scaleInGrace_def go_bind_ok_iff dest!: scaleDown_keeps split: if_splits)
  ultimately show ?thesis using same by blast
qed

text \<open>Before expiry and with enforcement on, the flags are those that the evaluation has found.\<close>

lemma reconcileWorkloads_found:
  assumes "reconcileWorkloads r env t ttl lv h = (Inr lv', h')"
    and "\<not> ttl_expired ttl" "shouldScaleDeploymentsToZero (lv_spec lv)"
  obtains u h1 h2 cooldown spend lv1 where "ensureResources env (lv_spec lv) h = (Inr u, h1)"
    "evaluateBudget r env t lv h1 = (Inr (cooldown, spend, lv1), h2)"
    "lv_quotaAtHardLimit lv' = lv_quotaAtHardLimit lv1" "lv_costOverBudget lv' = lv_costOverBudget lv1"
proof -
  from assms obtain u h1 where u: "ensureResources env (lv_spec lv) h = (Inr u, h1)"
    and en: "enforceBudget r env t lv h1 = (Inr lv', h')"
    by (auto simp: reconcileWorkloads_def go_bind_ok_iff)
  from en obtain x h2 where b: "evaluateBudget r env t lv h1 = (Inr x, h2)"
    by (auto simp: enforceBudget_def go_bind_ok_iff)
  with u enforceBudget_keeps [OF en] that [of u h1 _ _ _ h2] show ?thesis by fastforce
qed

section \<open>Lemmas: the evaluation of a run\<close>

text \<open>
  Where the budget is evaluated: the calls of the run are those before the evaluation, those of
  the evaluation and those after it. It is the only one of the run, since no other call of the run
  reads the quota or the costs, and it comes before every patch and before the status.
\<close>

fun is_budget_read :: "'q call \<Rightarrow> bool" where
  "is_budget_read (CGetResourceQuota ns n) = True"
| "is_budget_read c = is_cost_query c"

definition evaluated_in_run ::
  "'q reconciler \<Rightarrow> 'q env \<Rightarrow> namespaced_name \<Rightarrow> 'q hist \<Rightarrow> budget_namespace \<Rightarrow>
   duration \<times> float64 \<times> locals \<Rightarrow> 'q call list \<Rightarrow> bool" where
  "evaluated_in_run r env req h bn found after \<longleftrightarrow>
     (\<exists>before during. calls_of r env req h = before @ during @ after \<and>
        evaluateBudget r env (now_of env h req) (initial_locals bn) (h @ before) =
          (Inr found, h @ before @ during) \<and>
        \<not> list_ex is_budget_read (before @ after) \<and>
        \<not> list_ex (\<lambda>c. is_patch c \<or> is_status_update c) (before @ during))"

abbreviation only_sets_up :: "'q call \<Rightarrow> bool" where
  "only_sets_up c \<equiv> \<not> is_budget_read c \<and> \<not> is_patch c \<and> \<not> is_status_update c"

abbreviation no_budget_read :: "'q call \<Rightarrow> bool" where
  "no_budget_read c \<equiv> \<not> is_budget_read c"

lemma run_calls_read_no_budget:
  "scale_run_call c \<Longrightarrow> no_budget_read c" "restore_run_call c \<Longrightarrow> no_budget_read c"
  "setup_call c \<Longrightarrow> only_sets_up c" "clock_call c \<Longrightarrow> only_sets_up c"
  "budget_call c \<Longrightarrow> \<not> is_patch c \<and> \<not> is_status_update c"
  subgoal by (cases c; simp add: scale_run_call_def)
  subgoal by (cases c; simp add: restore_run_call_def)
  subgoal by (cases c; simp)
  subgoal by (cases c; simp)
  subgoal by (cases c; simp)
  done

lemma recoverWorkloads_work: "grows restore_run_call h (snd (recoverWorkloads r env t cooldown spend lv h))"
proof -
  obtain res h1 where pend: "workloadsPendingRestore env (spec_NamespaceName (lv_spec lv)) h = (res, h1)"
    by (metis surj_pair)
  have g: "grows restore_run_call h h1"
    using grows_mono [OF pendingRestore_grows [of h env "spec_NamespaceName (lv_spec lv)"], of restore_run_call] pend
      list_restore_call by (auto simp: restore_run_call_def)
  have ev: "restore_run_call (CEvent e x m)" for e x m by (simp add: restore_run_call_def)
  have "grows restore_run_call h (snd (restoreNow r env lv h1))"
    by (rule grows_trans [OF g restoreNow_grows])
  moreover have "grows restore_run_call h (snd (deferRestore r t cooldown lv h1))"
    by (cases "lv_lastEnfAt lv") (auto simp: deferRestore_def Let_def intro!: record_grows_from g ev)
  ultimately show ?thesis
    by (auto simp: recoverWorkloads_def pend intro!: record_grows_from g ev split: sum.splits)
qed

lemma enforceBudget_reads_once:
  assumes "evaluateBudget r env t lv h = (Inr found, h1)"
  shows "grows no_budget_read h1 (snd (enforceBudget r env t lv h))"
proof -
  obtain cooldown spend lv1 where f: "found = (cooldown, spend, lv1)" by (cases found)
  have "grows no_budget_read h1 (snd (scaleAtRisk r env lv1 h1))"
    unfolding scaleAtRisk_def Let_def by (rule grows_mono [OF scaleDown_grows]) (rule run_calls_read_no_budget)
  moreover have "grows no_budget_read h1 (snd (recoverWorkloads r env t cooldown spend lv1 h1))"
    by (rule grows_mono [OF recoverWorkloads_work]) (rule run_calls_read_no_budget)
  ultimately show ?thesis by (simp add: enforceBudget_def assms f Let_def)
qed

text \<open>The calls before the evaluation.\<close>

lemma setup_before:
  assumes "evaluateTTL env bn (now_of env h req) (started_at h req) = (Inr ttl, h3)"
    and "ensureResources env (bn_Spec bn) h3 = (x, h1)"
  shows "grows only_sets_up h h1"
proof -
  have "grows only_sets_up h (started_at h req)" by (simp add: grows_def)
  moreover have "grows only_sets_up (started_at h req) (snd (evaluateTTL env bn (now_of env h req) (started_at h req)))"
    by (rule grows_mono [OF evaluateTTL_grows run_calls_read_no_budget(4)])
  moreover have "grows only_sets_up h3 (snd (ensureResources env (bn_Spec bn) h3))"
    by (rule grows_mono [OF ensureResources_grows run_calls_read_no_budget(3)])
  ultimately show ?thesis unfolding assms snd_conv by (blast intro: grows_trans)
qed

context optional_spend_source
begin

lemma evaluation_in_run:
  assumes "env_getBudgetNamespace env h req = Inr bn" "validateCostBudgetSpec (bn_Spec bn) = None"
    and ttl: "evaluateTTL env bn (now_of env h req) (started_at h req) = (Inr ttl, h3)" "\<not> ttl_expired ttl"
    and on: "shouldScaleDeploymentsToZero (bn_Spec bn)"
    and u: "ensureResources env (bn_Spec bn) h3 = (Inr u, h1)"
    and b: "evaluateBudget r env (now_of env h req) (initial_locals bn) h1 = (Inr found, h2)"
  obtains after where "evaluated_in_run r env req h bn found after"
proof -
  let ?en = "enforceBudget r env (now_of env h req) (initial_locals bn) h1"
  from setup_before [OF ttl(1) u] obtain before where before: "h1 = h @ before" "list_all only_sets_up before"
    by (auto simp: grows_def)
  from evaluateBudget_grows [of h1 env "now_of env h req" "initial_locals bn"] b
  obtain during where during: "h2 = h1 @ during" "list_all budget_call during" by (auto simp: grows_def)
  have "snd (Reconcile r env req h) = snd (go_bind ?en (finishReconcile env ttl))"
    using assms by (simp add: Reconcile_valid reconcileWorkloads_def initial_locals_def)
  moreover have "grows no_budget_read h2 (snd (go_bind ?en (finishReconcile env ttl)))"
    by (rule grows_go_bind) (simp_all add: enforceBudget_reads_once [OF b] finish_call grows_snoc)
  ultimately obtain after where after: "snd (Reconcile r env req h) = h2 @ after" "list_all no_budget_read after"
    by (auto simp: grows_def)
  with before during b run_calls_read_no_budget(5) have "evaluated_in_run r env req h bn found after"
    unfolding evaluated_in_run_def
    by (intro exI [of _ before] exI [of _ during]) (auto simp: calls_of_def list_ex_iff list_all_iff)
  then show ?thesis by (rule that)
qed

text \<open>A run that could not set the namespace up patches nothing; the patches of the others come after it.\<close>

lemma no_patch_without_setup:
  assumes "env_getBudgetNamespace env h req = Inr bn" "validateCostBudgetSpec (bn_Spec bn) = None"
    and "evaluateTTL env bn (now_of env h req) (started_at h req) = (Inr ttl, h3)" "\<not> ttl_expired ttl"
    and "ensureResources env (bn_Spec bn) h3 = (Inl err, h1)"
  shows "\<not> list_ex is_patch (calls_of r env req h)"
proof -
  from assms have "snd (Reconcile r env req h) = h1"
    by (simp add: Reconcile_valid reconcileWorkloads_def initial_locals_def)
  with setup_before [OF assms(3,5)] show ?thesis
    by (auto simp: calls_of_def grows_def list_ex_iff list_all_iff)
qed

end

text \<open>Every patch and every status of the run comes after the evaluation.\<close>

lemma evaluated_first:
  assumes "evaluated_in_run r env req h bn found after" "c \<in> set (calls_of r env req h)"
    and "is_patch c \<or> is_status_update c"
  shows "c \<in> set after"
  using assms by (auto simp: evaluated_in_run_def list_ex_iff)

context optional_spend_source
begin

lemma patch_evaluated:
  assumes "c \<in> set (calls_of r env req h)" "is_patch c" "env_getBudgetNamespace env h req = Inr bn"
    and ttl: "evaluateTTL env bn (now_of env h req) (started_at h req) = (Inr ttl, h3)" "\<not> ttl_expired ttl"
    and on: "shouldScaleDeploymentsToZero (bn_Spec bn)"
    and b: "evaluateBudget r env (now_of env h req) (initial_locals bn) (snd (ensureResources env (bn_Spec bn) h3)) =
      (Inr found, h2)"
  obtains after where "evaluated_in_run r env req h bn found after" "c \<in> set after"
proof -
  have valid: "validateCostBudgetSpec (bn_Spec bn) = None"
    using assms(1-3) by (cases "validateCostBudgetSpec (bn_Spec bn)") (auto simp: calls_of_def Reconcile_invalid)
  obtain x h1 where x: "ensureResources env (bn_Spec bn) h3 = (x, h1)" by (metis surj_pair)
  show ?thesis
  proof (cases x)
    case (Inl err)
    with no_patch_without_setup [OF assms(3) valid ttl] x assms(1,2) show ?thesis by (auto simp: list_ex_iff)
  next
    case (Inr u)
    have b1: "evaluateBudget r env (now_of env h req) (initial_locals bn) h1 = (Inr found, h2)"
      using b x by simp
    obtain after where after: "evaluated_in_run r env req h bn found after"
      by (rule evaluation_in_run [OF assms(3) valid ttl on x [unfolded Inr] b1])
    show ?thesis
      by (rule that [OF after evaluated_first [OF after assms(1)]]) (simp add: assms(2))
  qed
qed

end

section \<open>Lemmas: the status update\<close>

text \<open>How a run ends: it writes the status as its last call, or it ends earlier without.\<close>

lemma started_no_status: "grows (\<lambda>c. \<not> is_status_update c) h (started_at h req)"
  "grows (\<lambda>c. \<not> is_status_update c) h (read_at h req)"
  by (simp_all add: grows_def)

context optional_spend_source
begin

lemma Reconcile_ends:
  obtains (no_status) "grows (\<lambda>c. \<not> is_status_update c) h (snd (Reconcile r env req h))"
      "fst (Reconcile r env req h) = Inr emptyResult \<or> \<not> is_ok (fst (Reconcile r env req h))"
      "fst (Reconcile r env req h) = Inr emptyResult \<Longrightarrow>
        \<exists>err. env_getBudgetNamespace env h req = Inl err \<and> env_isNotFound env err"
  | (status) bn ttl h3 lv h4 where "env_getBudgetNamespace env h req = Inr bn"
      "evaluateTTL env bn (now_of env h req) (started_at h req) = (Inr ttl, h3)"
      "reconcileWorkloads r env (now_of env h req) ttl (initial_locals bn) h3 = (Inr lv, h4)"
      "Reconcile r env req h = finishReconcile env ttl lv h4"
      "grows (\<lambda>c. \<not> is_status_update c) h h4"
proof (cases "env_getBudgetNamespace env h req")
  case (Inl err)
  show ?thesis
    by (rule no_status) (use Inl in \<open>auto simp: Reconcile_unread grows_snoc split: if_splits\<close>)
next
  case bn: (Inr bn)
  show ?thesis
  proof (cases "validateCostBudgetSpec (bn_Spec bn)")
    case (Some err)
    with bn no_status show ?thesis by (simp add: Reconcile_invalid grows_snoc)
  next
    case None
    note run = Reconcile_valid [OF bn None, of r]
    obtain x h3 where ttl: "evaluateTTL env bn (now_of env h req) (started_at h req) = (x, h3)" by (metis surj_pair)
    have g3: "grows (\<lambda>c. \<not> is_status_update c) h h3"
    proof (rule grows_trans [OF started_no_status(1)])
      have "grows clock_call (started_at h req) h3"
        using evaluateTTL_grows [of "started_at h req" env bn "now_of env h req"] ttl by simp
      then show "grows (\<lambda>c. \<not> is_status_update c) (started_at h req) h3"
        by (rule grows_mono) (auto elim: clock_call.elims)
    qed
    show ?thesis
    proof (cases x)
      case (Inl err)
      with run ttl g3 no_status show ?thesis by simp
    next
      case t: (Inr t)
      obtain y h4 where rw: "reconcileWorkloads r env (now_of env h req) t (initial_locals bn) h3 = (y, h4)"
        by (metis surj_pair)
      have "grows (\<lambda>c. \<not> is_status_update c) h3 h4"
        using grows_mono [OF reconcileWorkloads_grows [of env "now_of env h req" t "initial_locals bn" h3],
            of "\<lambda>c. \<not> is_status_update c"] rw by (simp add: permitted_def)
      with g3 have g4: "grows (\<lambda>c. \<not> is_status_update c) h h4" by (rule grows_trans)
      show ?thesis
      proof (cases y)
        case (Inl err)
        with run ttl t rw g4 no_status show ?thesis by simp
      next
        case (Inr lv)
        with run ttl t rw g4 bn status show ?thesis by simp
      qed
    qed
  qed
qed

lemma Reconcile_status_call:
  assumes "CUpdateStatus b \<in> set (calls_of r env req h)"
  obtains bn ttl h3 lv h4 where "env_getBudgetNamespace env h req = Inr bn"
      "evaluateTTL env bn (now_of env h req) (started_at h req) = (Inr ttl, h3)"
      "reconcileWorkloads r env (now_of env h req) ttl (initial_locals bn) h3 = (Inr lv, h4)"
      "b = writeStatus env h4 ttl lv" "snd (Reconcile r env req h) = h4 @ [CUpdateStatus b]"
proof (cases rule: Reconcile_ends [of h env req])
  case no_status
  from grows_drop [OF no_status(1)] assms have False by (auto simp: calls_of_def list_all_iff)
  then show ?thesis ..
next
  case (status bn ttl h3 lv h4)
  then have s: "snd (Reconcile r env req h) = h4 @ [CUpdateStatus (writeStatus env h4 ttl lv)]"
    by (simp add: finish_call)
  from status(5) obtain cs where cs: "h4 = h @ cs" "list_all (\<lambda>c. \<not> is_status_update c) cs"
    by (auto simp: grows_def)
  with s assms have "b = writeStatus env h4 ttl lv" by (auto simp: calls_of_def list_all_iff)
  with status s that show ?thesis by blast
qed

end

text \<open>The conditions of a written status, with what they are computed from.\<close>

context optional_spend_source
begin

lemma Reconcile_conditions:
  assumes "env_getBudgetNamespace env h req = Inr bn" "CUpdateStatus b \<in> set (calls_of r env req h)"
  obtains ttl h3 lv h4 where "validateCostBudgetSpec (bn_Spec bn) = None"
    "evaluateTTL env bn (now_of env h req) (started_at h req) = (Inr ttl, h3)"
    "reconcileWorkloads r env (now_of env h req) ttl (initial_locals bn) h3 = (Inr lv, h4)"
    "st_Conditions (bn_Status b) =
       foldl (env_setStatusCondition env h4) (st_Conditions (bn_Status bn)) (newConditions ttl lv)"
    "lv_spec lv = bn_Spec bn" "bn_Generation (lv_bn lv) = bn_Generation bn"
    "ttl_expired ttl = expired_at bn (now_of env h req)"
    "lv_quotaEvaluated lv \<longleftrightarrow> \<not> expired_at bn (now_of env h req) \<and> shouldScaleDeploymentsToZero (bn_Spec bn)"
proof -
  from assms(2) obtain bn' ttl h3 lv h4 where bn': "env_getBudgetNamespace env h req = Inr bn'"
    and ttl: "evaluateTTL env bn' (now_of env h req) (started_at h req) = (Inr ttl, h3)"
    and rw: "reconcileWorkloads r env (now_of env h req) ttl (initial_locals bn') h3 = (Inr lv, h4)"
    and b: "b = writeStatus env h4 ttl lv"
    by (rule Reconcile_status_call)
  from assms(1) bn' have "bn' = bn" by simp
  have valid: "validateCostBudgetSpec (bn_Spec bn) = None"
    using assms by (cases "validateCostBudgetSpec (bn_Spec bn)") (auto simp: calls_of_def Reconcile_invalid)
  note keeps = reconcileWorkloads_keeps [OF rw, unfolded \<open>bn' = bn\<close>]
  have i: "lv_spec (initial_locals bn) = bn_Spec bn" "lv_bn (initial_locals bn) = bn"
    "\<not> lv_quotaEvaluated (initial_locals bn)" by (simp_all add: initial_locals_def)
  show ?thesis
    using that [OF valid ttl [unfolded \<open>bn' = bn\<close>] rw [unfolded \<open>bn' = bn\<close>]] b keeps i
      evaluateTTL_ok(1) [OF ttl] \<open>bn' = bn\<close>
    by (simp add: writeStatus_def Let_def)
qed

end

section \<open>Lemmas: nothing left to scale\<close>

text \<open>A run that finds nothing to scale does not record a scale-down.\<close>

definition nothing_to_scale :: "'q env \<Rightarrow> string \<Rightarrow> bool" where
  "nothing_to_scale env ns \<longleftrightarrow>
     (\<forall>h. \<exists>ds ss. env_listDeployments env h ns = Inr (map (patched scaleDeployment) ds) \<and>
        env_listStatefulSets env h ns = Inr (map (patched scaleStatefulSet) ss))"

lemma scaleDown_nothing:
  assumes "nothing_to_scale env (spec_NamespaceName (lv_spec lv))"
  shows "fst (scaleDown r env message lv h) = Inr lv"
proof -
  let ?ns = "spec_NamespaceName (lv_spec lv)"
  obtain ds where d: "env_listDeployments env h ?ns = Inr (map (patched scaleDeployment) ds)"
    using assms by (auto simp: nothing_to_scale_def)
  obtain ss where s: "env_listStatefulSets env (h @ [CListDeployments ?ns]) ?ns = Inr (map (patched scaleStatefulSet) ss)"
    using assms unfolding nothing_to_scale_def by blast
  have "fst (scaleWorkloadsToZero env ?ns h) = (0, None)"
    using sd.run_succeeds [OF d] ss.run_succeeds [OF s]
    by (simp add: scaleWorkloads_cases dep.plan_scale_again sts.plan_scale_again)
  then show ?thesis by (auto simp: scaleDown_def split: prod.splits option.splits)
qed

lemma reconcileWorkloads_nothing:
  assumes "reconcileWorkloads r env t ttl lv h = (Inr lv', h')"
    and "nothing_to_scale env (spec_NamespaceName (lv_spec lv))"
  shows "lv_lastEnfOp lv' \<in> {lv_lastEnfOp lv, enforcementOpRestore}"
proof -
  have down: "lv_lastEnfOp y = lv_lastEnfOp x"
    if "scaleDown r env m x g = (Inr y, g')" "lv_spec x = lv_spec lv" for m x y g g'
    using scaleDown_nothing [of env x r m g] that assms(2) by simp
  have up: "lv_lastEnfOp y \<in> {lv_lastEnfOp x, enforcementOpRestore}"
    if "recoverWorkloads r env t c sp x g = (Inr y, g')" for c sp x y g g'
    using that by (auto simp: recoverWorkloads_def restoreNow_def deferRestore_def call_defs Let_def
        split: prod.splits option.splits if_splits sum.splits)
  have enf: "lv_lastEnfOp lv' \<in> {lv_lastEnfOp lv, enforcementOpRestore}"
    if en: "enforceBudget r env t lv h1 = (Inr lv', h')" for h1
  proof -
    from en obtain cooldown spend lv1 h2 where b: "evaluateBudget r env t lv h1 = (Inr (cooldown, spend, lv1), h2)"
      by (auto simp: enforceBudget_def go_bind_ok_iff)
    with en evaluateBudget_keeps(1,4) [OF b] show ?thesis
      by (auto simp: enforceBudget_def scaleAtRisk_def Let_def dest: down dest!: up split: if_splits)
  qed
  show ?thesis
    using assms(1) by (auto simp: reconcileWorkloads_def scaleInGrace_def go_bind_ok_iff dest!: down enf split: if_splits)
qed

end
