(* ===== verification/Sample_Runs.thy ===== *)
theory Sample_Runs
  imports Reconcile
begin

text \<open>
  Runs of \<open>Reconcile\<close> on the sample environment, for the witnesses: one that scales to zero,
  one that restores, one that deletes, and one whose clock jumps over the expiry.
\<close>

lemma sample_parses:
  "parseDuration ''1h'' = Inr (3600 * 1000000000)" "parseDuration ''2m'' = Inr (120 * 1000000000)"
  "parseInt32 ''4'' = Inr 4" "parseInt32 ''8'' = Inr 8" "parseInt32 ''20'' = Inr 20"
  "parseInt32 ''1'' = Inr 1" "parseInt32 ''2'' = Inr 2"
  "parseInt32 (format_int 5) = Inr 5" "parseInt32 (format_int 10) = Inr 10"
proof -
  show "parseInt32 (format_int 5) = Inr 5" "parseInt32 (format_int 10) = Inr 10"
    by (simp_all add: parseInt32_format_int)
qed (simp_all add: parse_duration_eval parse_int_eval)

text \<open>The equations that run the model on closed input, part by part.\<close>

lemmas run_setup =
  ensureResources_def ensureNamespace_def applyResourceQuota_def applyLimitRange_def quotaHard_def
  mustParseCount_def parseQuantity_def limitItems_def sample_spec_def sample_parses

lemmas run_ttl =
  evaluateTTL_def time_ops is_zero_time_def zero_time_def second_def minute_def hour_def
  ttlDeleteGracePeriod_def deleteExpired_def

lemmas run_budget =
  evaluateBudget_def enforcementCooldown_def costBudgetEnabled_def quotaUsedAtOrOverHard_def
  shouldScaleDeploymentsToZero_def enforcementOpScaleToZero_def initial_locals_def

lemmas run_scale =
  scaleAtRisk_def scaleInGrace_def scaleDown_def scaleWorkloadsToZero_def scaleDeploymentsToZero_def
  scaleStatefulSetsToZero_def

lemmas run_restore =
  recoverWorkloads_def restoreNow_def deferRestore_def restoreScaledWorkloads_def
  restoreDeploymentsFromAnnotation_def restoreStatefulSetsFromAnnotation_def workloadsPendingRestore_def
  deploymentsPendingRestore_def statefulSetsPendingRestore_def canRestoreAfterScaleDown_def
  restoreOnRecoveryEnabled_def withinCostBudgetForRestore_def enforcementOpRestore_def

lemmas run_eval =
  Reconcile_def call_defs validateCostBudgetSpec_def Let_def reconcileWorkloads_def enforceBudget_def
  recordNormal_def recordWarning_def newReconciler_def finishReconcile_def calls_of_def now_of_def
  run_setup run_ttl run_budget run_scale run_restore

text \<open>The reconciler with an event recorder and a BigQuery client.\<close>

abbreviation sample_operator :: "sample \<Rightarrow> int reconciler" where
  "sample_operator m \<equiv> newReconciler (sample_env m) True True"

definition sample_request :: namespaced_name where
  "sample_request = \<lparr>nn_Namespace = ''default'', nn_Name = ''budget''\<rparr>"

text \<open>The workloads of the sample are scaled by a run at a hard limit.\<close>

lemma sample_scaled:
  obtains d s where "scaleDeployment sample_deployment = Some d" "scaleStatefulSet sample_stateful_set = Some s"
proof -
  have "scaleDeployment sample_deployment \<noteq> None" "scaleStatefulSet sample_stateful_set \<noteq> None"
    by (simp_all add: dep.scale_None_iff sts.scale_None_iff sample_defs isExempt_def costguardExemptLabel_def)
  with that show ?thesis by auto
qed

lemma sample_run_scales:
  assumes "scaleDeployment sample_deployment = Some d" "scaleStatefulSet sample_stateful_set = Some s"
  shows "filter is_patch (calls_of (sample_operator sample_state) (sample_env sample_state) sample_request []) =
      [CPatchDeployment sample_deployment d, CPatchStatefulSet sample_stateful_set s]"
    and "fst (Reconcile (sample_operator sample_state) (sample_env sample_state) sample_request []) =
      Inr (emptyResult\<lparr>res_RequeueAfter := 30 * second\<rparr>)"
  using assms by (simp_all add: run_eval emptyResult_def requeueResult_def enforcementPollInterval_def time_sub_def
      max_duration_def min_duration_def)

lemma sample_run_updates:
  assumes "scaleDeployment sample_deployment = Some d" "scaleStatefulSet sample_stateful_set = Some s"
  shows "\<exists>b. CUpdateStatus b \<in> set (calls_of (sample_operator sample_state) (sample_env sample_state) sample_request [])"
  using assms by (simp add: run_eval)

text \<open>An hour after its TTL of an hour the Namespace is deleted.\<close>

definition sample_late :: sample where
  "sample_late = sample_state\<lparr>sample_start := 2 * hour\<rparr>"

lemma sample_run_deletes:
  "\<exists>b. calls_of (sample_operator sample_late) (sample_env sample_late) sample_request [] =
     [CGetBudgetNamespace sample_request, CNow,
      CDeleteNamespace \<lparr>ns_Name = ''team'', ns_Labels = None, ns_Annotations = None\<rparr>, CUpdateStatus b]"
  by (simp add: run_eval sample_late_def)

text \<open>With the quota below its limits, a Deployment that was scaled down is restored.\<close>

definition sample_waiting :: deployment where
  "sample_waiting = sample_deployment\<lparr>dep_Replicas := Some 0,
     dep_Annotations := Some (Map.empty(preScaleReplicasAnnotation \<mapsto> ''2''))\<rparr>"

definition sample_calm :: sample where
  "sample_calm = sample_state\<lparr>sample_used := [(''pods'', 3)], sample_deployments := [sample_waiting]\<rparr>"

lemma sample_run_restores:
  "\<exists>d'. filter is_patch (calls_of (sample_operator sample_calm) (sample_env sample_calm) sample_request []) =
      [CPatchDeployment sample_waiting d'] \<and> dep_Replicas d' = Some 2"
proof -
  obtain d' where d': "restoreDeployment sample_waiting = Some d'" "dep_Replicas d' = Some 2"
    by (simp add: restoreDeployment_def sample_waiting_def sample_deployment_def isExempt_def sample_parses)
  have "deploymentPending sample_waiting"
    using d'(1) depr.restore_pending by blast
  moreover have "restoreStatefulSet sample_stateful_set = None"
    by (simp add: restoreStatefulSet_def sample_stateful_set_def)
  ultimately show ?thesis
    using d' by (simp add: run_eval sample_calm_def sample_status_def)
qed

lemma sample_variants [simp]:
  "sample_bn sample_late = sample_bn_of sample_spec" "sample_bn sample_calm = sample_bn_of sample_spec"
  by (simp_all add: sample_late_def sample_calm_def)

text \<open>A server on which everything already stands at zero, while the quota is at its limit.\<close>

definition sample_parked :: "int env" where
  "sample_parked = (sample_env sample_state)\<lparr>
     env_listDeployments := \<lambda>h ns. Inr (map (patched scaleDeployment) [sample_deployment]),
     env_listStatefulSets := \<lambda>h ns. Inr (map (patched scaleStatefulSet) [sample_stateful_set])\<rparr>"

lemma sample_run_parked:
  "\<exists>b. CUpdateStatus b \<in> set (calls_of (newReconciler sample_parked True True) sample_parked sample_request [])"
proof -
  obtain d s where ds: "scaleDeployment sample_deployment = Some d" "scaleStatefulSet sample_stateful_set = Some s"
    by (rule sample_scaled)
  moreover have "scaleDeployment d = None" "scaleStatefulSet s = None"
    using ds dep.scale_twice sts.scale_twice by blast+
  ultimately show ?thesis by (simp add: run_eval sample_parked_def)
qed

text \<open>A clock that jumps from just before the expiry to just after it.\<close>

definition sample_jump :: "int env" where
  "sample_jump = (sample_env sample_state)\<lparr>env_clock := \<lambda>h. if length h \<le> 1 then 3599 * second else 3601 * second\<rparr>"

lemma sample_run_jump:
  "\<exists>res h'. Reconcile (newReconciler sample_jump True True) sample_jump sample_request [] = (Inr res, h') \<and>
     \<not> res_Requeue res"
proof -
  obtain d s where "scaleDeployment sample_deployment = Some d" "scaleStatefulSet sample_stateful_set = Some s"
    by (rule sample_scaled)
  then show ?thesis
    by (simp add: run_eval sample_jump_def emptyResult_def requeueResult_def enforcementPollInterval_def
        time_sub_def max_duration_def min_duration_def)
qed

end
