(* ===== verification/Lifecycle.thy ===== *)
theory Lifecycle
  imports Enforcement
begin

text \<open>
  The life of a workload under the operator, as a state machine: the steps are the loop bodies
  of \<open>scaleDeploymentsToZero\<close> (\<open>workload_scale.go\<close>) and \<open>restoreDeploymentsFromAnnotation\<close>
  (\<open>budgetnamespace_enforcement.go\<close>), their StatefulSet versions, and what other people may
  do meanwhile: set the replica count, or change the labels of the pod template.
\<close>

section \<open>The step relation\<close>

datatype workload_object = Dep deployment | Sts stateful_set

inductive life_step :: "workload_object \<Rightarrow> workload_object \<Rightarrow> bool" where
  scale_dep: "scaleDeployment d = Some d' \<Longrightarrow> life_step (Dep d) (Dep d')"
| scale_sts: "scaleStatefulSet s = Some s' \<Longrightarrow> life_step (Sts s) (Sts s')"
| restore_dep: "restoreDeployment d = Some d' \<Longrightarrow> life_step (Dep d) (Dep d')"
| restore_sts: "restoreStatefulSet s = Some s' \<Longrightarrow> life_step (Sts s) (Sts s')"
| resize_dep: "0 \<le> sint r \<Longrightarrow> life_step (Dep d) (Dep (d\<lparr>dep_Replicas := Some r\<rparr>))"
| resize_sts: "0 \<le> sint r \<Longrightarrow> life_step (Sts s) (Sts (s\<lparr>sts_Replicas := Some r\<rparr>))"
| relabel_dep: "life_step (Dep d) (Dep (d\<lparr>dep_TemplateLabels := l\<rparr>))"
| relabel_sts: "life_step (Sts s) (Sts (s\<lparr>sts_TemplateLabels := l\<rparr>))"

abbreviation life :: "workload_object \<Rightarrow> workload_object \<Rightarrow> bool" where
  "life \<equiv> life_step\<^sup>*\<^sup>*"

text \<open>What the operations see of an object.\<close>

fun kept :: "workload_object \<Rightarrow> bool" where
  "kept (Dep d) = well_kept (dep_Replicas d) (dep_Annotations d)"
| "kept (Sts s) = well_kept (sts_Replicas s) (sts_Annotations s)"

fun awaits_restore :: "workload_object \<Rightarrow> bool" where
  "awaits_restore (Dep d) = deploymentPending d"
| "awaits_restore (Sts s) = statefulSetPending s"

fun restorable :: "workload_object \<Rightarrow> bool" where
  "restorable (Dep d) = (restoreDeployment d \<noteq> None)"
| "restorable (Sts s) = (restoreStatefulSet s \<noteq> None)"

section \<open>Lemmas\<close>

lemma well_kept_resize: "0 \<le> sint r \<Longrightarrow> well_kept r' a \<Longrightarrow> well_kept (Some r) a"
  by (auto simp: well_kept_def)

lemma life_step_keeps: "life_step w w' \<Longrightarrow> kept w \<Longrightarrow> kept w'"
  by (induction rule: life_step.induct)
     (auto intro: depr.scale_keeps stsr.scale_keeps depr.restore_keeps stsr.restore_keeps well_kept_resize)

lemma life_keeps: "life w w' \<Longrightarrow> kept w \<Longrightarrow> kept w'"
  by (induction rule: rtranclp_induct) (auto intro: life_step_keeps)

lemma kept_restorable: "kept w \<Longrightarrow> awaits_restore w \<Longrightarrow> restorable w"
  by (cases w) (auto dest: depr.kept_not_stuck stsr.kept_not_stuck)

section \<open>Properties\<close>

text \<open>
  C12: A workload is never stuck by the operator's own doing. Start from a workload that has a
  replica count that is not negative and no saved count, or a usable one, and let the operator
  scale and restore it and let anybody resize or relabel it, in any order and any number of
  times: whenever it then counts as pending, a restore of it succeeds.
\<close>

theorem workload_never_stuck:
  assumes "life w w'" "kept w" "awaits_restore w'"
  shows "restorable w'"
  using assms life_keeps kept_restorable by blast

theorem workload_never_stuck_witness:
  "\<exists>d. scaleDeployment sample_deployment = Some d \<and> restorable (Dep d)"
proof -
  have "\<not> isExempt (dep_TemplateLabels sample_deployment)"
    by (simp add: sample_deployment_def isExempt_def)
  then have "scaleDeployment sample_deployment \<noteq> None"
    by (simp add: dep.scale_None_iff sample_deployment_def)
  then obtain d where d: "scaleDeployment sample_deployment = Some d" by auto
  then have "life (Dep sample_deployment) (Dep d)" by (auto intro: life_step.scale_dep)
  moreover have "kept (Dep sample_deployment)" by (simp add: sample_deployment_def well_kept_def)
  moreover have "awaits_restore (Dep d)" using d by (simp add: depr.scaled_pending)
  ultimately show ?thesis using d workload_never_stuck by blast
qed

text \<open>
  C13: Scaling and restoring implement parking a count. For Deployments and StatefulSets that
  are not exempt and are kept well, seen as a replica count with an optional saved count, the
  two operations do exactly what the abstract \<open>park\<close> and \<open>unpark\<close> do, in what they return
  and in when they do nothing.
\<close>

theorem operations_park_and_unpark:
  assumes "\<not> isExempt (dep_TemplateLabels d)" "well_kept (dep_Replicas d) (dep_Annotations d)"
    and "\<not> isExempt (sts_TemplateLabels s)" "well_kept (sts_Replicas s) (sts_Annotations s)"
  shows
    "map_option (\<lambda>d. counts_of (dep_Replicas d) (dep_Annotations d)) (scaleDeployment d) =
       park (counts_of (dep_Replicas d) (dep_Annotations d)) \<and>
     map_option (\<lambda>d. counts_of (dep_Replicas d) (dep_Annotations d)) (restoreDeployment d) =
       unpark (counts_of (dep_Replicas d) (dep_Annotations d)) \<and>
     map_option (\<lambda>s. counts_of (sts_Replicas s) (sts_Annotations s)) (scaleStatefulSet s) =
       park (counts_of (sts_Replicas s) (sts_Annotations s)) \<and>
     map_option (\<lambda>s. counts_of (sts_Replicas s) (sts_Annotations s)) (restoreStatefulSet s) =
       unpark (counts_of (sts_Replicas s) (sts_Annotations s))"
  using depr.scale_counts depr.restore_counts stsr.scale_counts stsr.restore_counts assms by simp

theorem operations_park_and_unpark_witness:
  "map_option (\<lambda>d. counts_of (dep_Replicas d) (dep_Annotations d)) (scaleDeployment sample_deployment) =
     Some (0, Some 2) \<and>
   map_option (\<lambda>s. counts_of (sts_Replicas s) (sts_Annotations s)) (scaleStatefulSet sample_stateful_set) =
     Some (0, Some 3)"
  using operations_park_and_unpark [of sample_deployment sample_stateful_set]
  by (simp add: sample_deployment_def sample_stateful_set_def isExempt_def well_kept_def counts_of_def
      costguardExemptLabel_def preScaleReplicasAnnotation_def savedCount_def)

text \<open>
  C37: A stale count wins over the current one. If somebody brings a scaled workload back by
  hand, setting its replica count but leaving the annotation, then after the next scale-down a
  restore gives it the old saved count, not the one it ran with.
\<close>

theorem stale_count_is_restored:
  assumes "scaleDeployment d = Some d1"
    and "map_lookup (dep_Annotations d) preScaleReplicasAnnotation = None" "0 < sint (replicas_or 1 (dep_Replicas d))"
    and "scaleDeployment (d1\<lparr>dep_Replicas := Some r\<rparr>) = Some d2"
  shows "\<exists>d3. restoreDeployment d2 = Some d3 \<and> dep_Replicas d3 = Some (replicas_or 1 (dep_Replicas d))"
proof -
  have "savedCount (dep_Annotations d1) = Some (sint (replicas_or 1 (dep_Replicas d)))"
    using depr.scaled_savedCount [OF assms(1)] assms(2,3) by simp
  moreover have "map_lookup (dep_Annotations d1) preScaleReplicasAnnotation \<noteq> None"
    using dep.scaled_annotation [OF assms(1)] by simp
  ultimately have "savedCount (dep_Annotations d2) = Some (sint (replicas_or 1 (dep_Replicas d)))"
    using depr.scaled_savedCount [OF assms(4)] by (auto split: option.splits)
  from depr.restore_scale_saved [OF assms(4) this] show ?thesis by simp
qed

theorem stale_count_is_restored_witness:
  "\<exists>d1 d2 d3. scaleDeployment sample_deployment = Some d1 \<and>
     scaleDeployment (d1\<lparr>dep_Replicas := Some 7\<rparr>) = Some d2 \<and>
     restoreDeployment d2 = Some d3 \<and> dep_Replicas d3 = Some 2"
proof -
  have ex: "\<not> isExempt (dep_TemplateLabels sample_deployment)"
    by (simp add: sample_deployment_def isExempt_def)
  then have "scaleDeployment sample_deployment \<noteq> None"
    by (simp add: dep.scale_None_iff sample_deployment_def)
  then obtain d1 where d1: "scaleDeployment sample_deployment = Some d1" by auto
  then have "scaleDeployment (d1\<lparr>dep_Replicas := Some 7\<rparr>) \<noteq> None"
    using ex dep.scaled_labels [OF d1] by (simp add: dep.scale_None_iff)
  then obtain d2 where d2: "scaleDeployment (d1\<lparr>dep_Replicas := Some 7\<rparr>) = Some d2" by auto
  from stale_count_is_restored [OF d1 _ _ d2] d1 d2 show ?thesis
    by (auto simp: sample_deployment_def)
qed

end
