(* ===== verification/Operator_Runs.thy ===== *)
theory Operator_Runs
  imports Sample_Runs Lifecycle
begin

text \<open>
  The operator over time: any number of runs of \<open>Reconcile\<close> for any requests, with events of
  watched objects between them, one after the other, as the single worker of the controller
  makes them. The state is the history; restarts change which reconciler runs, and a process can
  end in the middle of a run, after any of its calls.
\<close>

inductive operator_step :: "'q env \<Rightarrow> 'q hist \<Rightarrow> 'q hist \<Rightarrow> bool" for env where
  reconcile: "operator_step env h (snd (Reconcile (newReconciler env recorder clientOk) env req h))"
| crash: "operator_step env h (h @ take n (calls_of (newReconciler env recorder clientOk) env req h))"
| event: "operator_step env h (snd (quotaEvent env obj h))"

abbreviation operator_history :: "'q env \<Rightarrow> 'q hist \<Rightarrow> bool" where
  "operator_history env h \<equiv> (operator_step env)\<^sup>*\<^sup>* [] h"

section \<open>Lemmas\<close>

text \<open>A property of every call with the history before it.\<close>

definition every_call :: "('q hist \<Rightarrow> 'q call \<Rightarrow> bool) \<Rightarrow> 'q hist \<Rightarrow> bool" where
  "every_call P h \<longleftrightarrow> (\<forall>p c s. h = p @ c # s \<longrightarrow> P p c)"

lemma every_call_Nil [simp]: "every_call P []"
  by (simp add: every_call_def)

lemma every_callD: "every_call P h \<Longrightarrow> h = p @ c # s \<Longrightarrow> P p c"
  by (simp add: every_call_def)

lemma every_call_append:
  assumes "every_call P h" "\<And>p c s. cs = p @ c # s \<Longrightarrow> P (h @ p) c"
  shows "every_call P (h @ cs)"
  unfolding every_call_def
proof (intro allI impI)
  fix p c s
  assume "h @ cs = p @ c # s"
  then consider us where "h = p @ c # us" | us where "p = h @ us" "cs = us @ c # s"
    by (auto simp: append_eq_append_conv2 append_eq_Cons_conv)
  then show "P p c" using assms by cases (auto simp: every_call_def)
qed

text \<open>Where a run deletes: right after it has read the object and the clock.\<close>

lemma due_run_calls:
  assumes "env_getBudgetNamespace env h req = Inr bn" "validateCostBudgetSpec (bn_Spec bn) = None"
    and due: "delete_due_at bn (now_of env h req)"
    and ttl: "evaluateTTL env bn (now_of env h req) (started_at h req) = (Inr ttl, h3)"
  shows "\<exists>tail. calls_of r env req h = [CGetBudgetNamespace req, CNow,
      CDeleteNamespace \<lparr>ns_Name = spec_NamespaceName (bn_Spec bn), ns_Labels = None, ns_Annotations = None\<rparr>] @ tail \<and>
    list_all is_status_update tail"
proof -
  from evaluateTTL_ok(1,2) [OF ttl] due delete_due_expired [OF due] have "ttl_expired ttl" "ttl_deleting ttl"
    by simp_all
  moreover from ttl due delete_due_expired [OF due] have "h3 = started_at h req"
    by (auto simp: evaluateTTL_def delete_due_at_def expired_at_def expiry_time_def time_ops Let_def is_zero_time_def
        split: sum.splits if_splits)
  ultimately show ?thesis
    by (auto simp: calls_of_def Reconcile_valid [OF assms(1,2)] ttl reconcileWorkloads_def deleteExpired_def
        call_defs finish_call initial_locals_def Let_def split: option.splits)
qed

lemma wired_delete_position:
  assumes calls: "calls_of (newReconciler env recorder clientOk) env req h = p @ CDeleteNamespace n # s"
  shows "p = [CGetBudgetNamespace req, CNow] \<and>
    (\<exists>bn. env_getBudgetNamespace env h req = Inr bn \<and> delete_due_at bn (now_of env h req) \<and>
       ns_Name n = spec_NamespaceName (bn_Spec bn))"
proof -
  let ?r = "newReconciler env recorder clientOk"
  from calls have "CDeleteNamespace n \<in> set (calls_of ?r env req h)" by simp
  then obtain bn ttl h3 where bn: "env_getBudgetNamespace env h req = Inr bn"
    and ttl: "evaluateTTL env bn (now_of env h req) (started_at h req) = (Inr ttl, h3)"
    and "permitted ?r env (now_of env h req) ttl (initial_locals bn) h3 (CDeleteNamespace n)"
    by (rule wired.Reconcile_call) auto
  then have due: "delete_due_at bn (now_of env h req)" and n: "ns_Name n = spec_NamespaceName (bn_Spec bn)"
    using evaluateTTL_ok(2) [OF ttl] by (simp_all add: permitted_def initial_locals_def)
  have valid: "validateCostBudgetSpec (bn_Spec bn) = None"
    using calls by (cases "validateCostBudgetSpec (bn_Spec bn)")
      (simp_all add: calls_of_def Reconcile_invalid [OF bn] append_eq_Cons_conv Cons_eq_append_conv)
  from due_run_calls [OF bn valid due ttl, of ?r] obtain tail where
    t: "p @ CDeleteNamespace n # s = [CGetBudgetNamespace req, CNow,
      CDeleteNamespace \<lparr>ns_Name = spec_NamespaceName (bn_Spec bn), ns_Labels = None, ns_Annotations = None\<rparr>] @ tail"
    "list_all is_status_update tail" unfolding calls by blast
  then have "p = [CGetBudgetNamespace req, CNow]"
    by (auto simp: append_eq_Cons_conv Cons_eq_append_conv append_eq_append_conv2)
  with bn due n show ?thesis by blast
qed

text \<open>A patch of the operator scales or restores.\<close>

lemma wired_patch_kind:
  assumes "c \<in> set (calls_of (newReconciler env recorder clientOk) env req h)" "is_patch c"
  shows "scale_call c \<or> restore_call c"
proof -
  have "c \<noteq> CGetBudgetNamespace req \<and> c \<noteq> CNow \<and> \<not> is_status_update c"
    using assms(2) by (cases c) auto
  with assms(1) obtain bn ttl h3 where
    "permitted (newReconciler env recorder clientOk) env (now_of env h req) ttl (initial_locals bn) h3 c"
    by (blast elim: wired.Reconcile_call)
  with assms(2) show ?thesis
    by (auto simp: permitted_def may_patch_def split: if_splits sum.splits)
qed

text \<open>All patches of a run go one way.\<close>

lemma wired_one_way:
  assumes c: "c \<in> set (calls_of (newReconciler env recorder clientOk) env req h)" "is_patch c" "\<not> scale_call c"
    and c': "c' \<in> set (calls_of (newReconciler env recorder clientOk) env req h)" "is_patch c'"
  shows "restore_call c'"
proof -
  let ?r = "newReconciler env recorder clientOk" and ?t = "now_of env h req"
  have k: "x \<noteq> CGetBudgetNamespace req \<and> x \<noteq> CNow \<and> \<not> is_status_update x" if "is_patch x" for x
    using that by (cases x) auto
  from c k obtain bn ttl h3 where bn: "env_getBudgetNamespace env h req = Inr bn"
    and ttl: "evaluateTTL env bn ?t (started_at h req) = (Inr ttl, h3)"
    and p: "permitted ?r env ?t ttl (initial_locals bn) h3 c"
    by (blast elim: wired.Reconcile_call)
  from c' k obtain bn' ttl' h3' where "env_getBudgetNamespace env h req = Inr bn'"
    "evaluateTTL env bn' ?t (started_at h req) = (Inr ttl', h3')"
    "permitted ?r env ?t ttl' (initial_locals bn') h3' c'"
    by (blast elim: wired.Reconcile_call)
  with bn ttl have "permitted ?r env ?t ttl (initial_locals bn) h3 c'" by simp
  with p c(2,3) c'(2) show ?thesis
    by (auto simp: permitted_def may_patch_def split: if_splits sum.splits)
qed

text \<open>What holds of every call, with the history before it.\<close>

definition call_ok :: "'q env \<Rightarrow> 'q hist \<Rightarrow> 'q call \<Rightarrow> bool" where
  "call_ok env p c \<longleftrightarrow>
     (is_patch c \<longrightarrow> scale_call c \<or> restore_call c) \<and>
     (\<forall>n. c = CDeleteNamespace n \<longrightarrow>
        (\<exists>h req bn. p = h @ [CGetBudgetNamespace req, CNow] \<and> env_getBudgetNamespace env h req = Inr bn \<and>
           delete_due_at bn (env_clock env (h @ [CGetBudgetNamespace req])) \<and>
           ns_Name n = spec_NamespaceName (bn_Spec bn)))"

lemma run_appends: "snd (Reconcile (newReconciler env recorder clientOk) env req h) =
    h @ calls_of (newReconciler env recorder clientOk) env req h"
proof -
  have "\<exists>cs. snd (Reconcile (newReconciler env recorder clientOk) env req h) = h @ cs"
  proof (cases rule: wired.Reconcile_ends [of h env recorder clientOk env req])
    case no_status
    then show ?thesis by (auto simp: grows_def)
  next
    case (status bn ttl h3 lv h4)
    then show ?thesis by (auto simp: grows_def finish_call)
  qed
  then show ?thesis by (auto simp: calls_of_def)
qed

lemma run_calls_ok:
  assumes "calls_of (newReconciler env recorder clientOk) env req h = p @ c # s"
  shows "call_ok env (h @ p) c"
proof -
  from assms have "is_patch c \<Longrightarrow> scale_call c \<or> restore_call c"
    using wired_patch_kind [of c env recorder clientOk req h] by simp
  moreover have "\<exists>h' req bn. h @ p = h' @ [CGetBudgetNamespace req, CNow] \<and> env_getBudgetNamespace env h' req = Inr bn \<and>
      delete_due_at bn (env_clock env (h' @ [CGetBudgetNamespace req])) \<and> ns_Name n = spec_NamespaceName (bn_Spec bn)"
    if "c = CDeleteNamespace n" for n
    using wired_delete_position [of env recorder clientOk req h p n s] that assms by (auto simp: now_of_def)
  ultimately show ?thesis by (simp add: call_ok_def)
qed

lemma operator_step_ok:
  assumes "operator_step env h h'" "every_call (call_ok env) h"
  shows "every_call (call_ok env) h'"
  using assms
proof cases
  case (reconcile recorder clientOk req)
  with assms(2) show ?thesis by (simp add: run_appends every_call_append run_calls_ok)
next
  case (crash n recorder clientOk req)
  let ?calls = "calls_of (newReconciler env recorder clientOk) env req h"
  have "call_ok env (h @ p) c" if "take n ?calls = p @ c # s" for p c s
    using append_take_drop_id [of n ?calls] unfolding that
    by (intro run_calls_ok [of env recorder clientOk req h p c "s @ drop n ?calls"]) simp
  with crash assms(2) show ?thesis by (simp add: every_call_append)
next
  case (event obj)
  have "h' = h \<or> h' = h @ [CListBudgetNamespaces]"
    by (auto simp: event quotaEvent_def resourceQuotaToRequests_def call_defs split: client_object.splits sum.splits)
  then show ?thesis using assms(2)
    by (auto simp: call_ok_def Cons_eq_append_conv intro!: every_call_append)
qed

lemma operator_history_ok: "operator_history env h \<Longrightarrow> every_call (call_ok env) h"
  by (induction rule: rtranclp_induct) (auto intro: operator_step_ok)

section \<open>Properties\<close>

text \<open>
  C10: Safety over time. In every history that the operator can produce, with any number of
  runs for any objects, runs cut short after any call, events and restarts, and whatever the server
  answers: every patch of a
  workload is the change of a scale-down or of a restore, and right before every deletion of a
  Namespace the operator read a BudgetNamespace that manages this Namespace and then read the
  clock, at a time at which its TTL and the grace period were over.
\<close>

theorem every_history_is_safe:
  assumes "operator_history env h" "h = p @ c # s"
  shows "(is_patch c \<longrightarrow> scale_call c \<or> restore_call c) \<and>
    (\<forall>n. c = CDeleteNamespace n \<longrightarrow>
       (\<exists>h0 req bn. p = h0 @ [CGetBudgetNamespace req, CNow] \<and> env_getBudgetNamespace env h0 req = Inr bn \<and>
          delete_due_at bn (env_clock env (h0 @ [CGetBudgetNamespace req])) \<and>
          ns_Name n = spec_NamespaceName (bn_Spec bn)))"
  using every_callD [OF operator_history_ok [OF assms(1)] assms(2)] by (simp add: call_ok_def)

theorem every_history_is_safe_witness:
  "delete_due_at (sample_bn_of sample_spec)
     (env_clock (sample_env sample_late) [CGetBudgetNamespace sample_request])"
proof -
  let ?n = "\<lparr>ns_Name = ''team'', ns_Labels = None, ns_Annotations = None\<rparr>"
  from sample_run_deletes obtain b where
    "calls_of (sample_operator sample_late) (sample_env sample_late) sample_request [] =
     [CGetBudgetNamespace sample_request, CNow, CDeleteNamespace ?n, CUpdateStatus b]" by blast
  then have "snd (Reconcile (sample_operator sample_late) (sample_env sample_late) sample_request []) =
     [CGetBudgetNamespace sample_request, CNow] @ CDeleteNamespace ?n # [CUpdateStatus b]"
    by (simp add: run_appends)
  then have "operator_history (sample_env sample_late)
      ([CGetBudgetNamespace sample_request, CNow] @ CDeleteNamespace ?n # [CUpdateStatus b])"
    by (metis r_into_rtranclp operator_step.reconcile)
  from every_history_is_safe [OF this refl] show ?thesis by auto
qed

end
