(* ===== verification/Cooldown_Runs.thy ===== *)
theory Cooldown_Runs
  imports Operator_Runs
begin

text \<open>
  The cooldown over several runs. The operator keeps nothing in memory between runs: that a
  scale-down happened is in the status that it wrote. This theory has an abstract cooldown
  automaton, and the promise of the server about statuses under which the runs of the operator
  refine it.
\<close>

section \<open>The automaton\<close>

text \<open>
  What a run does to the workloads: nothing, scale down, with the time after the last patch, or
  restore, with the time that it decided at and its cooldown. A restore is possible when there was none but
  restores, or when the cooldown since the last scale-down is over, to the second.
\<close>

datatype act = Idle | Down go_time | Up go_time duration

datatype phase = Free | Cooling go_time

text \<open>A \<open>metav1.Time\<close> is sent in RFC 3339, in whole seconds.\<close>

definition whole_seconds :: "go_time \<Rightarrow> go_time" where
  "whole_seconds t = t - t mod second"

fun phase_after :: "phase \<Rightarrow> act \<Rightarrow> phase option" where
  "phase_after p Idle = Some p"
| "phase_after p (Down t) = Some (Cooling t)"
| "phase_after Free (Up t cooldown) = Some Free"
| "phase_after (Cooling t0) (Up t cooldown) = (if whole_seconds t0 + cooldown \<le> t then Some Free else None)"

fun phase_run :: "phase \<Rightarrow> act list \<Rightarrow> phase option" where
  "phase_run p [] = Some p"
| "phase_run p (a # as) = (case phase_after p a of None \<Rightarrow> None | Some p' \<Rightarrow> phase_run p' as)"

lemma phase_run_append:
  "phase_run p (as @ bs) = (case phase_run p as of None \<Rightarrow> None | Some p' \<Rightarrow> phase_run p' bs)"
  by (induction as arbitrary: p) (auto split: option.splits)

lemma phase_run_idle: "phase_run p (replicate n Idle @ as) = phase_run p as"
  by (induction n) simp_all

lemma whole_seconds_bounds: "whole_seconds t \<le> t" "t < whole_seconds t + second"
  by (simp_all add: whole_seconds_def second_def)

lemma whole_seconds_mono: "t \<le> u \<Longrightarrow> whole_seconds t \<le> whole_seconds u"
  by (simp add: whole_seconds_def second_def minus_mod_eq_mult_div zdiv_mono1)

lemma whole_seconds_twice [simp]: "whole_seconds (whole_seconds t) = whole_seconds t"
  by (simp add: whole_seconds_def second_def minus_mod_eq_mult_div)

section \<open>What the server remembers\<close>

definition key_of :: "budget_namespace \<Rightarrow> namespaced_name" where
  "key_of bn = \<lparr>nn_Namespace = bn_Namespace bn, nn_Name = bn_Name bn\<rparr>"

text \<open>The last status of an object that the server has accepted in a history.\<close>

fun last_accepted :: "'q env \<Rightarrow> namespaced_name \<Rightarrow> 'q hist \<Rightarrow> 'q hist \<Rightarrow> bn_status option \<Rightarrow> bn_status option" where
  "last_accepted env req p [] st = st"
| "last_accepted env req p (c # cs) st =
     last_accepted env req (p @ [c]) cs
       (case c of
          CUpdateStatus b \<Rightarrow> if key_of b = req \<and> env_updateStatus env p b = None then Some (bn_Status b) else st
        | _ \<Rightarrow> st)"

definition stored_status :: "'q env \<Rightarrow> namespaced_name \<Rightarrow> 'q hist \<Rightarrow> bn_status option" where
  "stored_status env req h = last_accepted env req [] h None"

text \<open>
  The promises: the clock does not go back; the server answers with the object that was asked for;
  and after it has accepted a status, it answers with the enforcement of that status, the time in
  whole seconds.
\<close>

definition clock_forward :: "'q env \<Rightarrow> bool" where
  "clock_forward env \<longleftrightarrow> (\<forall>h cs. env_clock env h \<le> env_clock env (h @ cs))"

definition remembers :: "'q env \<Rightarrow> bool" where
  "remembers env \<longleftrightarrow>
     (\<forall>h req bn. env_getBudgetNamespace env h req = Inr bn \<longrightarrow> key_of bn = req \<and>
        (\<forall>st. stored_status env req h = Some st \<longrightarrow>
           st_LastEnforcementOperation (bn_Status bn) = st_LastEnforcementOperation st \<and>
           st_LastEnforcementAt (bn_Status bn) = map_option whole_seconds (st_LastEnforcementAt st)))"

lemma last_accepted_append:
  "last_accepted env req p (cs @ ds) st = last_accepted env req (p @ cs) ds (last_accepted env req p cs st)"
  by (induction cs arbitrary: p st) simp_all

lemma stored_status_same:
  assumes "grows (\<lambda>c. \<forall>b. c = CUpdateStatus b \<longrightarrow> key_of b \<noteq> req) h h'"
  shows "stored_status env req h' = stored_status env req h"
proof -
  have "last_accepted env req p cs st = st"
    if "list_all (\<lambda>c. \<forall>b. c = CUpdateStatus b \<longrightarrow> key_of b \<noteq> req) cs" for p cs st
    using that by (induction cs arbitrary: p) (auto split: call.splits)
  with assms show ?thesis by (auto simp: grows_def stored_status_def last_accepted_append)
qed

lemma stored_status_snoc:
  "stored_status env req (h @ [CUpdateStatus b]) =
   (if key_of b = req \<and> env_updateStatus env h b = None then Some (bn_Status b) else stored_status env req h)"
  by (simp add: stored_status_def last_accepted_append)

section \<open>What a run does\<close>

text \<open>The patches of a run as an act. A run that patched has to have its status accepted.\<close>

definition run_acts :: "'q env \<Rightarrow> bool \<Rightarrow> bool \<Rightarrow> namespaced_name \<Rightarrow> 'q hist \<Rightarrow> act \<Rightarrow> bool" where
  "run_acts env recorder clientOk req h a \<longleftrightarrow>
     (let calls = calls_of (newReconciler env recorder clientOk) env req h; patches = filter is_patch calls in
      case a of
        Idle \<Rightarrow> patches = []
      | Down t \<Rightarrow> patches \<noteq> [] \<and> list_all scale_call patches \<and>
          (\<exists>before c after. calls = before @ c # after \<and> is_patch c \<and> \<not> list_ex is_patch after \<and>
             t = env_clock env (h @ before @ [c]))
      | Up t cooldown \<Rightarrow> patches \<noteq> [] \<and> list_all restore_call patches \<and> t = now_of env h req \<and>
          (\<exists>bn. env_getBudgetNamespace env h req = Inr bn \<and> enforcementCooldown (bn_Spec bn) = Inr cooldown))"

definition patches_recorded :: "'q env \<Rightarrow> bool \<Rightarrow> bool \<Rightarrow> namespaced_name \<Rightarrow> 'q hist \<Rightarrow> bool" where
  "patches_recorded env recorder clientOk req h \<longleftrightarrow>
     (let calls = calls_of (newReconciler env recorder clientOk) env req h in
      list_ex is_patch calls \<longrightarrow>
        (\<exists>cs b. calls = cs @ [CUpdateStatus b] \<and> env_updateStatus env (h @ cs) b = None))"

text \<open>
  A history of the operator with the acts of the runs for one object. Between them there may be
  runs for other objects, and events.
\<close>

inductive history_acts :: "'q env \<Rightarrow> namespaced_name \<Rightarrow> act list \<Rightarrow> 'q hist \<Rightarrow> bool" for env req where
  start: "history_acts env req [] []"
| run: "history_acts env req as h \<Longrightarrow> run_acts env recorder clientOk req h a \<Longrightarrow>
    patches_recorded env recorder clientOk req h \<Longrightarrow>
    history_acts env req (as @ [a]) (snd (Reconcile (newReconciler env recorder clientOk) env req h))"
| other: "history_acts env req as h \<Longrightarrow> req' \<noteq> req \<Longrightarrow>
    history_acts env req as (snd (Reconcile (newReconciler env recorder clientOk) env req' h))"
| event: "history_acts env req as h \<Longrightarrow> history_acts env req as (snd (quotaEvent env obj h))"

section \<open>Lemmas\<close>

text \<open>The phase that the stored status stands for.\<close>

definition phase_stored :: "'q env \<Rightarrow> namespaced_name \<Rightarrow> 'q hist \<Rightarrow> phase \<Rightarrow> bool" where
  "phase_stored env req h p \<longleftrightarrow>
     (case p of
        Free \<Rightarrow> True
      | Cooling t \<Rightarrow> \<exists>st tm. stored_status env req h = Some st \<and> st_LastEnforcementOperation st = ''ScaleToZero'' \<and>
          st_LastEnforcementAt st = Some tm \<and> whole_seconds t \<le> whole_seconds tm)"

text \<open>A status that a run writes, with the calls before it.\<close>

lemma run_records:
  assumes "CUpdateStatus b \<in> set (calls_of (newReconciler env recorder clientOk) env req h)"
  obtains bn lv cs where "env_getBudgetNamespace env h req = Inr bn"
    "recorded env h (initial_locals bn) lv (snd (Reconcile (newReconciler env recorder clientOk) env req h))"
    "calls_of (newReconciler env recorder clientOk) env req h = cs @ [CUpdateStatus b]"
    "list_all (\<lambda>c. \<not> is_status_update c) cs"
    "st_LastEnforcementAt (bn_Status b) = lv_lastEnfAt lv"
    "st_LastEnforcementOperation (bn_Status b) = lv_lastEnfOp lv" "key_of b = key_of bn"
proof -
  let ?r = "newReconciler env recorder clientOk"
  from assms obtain bn ttl h3 lv h4 where bn: "env_getBudgetNamespace env h req = Inr bn"
    and ttl: "evaluateTTL env bn (now_of env h req) (started_at h req) = (Inr ttl, h3)"
    and rw: "reconcileWorkloads ?r env (now_of env h req) ttl (initial_locals bn) h3 = (Inr lv, h4)"
    and b: "b = writeStatus env h4 ttl lv" and run: "snd (Reconcile ?r env req h) = h4 @ [CUpdateStatus b]"
    by (rule wired.Reconcile_status_call)
  have "grows clock_call (started_at h req) h3"
    using evaluateTTL_grows [of "started_at h req" env bn "now_of env h req"] ttl by simp
  then have "grows no_patch (started_at h req) h3"
    by (rule grows_mono) (auto elim: clock_call.elims)
  then have "grows no_patch h h3" by (auto simp: grows_def)
  from recorded_after [OF this wired.reconcileWorkloads_recorded [OF rw]]
  have rec: "recorded env h (initial_locals bn) lv (snd (Reconcile ?r env req h))"
    by (simp add: recorded_snoc run)
  have key: "key_of b = key_of bn"
    using reconcileWorkloads_object [OF rw] by (auto simp: b key_of_def initial_locals_def)
  show ?thesis
  proof (cases rule: wired.Reconcile_ends [of h env recorder clientOk env req])
    case no_status
    from grows_drop [OF no_status(1)] assms have False by (auto simp: calls_of_def list_all_iff)
    then show ?thesis ..
  next
    case (status bn' ttl' h3' lv' h4')
    then have "h4' = h4" using run by (simp add: finish_call)
    with status(5) obtain cs where cs: "h4 = h @ cs" "list_all (\<lambda>c. \<not> is_status_update c) cs"
      by (auto simp: grows_def)
    from that [OF bn rec _ cs(2) _ _ key] show ?thesis
      by (simp add: calls_of_def run cs(1) b)
  qed
qed

text \<open>A restore, with the test of the cooldown that it passed.\<close>

lemma run_restores:
  assumes "c \<in> set (calls_of (newReconciler env recorder clientOk) env req h)" "is_patch c" "\<not> scale_call c"
  obtains bn cooldown where "env_getBudgetNamespace env h req = Inr bn"
    "enforcementCooldown (bn_Spec bn) = Inr cooldown"
    "canRestoreAfterScaleDown (st_LastEnforcementOperation (bn_Status bn)) (st_LastEnforcementAt (bn_Status bn))
       cooldown (now_of env h req)"
proof -
  let ?r = "newReconciler env recorder clientOk" and ?t = "now_of env h req"
  have "c \<noteq> CGetBudgetNamespace req \<and> c \<noteq> CNow \<and> \<not> is_status_update c"
    using assms(2) by (cases c) auto
  with assms(1) obtain bn ttl h3 where bn: "env_getBudgetNamespace env h req = Inr bn"
    and p: "permitted ?r env ?t ttl (initial_locals bn) h3 c"
    by (blast elim: wired.Reconcile_call)
  have lv: "lv_spec (initial_locals bn) = bn_Spec bn"
    "lv_lastEnfOp (initial_locals bn) = st_LastEnforcementOperation (bn_Status bn)"
    "lv_lastEnfAt (initial_locals bn) = st_LastEnforcementAt (bn_Status bn)"
    by (simp_all add: initial_locals_def)
  let ?h1 = "snd (ensureResources env (bn_Spec bn) h3)"
  from p assms(2,3) have "may_patch (budget_found ?r env ?t (initial_locals bn) h3) ?t c"
    by (simp add: permitted_def split: if_splits)
  then obtain cooldown spend lv1 h2
    where b: "evaluateBudget ?r env ?t (initial_locals bn) ?h1 = (Inr (cooldown, spend, lv1), h2)"
      and ok: "restore_allowed lv1 cooldown spend ?t"
    using assms(3)
    by (cases "evaluateBudget ?r env ?t (initial_locals bn) ?h1")
       (auto simp: may_patch_def budget_found_def lv split: sum.splits if_splits)
  from evaluateBudget_ok [OF b] have "enforcementCooldown (bn_Spec bn) = Inr cooldown" by (simp add: lv)
  with that [OF bn] ok evaluateBudget_keeps [OF b] lv show ?thesis by (simp add: restore_allowed_def)
qed

text \<open>The simulation: a run takes the stored phase to the phase of the automaton.\<close>

lemma run_without_patches:
  assumes mem: "remembers env" and st: "phase_stored env req h p"
    and none: "\<not> list_ex is_patch (calls_of (newReconciler env recorder clientOk) env req h)"
  shows "phase_stored env req (snd (Reconcile (newReconciler env recorder clientOk) env req h)) p"
proof -
  let ?r = "newReconciler env recorder clientOk"
  let ?calls = "calls_of ?r env req h"
  note run = run_appends [of env recorder clientOk req h]
  show ?thesis
  proof (cases "\<exists>b. CUpdateStatus b \<in> set ?calls")
    case False
    then have "grows (\<lambda>c. \<forall>b. c = CUpdateStatus b \<longrightarrow> key_of b \<noteq> req) h (snd (Reconcile ?r env req h))"
      unfolding run by (auto simp: grows_def list_all_iff)
    from stored_status_same [OF this, of env] st show ?thesis by (simp add: phase_stored_def split: phase.splits)
  next
    case True
    then obtain b where "CUpdateStatus b \<in> set ?calls" ..
    then obtain bn lv cs where bn: "env_getBudgetNamespace env h req = Inr bn"
      and rec: "recorded env h (initial_locals bn) lv (snd (Reconcile ?r env req h))"
      and cs: "?calls = cs @ [CUpdateStatus b]" "list_all (\<lambda>c. \<not> is_status_update c) cs"
      and b: "st_LastEnforcementAt (bn_Status b) = lv_lastEnfAt lv"
        "st_LastEnforcementOperation (bn_Status b) = lv_lastEnfOp lv" "key_of b = key_of bn"
      by (rule run_records)
    from rec none have same: "lv_lastEnfAt lv = st_LastEnforcementAt (bn_Status bn)"
      "lv_lastEnfOp lv = st_LastEnforcementOperation (bn_Status bn)"
      by (auto simp: recorded_def run initial_locals_def)
    have "grows (\<lambda>c. \<forall>b. c = CUpdateStatus b \<longrightarrow> key_of b \<noteq> req) h (h @ cs)"
      using cs(2) by (auto simp: grows_def list_all_iff)
    from stored_status_same [OF this, of env] have before: "stored_status env req (h @ cs) = stored_status env req h" .
    have "stored_status env req (snd (Reconcile ?r env req h)) = stored_status env req h \<or>
        stored_status env req (snd (Reconcile ?r env req h)) = Some (bn_Status b)"
      by (simp add: run cs(1) append_assoc [symmetric] stored_status_snoc before del: append_assoc)
    with st mem bn b same show ?thesis
      by (auto simp: phase_stored_def remembers_def split: phase.splits)
  qed
qed


lemma run_refines:
  assumes mem: "remembers env" and clock: "clock_forward env" and st: "phase_stored env req h p"
    and acts: "run_acts env recorder clientOk req h a" and accepted: "patches_recorded env recorder clientOk req h"
  shows "\<exists>p'. phase_after p a = Some p' \<and>
    phase_stored env req (snd (Reconcile (newReconciler env recorder clientOk) env req h)) p'"
proof -
  let ?r = "newReconciler env recorder clientOk"
  let ?calls = "calls_of ?r env req h"
  note run = run_appends [of env recorder clientOk req h]
  show ?thesis
  proof (cases a)
    case Idle
    with acts have "\<not> list_ex is_patch ?calls"
      by (auto simp: run_acts_def Let_def list_ex_iff filter_empty_conv)
    from run_without_patches [OF mem st this] Idle show ?thesis by simp
  next
    case (Up t cooldown)
    with acts obtain c bn where c: "c \<in> set ?calls" "is_patch c" "restore_call c" and t: "t = now_of env h req"
      and bn: "env_getBudgetNamespace env h req = Inr bn" "enforcementCooldown (bn_Spec bn) = Inr cooldown"
      by (fastforce simp: run_acts_def Let_def filter_empty_conv list_all_iff)
    have "\<not> scale_call c" using c scale_not_restore_call by blast
    with c bn obtain "canRestoreAfterScaleDown (st_LastEnforcementOperation (bn_Status bn))
        (st_LastEnforcementAt (bn_Status bn)) cooldown t"
      using t by (metis run_restores sum.inject(2))
    with st mem bn(1) have "phase_after p a = Some Free"
      by (cases p) (auto simp: Up phase_stored_def remembers_def canRestore_iff)
    then show ?thesis by (simp add: phase_stored_def)
  next
    case (Down t)
    with acts have patches: "list_ex is_patch ?calls" "list_all scale_call (filter is_patch ?calls)"
      by (auto simp: run_acts_def Let_def list_ex_iff filter_empty_conv)
    with accepted obtain cs b where cs: "?calls = cs @ [CUpdateStatus b]" "env_updateStatus env (h @ cs) b = None"
      by (auto simp: patches_recorded_def Let_def)
    then have "CUpdateStatus b \<in> set ?calls" by simp
    then obtain bn lv ds where bn: "env_getBudgetNamespace env h req = Inr bn"
      and rec: "recorded env h (initial_locals bn) lv (snd (Reconcile ?r env req h))"
      and b: "st_LastEnforcementAt (bn_Status b) = lv_lastEnfAt lv"
        "st_LastEnforcementOperation (bn_Status b) = lv_lastEnfOp lv" "key_of b = key_of bn"
      by (rule run_records)
    have "\<not> list_all restore_call (filter is_patch ?calls)"
      using patches scale_not_restore_call by (auto simp: list_all_iff list_ex_iff)
    with rec patches obtain q s where op: "lv_lastEnfOp lv = ''ScaleToZero''"
      and q: "?calls = q @ s" "\<not> list_ex is_patch s" "lv_lastEnfAt lv = Some (env_clock env (h @ q))"
      by (auto simp: recorded_def run)
    have "stored_status env req (snd (Reconcile ?r env req h)) = Some (bn_Status b)"
      using cs b(3) mem bn by (simp add: run append_assoc [symmetric] stored_status_snoc remembers_def del: append_assoc)
    moreover obtain before c after where split: "?calls = before @ c # after" "is_patch c" "\<not> list_ex is_patch after"
      and t: "t = env_clock env (h @ before @ [c])"
      using acts Down by (auto simp: run_acts_def Let_def)
    have "\<exists>us. q = before @ c # us"
      using split q(1,2) by (auto simp: append_eq_append_conv2 append_eq_Cons_conv)
    then obtain us where "h @ q = (h @ before @ [c]) @ us" by auto
    with clock t have "t \<le> env_clock env (h @ q)" unfolding clock_forward_def by metis
    then have "whole_seconds t \<le> whole_seconds (env_clock env (h @ q))" by (rule whole_seconds_mono)
    ultimately show ?thesis using op q(3) b by (simp add: Down phase_stored_def)
  qed
qed


text \<open>Runs for other objects and events leave the stored status alone.\<close>

lemma other_run_stored:
  assumes "remembers env" "req' \<noteq> req"
  shows "stored_status env req (snd (Reconcile (newReconciler env recorder clientOk) env req' h)) = stored_status env req h"
proof (rule stored_status_same)
  let ?calls = "calls_of (newReconciler env recorder clientOk) env req' h"
  have "key_of b \<noteq> req" if "CUpdateStatus b \<in> set ?calls" for b
    using run_records [OF that] assms unfolding remembers_def by metis
  then show "grows (\<lambda>c. \<forall>b. c = CUpdateStatus b \<longrightarrow> key_of b \<noteq> req) h
      (snd (Reconcile (newReconciler env recorder clientOk) env req' h))"
    unfolding run_appends by (auto simp: grows_def list_all_iff)
qed

lemma event_stored: "stored_status env req (snd (quotaEvent env obj h)) = stored_status env req h"
  by (rule stored_status_same)
     (auto simp: quotaEvent_def resourceQuotaToRequests_def call_defs grows_snoc split: client_object.splits sum.splits)

text \<open>Histories refine the automaton.\<close>

lemma history_refines:
  assumes "history_acts env req as h" "remembers env" "clock_forward env"
  shows "\<exists>p. phase_run Free as = Some p \<and> phase_stored env req h p"
  using assms(1)
proof induction
  case start
  show ?case by (simp add: phase_stored_def)
next
  case (run as h recorder clientOk a)
  then obtain p where "phase_run Free as = Some p" "phase_stored env req h p" by blast
  with run_refines [OF assms(2,3) this(2) run.hyps(2,3)] show ?case by (auto simp: phase_run_append)
next
  case (other as h req' recorder clientOk)
  with other_run_stored [OF assms(2)] show ?case by (auto simp: phase_stored_def split: phase.splits)
next
  case (event as h obj)
  with event_stored [of env req obj h] show ?case by (auto simp: phase_stored_def split: phase.splits)
qed

text \<open>Every run does one of the acts.\<close>

lemma run_has_act: "\<exists>a. run_acts env recorder clientOk req h a"
proof -
  let ?calls = "calls_of (newReconciler env recorder clientOk) env req h"
  consider "filter is_patch ?calls = []" | "list_ex is_patch ?calls" "list_all scale_call (filter is_patch ?calls)"
    | c where "c \<in> set ?calls" "is_patch c" "\<not> scale_call c"
    by (auto simp: list_all_iff list_ex_iff filter_empty_conv)
  then show ?thesis
  proof cases
    case 1
    then show ?thesis by (intro exI [of _ Idle]) (simp add: run_acts_def Let_def)
  next
    case 2
    then obtain before c after where "?calls = before @ c # after" "is_patch c" "\<forall>d \<in> set after. \<not> is_patch d"
      using split_list_last_prop [of ?calls is_patch] by (auto simp: list_ex_iff)
    with 2 show ?thesis
      by (intro exI [of _ "Down (env_clock env (h @ before @ [c]))"])
         (auto simp: run_acts_def Let_def list_ex_iff filter_empty_conv)
  next
    case 3
    then obtain bn cooldown where bn: "env_getBudgetNamespace env h req = Inr bn"
      "enforcementCooldown (bn_Spec bn) = Inr cooldown" by (rule run_restores)
    have "list_all restore_call (filter is_patch ?calls)"
      using wired_one_way [OF 3] by (auto simp: list_all_iff)
    with 3 bn show ?thesis
      by (intro exI [of _ "Up (now_of env h req) cooldown"]) (auto simp: run_acts_def Let_def filter_empty_conv)
  qed
qed

section \<open>Properties\<close>

text \<open>
  C2: The cooldown holds over any number of runs. Take a server that remembers accepted statuses
  (their times in whole seconds) and a clock that does not go back, and any history of runs for an
  object, with runs for other objects and events in between, in which each run that patched workloads
  has its status accepted. Then the acts of the runs for the object refine the cooldown automaton;
  each run does one of the acts, and when the runs after a scale-down did nothing and then one
  restores, its clock had reached the time after the last patch of the scale-down plus the cooldown,
  up to the second that is lost in the status.
\<close>

theorem cooldown_over_runs:
  assumes "history_acts env req as h" "remembers env" "clock_forward env"
  shows "phase_run Free as \<noteq> None \<and>
    (\<forall>before n t t' cooldown after. as = before @ Down t # replicate n Idle @ Up t' cooldown # after \<longrightarrow>
       t + cooldown < t' + second) \<and>
    (\<forall>recorder clientOk g. \<exists>a. run_acts env recorder clientOk req g a)"
proof (intro conjI allI impI)
  from history_refines [OF assms] show run: "phase_run Free as \<noteq> None" by auto
  fix before n t t' cooldown after
  assume "as = before @ Down t # replicate n Idle @ Up t' cooldown # after"
  with run have "phase_run (Cooling t) (replicate n Idle @ Up t' cooldown # after) \<noteq> None"
    by (auto simp: phase_run_append [of Free before] split: option.splits)
  then have "whole_seconds t + cooldown \<le> t'"
    by (simp add: phase_run_idle split: if_splits)
  with whole_seconds_bounds(2) [of t] show "t + cooldown < t' + second" by simp
qed (rule run_has_act)

text \<open>
  A server in memory for the witness: it remembers statuses; after the first of them the quota is
  no longer used up, and three minutes and twenty seconds pass.
\<close>

fun replay_status :: "namespaced_name \<Rightarrow> 'q hist \<Rightarrow> bn_status \<Rightarrow> bn_status" where
  "replay_status nn [] st = st"
| "replay_status nn (c # cs) st =
     replay_status nn cs (case c of CUpdateStatus b \<Rightarrow> if key_of b = nn then bn_Status b else st | _ \<Rightarrow> st)"

definition memory_bn :: "namespaced_name \<Rightarrow> int hist \<Rightarrow> budget_namespace" where
  "memory_bn nn h =
     (let st = replay_status nn h sample_status in
      (sample_bn_of sample_spec)\<lparr>bn_Namespace := nn_Namespace nn, bn_Name := nn_Name nn,
         bn_Status := st\<lparr>st_LastEnforcementAt := map_option whole_seconds (st_LastEnforcementAt st)\<rparr>\<rparr>)"

definition memory_env :: "int env" where
  "memory_env = (sample_env sample_state)\<lparr>
     env_getBudgetNamespace := \<lambda>h nn. Inr (memory_bn nn h),
     env_getResourceQuota := \<lambda>h ns n. Inr \<lparr>rq_Name = n, rq_Namespace = ns, rq_Hard = [(''pods'', 10)],
       rq_Used = [(''pods'', if list_ex is_status_update h then 3 else 10)]\<rparr>,
     env_clock := \<lambda>h. second + int (length h) + (if list_ex is_status_update h then 200 * second else 0)\<rparr>"

lemma memory_fields [simp]:
  "env_getBudgetNamespace memory_env h nn = Inr (memory_bn nn h)"
  "env_getResourceQuota memory_env h ns n = Inr \<lparr>rq_Name = n, rq_Namespace = ns, rq_Hard = [(''pods'', 10)],
     rq_Used = [(''pods'', if list_ex is_status_update h then 3 else 10)]\<rparr>"
  "env_clock memory_env h = second + int (length h) + (if list_ex is_status_update h then 200 * second else 0)"
  "env_parseQuantity memory_env = parseInt32"
  "env_mustParse memory_env s = (case parseInt32 s of Inl _ \<Rightarrow> None | Inr n \<Rightarrow> Some n)"
  "env_cmp memory_env a b = sgn (a - b)"
  "env_createOrPatchNamespace memory_env h ns' f = None"
  "env_createOrUpdateQuota memory_env h q g = None"
  "env_createOrUpdateLimits memory_env h l k = None"
  "env_listDeployments memory_env h ns = Inr (replay_deployments [sample_deployment] h)"
  "env_listStatefulSets memory_env h ns = Inr (replay_stateful_sets [sample_stateful_set] h)"
  "env_patchDeployment memory_env h d d' = None"
  "env_patchStatefulSet memory_env h x x' = None"
  "env_updateStatus memory_env h bn = None"
  by (simp_all add: memory_env_def)

lemma memory_bn_fields [simp]:
  "bn_Name (memory_bn nn h) = nn_Name nn" "bn_Namespace (memory_bn nn h) = nn_Namespace nn"
  "bn_Spec (memory_bn nn h) = sample_spec" "bn_CreationTimestamp (memory_bn nn h) = 0"
  "bn_Status (memory_bn nn h) = (replay_status nn h sample_status)\<lparr>st_LastEnforcementAt :=
     map_option whole_seconds (st_LastEnforcementAt (replay_status nn h sample_status))\<rparr>"
  by (simp_all add: memory_bn_def Let_def)

lemma memory_stored: "last_accepted memory_env nn p h (Some st) = Some (replay_status nn h st)"
  by (induction h arbitrary: p st) (auto split: call.splits)

lemma memory_stored_None:
  "last_accepted memory_env nn p h None = Some st \<Longrightarrow> replay_status nn h st0 = st"
proof (induction h arbitrary: p st0)
  case (Cons c h)
  then show ?case
    by (cases "\<exists>b. c = CUpdateStatus b \<and> key_of b = nn")
       (auto simp: memory_stored split: call.splits if_splits)
qed simp

lemma memory_remembers: "remembers memory_env"
proof -
  have "replay_status nn h sample_status = st" if "stored_status memory_env nn h = Some st" for nn h st
    using that memory_stored_None unfolding stored_status_def by blast
  then show ?thesis by (auto simp: remembers_def key_of_def)
qed

lemma memory_clock: "clock_forward memory_env"
  by (simp add: clock_forward_def second_def)

text \<open>The first run scales, the second one restores.\<close>

abbreviation memory_run :: "int hist \<Rightarrow> reconcile_result go_result \<times> int hist" where
  "memory_run h \<equiv> Reconcile (newReconciler memory_env False True) memory_env sample_request h"

lemma memory_run_scales:
  assumes "scaleDeployment sample_deployment = Some d" "scaleStatefulSet sample_stateful_set = Some s"
  shows "\<exists>pre b. snd (memory_run []) = pre @ [CListDeployments ''team'', CPatchDeployment sample_deployment d,
        CListStatefulSets ''team'', CPatchStatefulSet sample_stateful_set s, CNow, CUpdateStatus b] \<and>
      length pre = 7 \<and> list_all (\<lambda>c. \<not> is_patch c \<and> \<not> is_status_update c) pre \<and>
      st_LastEnforcementOperation (bn_Status b) = ''ScaleToZero'' \<and>
      st_LastEnforcementAt (bn_Status b) = Some (second + 11) \<and> key_of b = sample_request"
  using assms by (simp add: run_eval key_of_def)

lemma replay_pre:
  assumes "list_all (\<lambda>c. \<not> is_patch c \<and> \<not> is_status_update c) pre"
  shows "replay_status nn (pre @ h) st = replay_status nn h st"
    "replay_deployments ds (pre @ h) = replay_deployments ds h"
    "replay_stateful_sets ss (pre @ h) = replay_stateful_sets ss h"
    "list_ex is_status_update (pre @ h) = list_ex is_status_update h"
  using assms by (induction pre) (auto split: call.splits)

lemma memory_run_restores:
  assumes ds: "scaleDeployment sample_deployment = Some d" "scaleStatefulSet sample_stateful_set = Some s"
    and pre: "length pre = 7" "list_all (\<lambda>c. \<not> is_patch c \<and> \<not> is_status_update c) pre"
    and b: "st_LastEnforcementOperation (bn_Status b) = ''ScaleToZero''"
      "st_LastEnforcementAt (bn_Status b) = Some (second + 11)" "key_of b = sample_request"
  shows "\<exists>d' s' b' cs. calls_of (newReconciler memory_env False True) memory_env sample_request
      (pre @ [CListDeployments ''team'', CPatchDeployment sample_deployment d,
        CListStatefulSets ''team'', CPatchStatefulSet sample_stateful_set s, CNow, CUpdateStatus b]) =
      cs @ [CUpdateStatus b'] \<and> filter is_patch cs = [CPatchDeployment d d', CPatchStatefulSet s s']"
proof -
  obtain d' s' where r: "restoreDeployment d = Some d'" "restoreStatefulSet s = Some s'"
    using depr.restore_scale [OF ds(1)] stsr.restore_scale [OF ds(2)]
    by (auto simp: sample_deployment_def sample_stateful_set_def replicas_or_def preScaleReplicasAnnotation_def)
  then have "deploymentPending d" "statefulSetPending s"
    using depr.restore_pending stsr.restore_pending by blast+
  then show ?thesis using r b pre by (simp add: run_eval replay_pre whole_seconds_def)
qed


theorem cooldown_over_runs_witness:
  "\<exists>h. history_acts memory_env sample_request [Down (second + 11), Up (201 * second + 14) (120 * second)] h \<and>
     (second + 11) + 120 * second < (201 * second + 14) + second"
proof -
  let ?r = "newReconciler memory_env False True"
  obtain d s where ds: "scaleDeployment sample_deployment = Some d" "scaleStatefulSet sample_stateful_set = Some s"
    by (rule sample_scaled)
  from memory_run_scales [OF ds] obtain pre b where
    run1: "snd (memory_run []) = pre @ [CListDeployments ''team'', CPatchDeployment sample_deployment d,
        CListStatefulSets ''team'', CPatchStatefulSet sample_stateful_set s, CNow, CUpdateStatus b]" (is "_ = ?h1")
    and pre: "length pre = 7" "list_all (\<lambda>c. \<not> is_patch c \<and> \<not> is_status_update c) pre"
    and b: "st_LastEnforcementOperation (bn_Status b) = ''ScaleToZero''"
      "st_LastEnforcementAt (bn_Status b) = Some (second + 11)" "key_of b = sample_request"
    by blast
  from memory_run_restores [OF ds pre b] obtain d' s' b' cs where
    run2: "calls_of ?r memory_env sample_request ?h1 = cs @ [CUpdateStatus b']"
    and patches: "filter is_patch cs = [CPatchDeployment d d', CPatchStatefulSet s s']" by blast
  have none: "filter is_patch pre = []" "\<not> list_ex is_patch pre" "\<not> list_ex is_status_update pre"
    using pre(2) by (auto simp: list_all_iff list_ex_iff filter_empty_conv)
  have calls1: "calls_of ?r memory_env sample_request [] = ?h1" by (simp add: calls_of_def run1)
  have "\<exists>before c after. ?h1 = before @ c # after \<and> is_patch c \<and> \<not> list_ex is_patch after \<and>
      second + 11 = env_clock memory_env ([] @ before @ [c])"
    by (intro exI [of _ "pre @ [CListDeployments ''team'', CPatchDeployment sample_deployment d, CListStatefulSets ''team'']"]
        exI [of _ "CPatchStatefulSet sample_stateful_set s"] exI [of _ "[CNow, CUpdateStatus b]"])
       (use pre(1) none in simp)
  then have act1: "run_acts memory_env False True sample_request [] (Down (second + 11))"
    using ds none by (simp add: run_acts_def calls1)
  have rec1: "patches_recorded memory_env False True sample_request []"
    unfolding patches_recorded_def calls1 Let_def
    by (intro impI exI [of _ "butlast ?h1"] exI [of _ b]) (simp add: butlast_append)
  have h1: "history_acts memory_env sample_request ([] @ [Down (second + 11)]) ?h1"
    using history_acts.run [OF history_acts.start act1 rec1] by (simp add: run1)
  have restores: "restore_call c" if "c \<in> set (filter is_patch cs)" "\<not> scale_call c" for c
    using wired_patch_kind [of c memory_env False True sample_request ?h1] that by (auto simp: run2)
  have "restore_call (CPatchDeployment d d' :: int call)" "restore_call (CPatchStatefulSet s s' :: int call)"
    by (rule restores; use dep.scale_twice [OF ds(1)] sts.scale_twice [OF ds(2)] in \<open>simp add: patches\<close>)+
  then have act2: "run_acts memory_env False True sample_request ?h1 (Up (201 * second + 14) (120 * second))"
    using patches pre(1)
    by (simp add: run_acts_def run2 now_of_def enforcementCooldown_def sample_parses second_def)
  have rec2: "patches_recorded memory_env False True sample_request ?h1"
    unfolding patches_recorded_def run2 Let_def by (intro impI exI [of _ cs] exI [of _ b']) simp
  from history_acts.run [OF h1 act2 rec2] obtain h where
    "history_acts memory_env sample_request [Down (second + 11), Up (201 * second + 14) (120 * second)] h" by auto
  with cooldown_over_runs [OF this memory_remembers memory_clock] show ?thesis
    by (metis append_Cons append_Nil replicate_0)
qed

end
