(* ===== verification/Deletion_Schedule.thy ===== *)
theory Deletion_Schedule
  imports Operator_Runs
begin

text \<open>
  The life of a BudgetNamespace with a TTL as the sequence of the runs that it asks for: each run
  starts no earlier than the delay that the one before returned. Shows that this sequence comes to
  the deletion of the Namespace, and in how many runs.
\<close>

section \<open>The schedule\<close>

text \<open>
  The reading of the clock from which a run computes its delay. A run is scheduled fairly if it
  returned a result and, when the result asks for a delay, the next run is not earlier.
\<close>

definition delay_from :: "'q env \<Rightarrow> 'q hist \<Rightarrow> namespaced_name \<Rightarrow> go_time" where
  "delay_from env h req = env_clock env (started_at h req)"

definition runs_as_asked :: "'q reconciler \<Rightarrow> 'q env \<Rightarrow> namespaced_name \<Rightarrow> (nat \<Rightarrow> 'q hist) \<Rightarrow> bool" where
  "runs_as_asked r env req hs \<longleftrightarrow>
     (\<forall>i. \<exists>res. fst (Reconcile r env req (hs i)) = Inr res \<and> \<not> res_Requeue res \<and>
        (0 < res_RequeueAfter res \<longrightarrow>
           delay_from env (hs i) req + res_RequeueAfter res \<le> now_of env (hs (Suc i)) req))"

text \<open>The expiry stays, and the two readings of the clock in a run do not lie on two sides of a boundary.\<close>

definition ttl_kept :: "'q env \<Rightarrow> namespaced_name \<Rightarrow> go_time \<Rightarrow> 'q hist \<Rightarrow> bool" where
  "ttl_kept env req e h \<longleftrightarrow>
     (\<exists>bn. env_getBudgetNamespace env h req = Inr bn \<and> expiry_time bn = Some e) \<and>
     now_of env h req \<le> delay_from env h req \<and>
     (now_of env h req < e \<longrightarrow> delay_from env h req < e) \<and>
     (now_of env h req < e + ttlDeleteGracePeriod \<longrightarrow> delay_from env h req < e + ttlDeleteGracePeriod)"

definition deletes :: "'q reconciler \<Rightarrow> 'q env \<Rightarrow> namespaced_name \<Rightarrow> 'q hist \<Rightarrow> bool" where
  "deletes r env req h \<longleftrightarrow> list_ex is_delete (calls_of r env req h)"

text \<open>How many more runs it takes at most when one starts at a time.\<close>

definition runs_left :: "go_time \<Rightarrow> go_time \<Rightarrow> nat" where
  "runs_left e t =
     (if t < e then nat ((e - t) div enforcementPollInterval) + 2
      else if t < e + ttlDeleteGracePeriod then 1 else 0)"

section \<open>Lemmas\<close>

lemma runs_left_decreases:
  assumes "t < e" "min (t + enforcementPollInterval) e \<le> t'"
  shows "runs_left e t' < runs_left e t"
proof (cases "t' < e")
  case True
  with assms have "t + enforcementPollInterval \<le> t'" by simp
  then have "(e - t') div enforcementPollInterval \<le> (e - t - enforcementPollInterval) div enforcementPollInterval"
    by (intro zdiv_mono1) (simp_all add: enforcementPollInterval_def second_def)
  also have "\<dots> = (e - t) div enforcementPollInterval - 1"
    using div_add_self2 [of enforcementPollInterval "e - t - enforcementPollInterval"]
    by (simp add: enforcementPollInterval_def second_def)
  finally have "(e - t') div enforcementPollInterval < (e - t) div enforcementPollInterval" by simp
  moreover have "0 \<le> (e - t') div enforcementPollInterval"
    using True by (simp add: pos_imp_zdiv_nonneg_iff enforcementPollInterval_def second_def)
  ultimately show ?thesis using True assms(1) by (simp add: runs_left_def)
next
  case False
  with assms(1) show ?thesis by (simp add: runs_left_def)
qed

text \<open>What a run asks for, by the time at which it starts.\<close>

lemma run_asks:
  assumes run: "fst (Reconcile r env req h) = Inr res" "\<not> res_Requeue res"
    and kept: "ttl_kept env req e h" and e: "e \<noteq> zero_time" "e + ttlDeleteGracePeriod \<noteq> zero_time"
  shows "now_of env h req < e \<Longrightarrow>
      min (delay_from env h req + enforcementPollInterval) e \<le> delay_from env h req + res_RequeueAfter res \<and>
      0 < res_RequeueAfter res"
    and "e \<le> now_of env h req \<Longrightarrow> now_of env h req < e + ttlDeleteGracePeriod \<Longrightarrow>
      delay_from env h req + res_RequeueAfter res = e + ttlDeleteGracePeriod \<and> 0 < res_RequeueAfter res"
    and "e + ttlDeleteGracePeriod \<le> now_of env h req \<Longrightarrow> deletes r env req h"
proof -
  let ?t = "now_of env h req" and ?u = "delay_from env h req"
  from kept obtain bn where bn: "env_getBudgetNamespace env h req = Inr bn" and ex: "expiry_time bn = Some e"
    by (auto simp: ttl_kept_def)
  from run(1) obtain h' where "Reconcile r env req h = (Inr res, h')" by (cases "Reconcile r env req h") simp
  from Reconcile_ok [OF this bn] obtain ttl h3 lv h4 where valid: "validateCostBudgetSpec (bn_Spec bn) = None"
    and ttl: "evaluateTTL env bn ?t (started_at h req) = (Inr ttl, h3)"
    and fin: "finishReconcile env ttl lv h4 = (Inr res, h')" .
  from finishReconcile_ok(2) [OF fin] run(2) have res: "res = requeueResult ttl (lv_spec lv)" by auto
  have expired: "ttl_expired ttl = (e \<le> ?t)"
    using evaluateTTL_ok(1) [OF ttl] ex by (simp add: expired_at_def)
  note req = evaluateTTL_requeue [OF ttl]
  have sub: "0 < x - ?u \<Longrightarrow> min (time_sub x ?u) (10 * minute) = min (x - ?u) (10 * minute)" for x
    by (simp add: time_sub_def min_duration_def max_duration_def minute_def second_def min_def max_def)
  show "?t < e \<Longrightarrow> min (?u + enforcementPollInterval) e \<le> ?u + res_RequeueAfter res \<and> 0 < res_RequeueAfter res"
  proof -
    assume t: "?t < e"
    with kept have u: "?u < e" by (simp add: ttl_kept_def)
    have "ttl_requeueAfterTTL ttl = min (e - ?u) (10 * minute)"
      using req(2) [of e] t u ex e(1) sub [of e] by (simp add: expired_at_def delay_from_def)
    with t u show ?thesis
      by (auto simp: res requeueResult_def expired Let_def emptyResult_def enforcementPollInterval_def minute_def
          second_def min_def)
  qed
  show "e \<le> ?t \<Longrightarrow> ?t < e + ttlDeleteGracePeriod \<Longrightarrow>
      ?u + res_RequeueAfter res = e + ttlDeleteGracePeriod \<and> 0 < res_RequeueAfter res"
  proof -
    assume t: "e \<le> ?t" "?t < e + ttlDeleteGracePeriod"
    with kept have u: "?u < e + ttlDeleteGracePeriod" "?t \<le> ?u" by (simp_all add: ttl_kept_def)
    have "ttl_requeueAfterTTL ttl = min (e + ttlDeleteGracePeriod - ?u) (10 * minute)"
      using req(4) [of e] t u ex e(2) sub [of "e + ttlDeleteGracePeriod"]
      by (simp add: expired_at_def delete_due_at_def delay_from_def)
    with t u show ?thesis
      by (auto simp: res requeueResult_def expired Let_def emptyResult_def minute_def second_def
          ttlDeleteGracePeriod_def min_def)
  qed
  show "e + ttlDeleteGracePeriod \<le> ?t \<Longrightarrow> deletes r env req h"
    using due_run_calls [OF bn valid _ ttl, of r] ex by (auto simp: delete_due_at_def deletes_def)
qed

lemma runs_to_deletion:
  assumes asked: "runs_as_asked r env req hs" and kept: "\<And>i. ttl_kept env req e (hs i)"
    and e: "e \<noteq> zero_time" "e + ttlDeleteGracePeriod \<noteq> zero_time"
  shows "\<exists>k \<le> runs_left e (now_of env (hs i) req). deletes r env req (hs (i + k))"
proof (induction "runs_left e (now_of env (hs i) req)" arbitrary: i rule: less_induct)
  case less
  let ?t = "now_of env (hs i) req" and ?t' = "now_of env (hs (Suc i)) req"
  from asked obtain res where res: "fst (Reconcile r env req (hs i)) = Inr res" "\<not> res_Requeue res"
    and "next": "0 < res_RequeueAfter res \<Longrightarrow> delay_from env (hs i) req + res_RequeueAfter res \<le> ?t'"
    unfolding runs_as_asked_def by blast
  note asks = run_asks [OF res kept e]
  have u: "?t \<le> delay_from env (hs i) req" using kept by (simp add: ttl_kept_def)
  consider "?t < e" | "e \<le> ?t" "?t < e + ttlDeleteGracePeriod" | "e + ttlDeleteGracePeriod \<le> ?t" by linarith
  then show ?case
  proof cases
    case 3
    with asks(3) show ?thesis by (intro exI [of _ 0]) simp
  next
    case 1
    with asks(1) "next" u have "min (?t + enforcementPollInterval) e \<le> ?t'"
      by (auto simp: min_def split: if_splits)
    with 1 have "runs_left e ?t' < runs_left e ?t" by (rule runs_left_decreases)
    with less [of "Suc i"] obtain k where "k \<le> runs_left e ?t'" "deletes r env req (hs (Suc i + k))" by auto
    with \<open>runs_left e ?t' < runs_left e ?t\<close> show ?thesis by (intro exI [of _ "Suc k"]) simp
  next
    case 2
    with asks(2) "next" have "e + ttlDeleteGracePeriod \<le> ?t'" by simp
    with 2 have l: "runs_left e ?t' < runs_left e ?t"
      by (simp add: runs_left_def ttlDeleteGracePeriod_def second_def)
    with less [of "Suc i"] obtain k where "k \<le> runs_left e ?t'" "deletes r env req (hs (Suc i + k))" by auto
    with l show ?thesis by (intro exI [of _ "Suc k"]) simp
  qed
qed

section \<open>Properties\<close>

text \<open>
  C5: The time to live comes to its end. Take the runs for an object with a TTL, each of which
  returns without an error and has its status accepted, and none of which starts earlier than the
  delay that the run before it returned; the expiry does not change, and the two readings of the
  clock in one run are not on two sides of the expiry or of the end of the grace period. Then some
  run deletes the Namespace: after at most one run per thirty seconds that were left to the expiry
  when the first run started, and two more.
\<close>

theorem ttl_runs_end_in_deletion:
  assumes "runs_as_asked r env req hs" "\<And>i. ttl_kept env req e (hs i)"
    and "e \<noteq> zero_time" "e + 10 * second \<noteq> zero_time"
  shows "\<exists>k \<le> nat ((e - now_of env (hs 0) req) div (30 * second)) + 2. deletes r env req (hs k)"
proof -
  have "runs_left e (now_of env (hs 0) req) \<le> nat ((e - now_of env (hs 0) req) div (30 * second)) + 2"
    by (simp add: runs_left_def enforcementPollInterval_def)
  moreover from runs_to_deletion [OF assms(1-3), of 0] assms(4) obtain k where
    "k \<le> runs_left e (now_of env (hs 0) req)" "deletes r env req (hs k)"
    by (auto simp: ttlDeleteGracePeriod_def)
  ultimately show ?thesis by (meson order_trans)
qed


text \<open>A cluster for the witness: a clock that moves ten minutes from run to run, enforcement off.\<close>

definition slow_spec :: bn_spec where
  "slow_spec = sample_spec\<lparr>spec_Enforcement := \<lparr>enf_Enabled = False, enf_Action = ''ScaleToZero'',
     enf_RestoreOnRecovery = False, enf_EnforcementCooldown = []\<rparr>\<rparr>"

definition slow_env :: "int env" where
  "slow_env = (sample_env (sample_state\<lparr>sample_bn := sample_bn_of slow_spec\<rparr>))\<lparr>
     env_clock := \<lambda>h. 600 * second * int (length (filter (\<lambda>c. c = CGetBudgetNamespace sample_request) h))\<rparr>"

definition slow_hist :: "nat \<Rightarrow> int hist" where
  "slow_hist i = replicate i (CGetBudgetNamespace sample_request)"

lemma slow_fields [simp]:
  "env_getBudgetNamespace slow_env h nn = Inr (sample_bn_of slow_spec)"
  "env_clock slow_env (slow_hist i @ [CGetBudgetNamespace sample_request]) = 600 * second * (1 + int i)"
  "env_clock slow_env (slow_hist i @ [CGetBudgetNamespace sample_request, CNow]) = 600 * second * (1 + int i)"
  "env_updateStatus slow_env h b = None"
  by (simp_all add: slow_env_def slow_hist_def sample_state_def)

lemma slow_expiry: "expiry_time (sample_bn_of slow_spec) = Some (3600 * second)"
  by (simp add: expiry_time_def slow_spec_def sample_parses second_def)

lemma slow_workloads: "\<exists>h'. reconcileWorkloads r slow_env t ttl (initial_locals (sample_bn_of slow_spec)) h =
    (Inr (initial_locals (sample_bn_of slow_spec)), h')"
  by (simp add: run_eval slow_spec_def slow_env_def sample_state_def)

lemma slow_runs: "runs_as_asked (newReconciler slow_env True True) slow_env sample_request slow_hist"
  unfolding runs_as_asked_def
proof
  fix i
  let ?bn = "sample_bn_of slow_spec" and ?r = "newReconciler slow_env True True" and ?h = "slow_hist i"
  let ?t = "now_of slow_env ?h sample_request"
  have "is_ok (fst (evaluateTTL slow_env ?bn ?t (started_at ?h sample_request)))"
    by (simp add: evaluateTTL_def slow_spec_def sample_parses call_defs Let_def)
  then obtain ttl h3 where ttl: "evaluateTTL slow_env ?bn ?t (started_at ?h sample_request) = (Inr ttl, h3)"
    by (metis is_ok_iff prod.collapse)
  obtain h4 where work: "reconcileWorkloads ?r slow_env ?t ttl (initial_locals ?bn) h3 = (Inr (initial_locals ?bn), h4)"
    using slow_workloads by blast
  have "validateCostBudgetSpec slow_spec = None"
    by (simp add: validateCostBudgetSpec_def slow_spec_def)
  then have "fst (Reconcile ?r slow_env sample_request ?h) = Inr (requeueResult ttl slow_spec)"
    using Reconcile_valid [of slow_env ?h sample_request ?bn ?r]
    by (simp add: ttl work finishReconcile_def call_defs) (simp add: initial_locals_def)
  moreover have "res_RequeueAfter (requeueResult ttl slow_spec) \<le> 600 * second"
    "\<not> res_Requeue (requeueResult ttl slow_spec)"
    using evaluateTTL_requeue(1) [OF ttl]
    by (simp_all add: requeueResult_def shouldScaleDeploymentsToZero_def slow_spec_def emptyResult_def minute_def
        second_def Let_def)
  ultimately show "\<exists>res. fst (Reconcile ?r slow_env sample_request ?h) = Inr res \<and> \<not> res_Requeue res \<and>
      (0 < res_RequeueAfter res \<longrightarrow>
        delay_from slow_env ?h sample_request + res_RequeueAfter res
          \<le> now_of slow_env (slow_hist (Suc i)) sample_request)"
    by (simp add: delay_from_def now_of_def algebra_simps)
qed

theorem ttl_runs_end_in_deletion_witness:
  "\<exists>k \<le> nat ((3600 * second - 600 * second) div (30 * second)) + 2.
     deletes (newReconciler slow_env True True) slow_env sample_request (slow_hist k)"
proof -
  have "ttl_kept slow_env sample_request (3600 * second) (slow_hist i)" for i
    by (simp add: ttl_kept_def slow_expiry now_of_def delay_from_def)
  from ttl_runs_end_in_deletion [OF slow_runs this] show ?thesis
    by (simp add: now_of_def slow_fields(2) [of 0] zero_time_def second_def)
qed

end
