(* ===== verification/Recovery_Schedule.thy ===== *)
theory Recovery_Schedule
  imports Deletion_Schedule
begin

text \<open>
  After a scale-down, when the budget is no longer at risk: the runs that the operator asks for come
  to the restore of the workloads, and in how many runs.
\<close>

section \<open>What has to stay\<close>





section \<open>Lemmas\<close>







section \<open>Properties\<close>


definition calm_bn :: budget_namespace where
  "calm_bn = (sample_bn_of (sample_spec\<lparr>spec_TTL := []\<rparr>))\<lparr>bn_Status :=
     sample_status\<lparr>st_LastEnforcementOperation := ''ScaleToZero'', st_LastEnforcementAt := Some second\<rparr>\<rparr>"





lemma calm_bn_fields [simp]:
  "bn_Spec calm_bn = sample_spec\<lparr>spec_TTL := []\<rparr>"
  "bn_Status calm_bn = sample_status\<lparr>st_LastEnforcementOperation := ''ScaleToZero'', st_LastEnforcementAt := Some second\<rparr>"
  by (simp_all add: calm_bn_def)









end
