(* ===== verification/Panics.thy ===== *)
theory Panics
  imports Sample_Runs
begin

text \<open>
  Where a run can panic. The model has the two places at which the Go code could:
  \<open>resource.MustParse\<close> and the nil pointer \<open>lastEnfAt\<close> in the branch that defers a restore.
\<close>

definition panics :: "'a go_result \<Rightarrow> bool" where
  "panics res \<longleftrightarrow> (\<exists>m. res = Inl (GoPanic m))"

named_theorems calm "results that are not a panic"

lemma panics_simps [simp]:
  "panics (Inl e) \<longleftrightarrow> (\<exists>m. e = GoPanic m)" "\<not> panics (Inr x)"
  by (auto simp: panics_def)

lemma calmD: "\<not> panics res \<Longrightarrow> res \<noteq> Inl (GoPanic m)"
  by auto

lemma panics_go_bind:
  "panics (fst (go_bind p f)) \<longleftrightarrow> panics (fst p) \<or> (\<exists>x h. p = (Inr x, h) \<and> panics (fst (f x h)))"
  by (auto simp: go_bind_def panics_def split: prod.splits sum.splits)

section \<open>What does not panic\<close>

lemma parseDuration_calm [calm]: "\<not> panics (parseDuration s)"
  by (auto simp: parseDuration_def panics_def Let_def split: option.splits if_splits prod.splits)

lemma parseFloat64_calm [calm]: "\<not> panics (parseFloat64 s)"
  by (auto simp: parseFloat64_def panics_def Let_def split: option.splits if_splits prod.splits)

lemma enforcementCooldown_calm [calm]: "\<not> panics (enforcementCooldown spec)"
  by (auto simp: enforcementCooldown_def Let_def split: sum.splits)

lemma costBudgetMaxUSD_calm [calm]: "\<not> panics (costBudgetMaxUSD cb)"
  by (auto simp: costBudgetMaxUSD_def calm split: option.splits)

lemma validateCostBudgetSpec_calm [calm]: "validateCostBudgetSpec spec \<noteq> Some (GoPanic m)"
  by (auto simp: validateCostBudgetSpec_def Let_def split: option.splits if_splits sum.splits)

lemma withinCostBudgetForRestore_calm [calm]: "\<not> panics (withinCostBudgetForRestore spec spend)"
  using costBudgetMaxUSD_calm [of "spec_CostBudget spec"]
  by (auto simp: withinCostBudgetForRestore_def split: sum.splits)

lemma checkTableParts_calm [calm]: "checkTableParts i ps \<noteq> Some (GoPanic m)"
  by (induction i ps rule: checkTableParts.induct) simp_all

lemma validateTableRef_calm [calm]: "\<not> panics (validateTableRef t)"
  by (auto simp: validateTableRef_def Let_def calm split: option.splits)

lemma NamespaceSpendUSD_calm [calm]: "\<not> panics (fst (NamespaceSpendUSD env configured h t c n l w))"
  using validateTableRef_calm [of t]
  by (auto simp: NamespaceSpendUSD_def Let_def call_defs split: sum.splits bq_next.splits)

lemma resolveNamespaceSpendUSD_calm [calm]:
  "\<not> panics (fst (resolveNamespaceSpendUSD (newReconciler env recorder clientOk) bn t h))"
proof -
  have "\<not> panics (fst (case NamespaceSpendUSD env True h a c n l w of (Inl err, h1) \<Rightarrow> (Inl err, bn, h1)
      | (Inr spend, h1) \<Rightarrow> (Inr spend, g spend, h1)))" for a c n l w g
    using NamespaceSpendUSD_calm [of env True h a c n l w]
    by (cases "NamespaceSpendUSD env True h a c n l w") (auto split: sum.splits)
  then show ?thesis
    by (auto simp: resolveNamespaceSpendUSD_def newReconciler_def Let_def calm split: option.splits)
qed

lemma evaluateBudget_calm [calm]:
  "\<not> panics (fst (evaluateBudget (newReconciler env recorder clientOk) env t lv h))"
proof -
  let ?r = "newReconciler env recorder clientOk"
  have "\<not> panics (fst (resolveNamespaceSpendUSD ?r (lv_bn lv) t h1))" for h1 by (rule calm)
  then show ?thesis
    using enforcementCooldown_calm [of "lv_spec lv"] costBudgetMaxUSD_calm [of "spec_CostBudget (lv_spec lv)"]
    by (auto simp: evaluateBudget_def call_defs Let_def split: sum.splits prod.splits)
      (metis fst_conv panics_def)+
qed

text \<open>The errors of the passes over the workloads wrap the errors of the server.\<close>

lemmas pass_errors =
  listDeploymentsError_def listStatefulSetsError_def scaleDeploymentError_def scaleStatefulSetError_def
  restoreDeploymentError_def restoreStatefulSetError_def

lemma pass_calm:
  "scaleDeploymentsToZero env ns h \<noteq> ((n, Some (GoPanic m)), h')"
  "scaleStatefulSetsToZero env ns h \<noteq> ((n, Some (GoPanic m)), h')"
  "restoreDeploymentsFromAnnotation env ns h \<noteq> ((n, Some (GoPanic m)), h')"
  "restoreStatefulSetsFromAnnotation env ns h \<noteq> ((n, Some (GoPanic m)), h')"
  by (auto simp: pass_errors dest!: sd.run_error ss.run_error rd.run_error rs.run_error)

lemma scaleWorkloadsToZero_calm [calm]: "scaleWorkloadsToZero env ns h \<noteq> ((n, Some (GoPanic m)), h')"
  by (auto simp: scaleWorkloadsToZero_def pass_calm split: prod.splits option.splits)

lemma restoreScaledWorkloads_calm [calm]: "restoreScaledWorkloads env ns h \<noteq> ((n, Some (GoPanic m)), h')"
  by (auto simp: restoreScaledWorkloads_def pass_calm split: prod.splits option.splits)

lemma scaleDown_calm [calm]: "\<not> panics (fst (scaleDown r env msg lv h))"
  by (auto simp: scaleDown_def call_defs calm split: prod.splits option.splits)

lemma restoreNow_calm [calm]: "\<not> panics (fst (restoreNow r env lv h))"
  by (auto simp: restoreNow_def call_defs calm split: prod.splits option.splits)

text \<open>A restore is deferred only after a scale-down whose time is known.\<close>

lemma deferRestore_calm [calm]:
  "\<not> canRestoreAfterScaleDown (lv_lastEnfOp lv) (lv_lastEnfAt lv) cooldown t \<Longrightarrow>
   \<not> panics (fst (deferRestore r t cooldown lv h))"
  using deferRestore_defined [of lv cooldown t r h] by auto

lemma workloadsPendingRestore_calm [calm]: "\<not> panics (fst (workloadsPendingRestore env ns h))"
  by (auto simp: workloadsPendingRestore_def deploymentsPendingRestore_def statefulSetsPendingRestore_def call_defs
      split: sum.splits bool.splits)

lemma recoverWorkloads_calm [calm]: "\<not> panics (fst (recoverWorkloads r env t cooldown spend lv h))"
proof -
  obtain x h1 where w: "workloadsPendingRestore env (spec_NamespaceName (lv_spec lv)) h = (x, h1)"
    by (metis surj_pair)
  have "\<not> panics x"
    using workloadsPendingRestore_calm [of env "spec_NamespaceName (lv_spec lv)" h] w by simp
  then show ?thesis
    using withinCostBudgetForRestore_calm [THEN calmD, of "lv_spec lv" spend]
    by (auto simp: recoverWorkloads_def w calm split: sum.splits)
qed

lemma enforceBudget_calm [calm]:
  "\<not> panics (fst (enforceBudget (newReconciler env recorder clientOk) env t lv h))"
  by (auto simp: enforceBudget_def panics_go_bind scaleAtRisk_def Let_def calm)

lemma deleteExpired_calm [calm]: "\<not> panics (fst (deleteExpired env spec h))"
  by (auto simp: deleteExpired_def call_defs Let_def split: option.splits)

lemma evaluateTTL_calm [calm]: "\<not> panics (fst (evaluateTTL env bn t h))"
  by (auto simp: evaluateTTL_def call_defs Let_def split: sum.splits)

lemma finishReconcile_calm [calm]: "\<not> panics (fst (finishReconcile env ttl lv h))"
  by (auto simp: finishReconcile_def call_defs split: option.splits)

section \<open>What can\<close>

definition count_refused :: "'q env \<Rightarrow> int32 \<Rightarrow> bool" where
  "count_refused env n \<longleftrightarrow> env_mustParse env (format_int (sint n)) = None"

lemma parseQuantity_calm [calm]: "\<not> panics (parseQuantity env msg s)"
  by (auto simp: parseQuantity_def split: sum.splits)

lemma quotaHard_panics:
  "panics (quotaHard env q) \<Longrightarrow> count_refused env (quota_PersistentVolumeClaims q) \<or> count_refused env (quota_Pods q)"
  using parseQuantity_calm [THEN calmD, of env]
  by (auto simp: quotaHard_def mustParseCount_def count_refused_def split: sum.splits option.splits)

lemma limitItems_calm [calm]: "\<not> panics (limitItems env d)"
  using parseQuantity_calm [THEN calmD, of env] by (auto simp: limitItems_def split: sum.splits)

lemma ensureResources_panics:
  assumes "panics (fst (ensureResources env spec h))"
  shows "count_refused env (quota_PersistentVolumeClaims (spec_Quota spec)) \<or> count_refused env (quota_Pods (spec_Quota spec))"
proof -
  have "\<not> panics (fst (ensureNamespace env spec h1))" "\<not> panics (fst (applyLimitRange env spec h1))" for h1
    using limitItems_calm [of env "spec_Defaults spec"]
    by (auto simp: ensureNamespace_def applyLimitRange_def call_defs Let_def split: option.splits sum.splits)
  moreover have "panics (quotaHard env (spec_Quota spec))" if "panics (fst (applyResourceQuota env spec h1))" for h1
    using that by (auto simp: applyResourceQuota_def call_defs Let_def split: option.splits sum.splits)
  ultimately have "panics (quotaHard env (spec_Quota spec))"
    using assms by (auto simp: ensureResources_def panics_go_bind)
  then show ?thesis by (rule quotaHard_panics)
qed

lemma reconcileWorkloads_panics:
  "panics (fst (reconcileWorkloads (newReconciler env recorder clientOk) env t ttl lv h)) \<Longrightarrow>
   \<not> ttl_expired ttl \<and> (count_refused env (quota_PersistentVolumeClaims (spec_Quota (lv_spec lv))) \<or>
     count_refused env (quota_Pods (spec_Quota (lv_spec lv))))"
  by (auto simp: reconcileWorkloads_def scaleInGrace_def panics_go_bind calm dest: ensureResources_panics split: if_splits)

section \<open>Properties\<close>

text \<open>
  C20: A run panics at one place only. If a run of \<open>Reconcile\<close> of the operator panics, whatever
  the server, BigQuery and the clock answer, then it read a BudgetNamespace whose TTL has not
  expired, and \<open>resource.MustParse\<close> refused the decimal digits of its count of volume claims or
  of pods, which it is documented to accept. The other suspicious place, the nil pointer in the
  branch that defers a restore, is never reached.
\<close>

theorem run_panics_only_in_MustParse:
  assumes "fst (Reconcile (newReconciler env recorder clientOk) env req h) = Inl (GoPanic m)"
    and "env_getBudgetNamespace env h req \<noteq> Inl (GoPanic m)"
  shows "\<exists>bn n. env_getBudgetNamespace env h req = Inr bn \<and> \<not> expired_at bn (now_of env h req) \<and>
    n \<in> {quota_PersistentVolumeClaims (spec_Quota (bn_Spec bn)), quota_Pods (spec_Quota (bn_Spec bn))} \<and>
    env_mustParse env (format_int (sint n)) = None"
proof -
  let ?r = "newReconciler env recorder clientOk" and ?t = "now_of env h req"
  from assms obtain bn where bn: "env_getBudgetNamespace env h req = Inr bn"
    by (cases "env_getBudgetNamespace env h req") (auto simp: Reconcile_unread split: if_splits)
  have valid: "validateCostBudgetSpec (bn_Spec bn) = None"
    using assms(1) calm Reconcile_invalid [OF bn] by (cases "validateCostBudgetSpec (bn_Spec bn)") auto
  have "panics (fst (Reconcile ?r env req h))" using assms(1) by simp
  then obtain ttl h3 where ttl: "evaluateTTL env bn ?t (started_at h req) = (Inr ttl, h3)"
    and "panics (fst (reconcileWorkloads ?r env ?t ttl (initial_locals bn) h3))"
    by (auto simp: Reconcile_valid [OF bn valid] panics_go_bind calm)
  from reconcileWorkloads_panics [OF this(2)] evaluateTTL_ok(1) [OF ttl] bn show ?thesis
    by (auto simp: initial_locals_def count_refused_def)
qed

theorem run_panics_only_in_MustParse_witness:
  "let env = (sample_env sample_state)\<lparr>env_mustParse := \<lambda>s. None\<rparr> in
   \<exists>n \<in> {5, 10 :: int32}. env_mustParse env (format_int (sint n)) = None \<and>
     fst (Reconcile (newReconciler env True True) env sample_request []) = Inl (GoPanic ''resource.MustParse'')"
proof -
  let ?env = "(sample_env sample_state)\<lparr>env_mustParse := \<lambda>s. None\<rparr>"
  have run: "fst (Reconcile (newReconciler ?env True True) ?env sample_request []) = Inl (GoPanic ''resource.MustParse'')"
    by (simp add: run_eval)
  from run_panics_only_in_MustParse [OF this] run show ?thesis by (auto simp: sample_spec_def)
qed

end
