(* ===== verification/Schema.thy ===== *)
theory Schema
  imports Sample_Runs
begin

text \<open>
  What the API server accepts: the validation markers of \<open>api/v1alpha1/budgetnamespace_types.go\<close>
  and the schema of a condition that is generated with them into
  \<open>config/crd/bases/finops.ealebed.github.io_budgetnamespaces.yaml\<close>. A field with \<open>omitempty\<close> that
  is empty is not sent, so it is not validated. Texts for people are not rendered, so the limit of
  the length of a message is left out; \<open>lastTransitionTime\<close>, which is required, is left out as well, since
  \<open>SetStatusCondition\<close> and not the code fills it in.
\<close>

section \<open>Patterns\<close>

definition lower_char :: "char \<Rightarrow> bool" where
  "lower_char c \<longleftrightarrow> 97 \<le> byte c \<and> byte c \<le> 122"

definition alpha_char :: "char \<Rightarrow> bool" where
  "alpha_char c \<longleftrightarrow> lower_char c \<or> 65 \<le> byte c \<and> byte c \<le> 90"

definition alnum_char :: "char \<Rightarrow> bool" where
  "alnum_char c \<longleftrightarrow> alpha_char c \<or> is_digit c"

text \<open>\<open>^[A-Za-z]([A-Za-z0-9_,:]*[A-Za-z0-9_])?$\<close>\<close>

definition reasonPattern :: "string \<Rightarrow> bool" where
  "reasonPattern s \<longleftrightarrow> s \<noteq> [] \<and> alpha_char (hd s) \<and>
     list_all (\<lambda>c. alnum_char c \<or> c \<in> set ''_,:'') s \<and> (alnum_char (last s) \<or> last s = CHR ''_'')"

text \<open>One label of a DNS name, \<open>[a-z0-9]([-a-z0-9]*[a-z0-9])?\<close>, and \<open>([A-Za-z0-9][-A-Za-z0-9_.]*)?[A-Za-z0-9]\<close>.\<close>

definition dnsLabel :: "string \<Rightarrow> bool" where
  "dnsLabel s \<longleftrightarrow> s \<noteq> [] \<and> list_all (\<lambda>c. lower_char c \<or> is_digit c \<or> c = CHR ''-'') s \<and>
     hd s \<noteq> CHR ''-'' \<and> last s \<noteq> CHR ''-''"

definition typeName :: "string \<Rightarrow> bool" where
  "typeName s \<longleftrightarrow> s \<noteq> [] \<and> alnum_char (hd s) \<and> alnum_char (last s) \<and>
     list_all (\<lambda>c. alnum_char c \<or> c \<in> set ''-_.'') s"

text \<open>The pattern of a condition type: a name, with the DNS name of its owner and a slash before it or not.\<close>

definition typePattern :: "string \<Rightarrow> bool" where
  "typePattern s \<longleftrightarrow>
     (case split_on (CHR ''/'') s of
        [n] \<Rightarrow> typeName n
      | [d, n] \<Rightarrow> list_all dnsLabel (split_on (CHR ''.'') d) \<and> typeName n
      | _ \<Rightarrow> False)"

section \<open>The schema\<close>

definition schemaQuota :: "quota_spec \<Rightarrow> bool" where
  "schemaQuota q \<longleftrightarrow>
     1 \<le> length (quota_CPU q) \<and> 1 \<le> length (quota_Memory q) \<and> 1 \<le> length (quota_Storage q) \<and>
     1 \<le> sint (quota_PersistentVolumeClaims q) \<and> 1 \<le> sint (quota_Pods q)"

definition schemaDefaults :: "defaults_spec \<Rightarrow> bool" where
  "schemaDefaults d \<longleftrightarrow>
     1 \<le> length (defaults_RequestCPU d) \<and> 1 \<le> length (defaults_RequestMemory d) \<and>
     1 \<le> length (defaults_LimitCPU d) \<and> 1 \<le> length (defaults_LimitMemory d)"

definition schemaEnforcement :: "enforcement_spec \<Rightarrow> bool" where
  "schemaEnforcement e \<longleftrightarrow> enf_Action e \<in> {[], ''None'', ''ScaleToZero''}"

definition schemaSpec :: "bn_spec \<Rightarrow> bool" where
  "schemaSpec spec \<longleftrightarrow> 1 \<le> length (spec_NamespaceName spec) \<and> schemaQuota (spec_Quota spec) \<and>
     schemaDefaults (spec_Defaults spec) \<and> schemaEnforcement (spec_Enforcement spec)"

definition schemaCondition :: "condition \<Rightarrow> bool" where
  "schemaCondition c \<longleftrightarrow>
     0 \<le> cond_ObservedGeneration c \<and>
     1 \<le> length (cond_Reason c) \<and> length (cond_Reason c) \<le> 1024 \<and> reasonPattern (cond_Reason c) \<and>
     length (cond_Type c) \<le> 316 \<and> typePattern (cond_Type c)"

definition schemaStatus :: "bn_status \<Rightarrow> bool" where
  "schemaStatus st \<longleftrightarrow>
     st_LastEnforcementOperation st \<in> {[], ''ScaleToZero'', ''Restore''} \<and>
     list_all schemaCondition (st_Conditions st) \<and> distinct (map cond_Type (st_Conditions st))"

definition schemaObject :: "budget_namespace \<Rightarrow> bool" where
  "schemaObject bn \<longleftrightarrow> 0 \<le> bn_Generation bn \<and> schemaSpec (bn_Spec bn) \<and> schemaStatus (bn_Status bn)"

section \<open>Lemmas\<close>

text \<open>The types and the reasons that the code uses, evaluated once.\<close>

lemma own_types:
  "list_all typePattern [''Ready'', ''Expired'', ''OverBudget'', ''EnforcementRecoveryDeferred'']"
  by code_simp

lemma own_reasons:
  "list_all reasonPattern
     [''TTLExpired'', ''TTLActive'', ''NamespaceReady'', ''EnforcementDisabled'', ''WithinBudget'', ''NotApplicable'',
      ''AwaitingEnforcementCooldown'', ''NotDeferred'', ''CostBudgetAndQuotaExceeded'', ''CostBudgetExceeded'',
      ''ResourceQuotaAtOrOverHard'']"
  by code_simp

lemmas own_fit = own_types [simplified] own_reasons [simplified]

lemma newConditions_fit:
  assumes "0 \<le> bn_Generation (lv_bn lv)"
  shows "list_all schemaCondition (newConditions ttl lv)"
proof -
  have "schemaCondition (deferredCondition lv)" "schemaCondition (readyCondition ttl lv)"
    using assms by (simp_all add: schemaCondition_def deferredCondition_def readyCondition_def condition_types
        conditionReasonTTLExpired_def own_fit Let_def)
  moreover have "expiredCondition ttl lv = Some c \<Longrightarrow> schemaCondition c" for c
    using assms by (auto simp: schemaCondition_def expiredCondition_def condition_types conditionReasonTTLExpired_def
        own_fit split: if_splits)
  moreover have "overBudgetCondition ttl lv = Some c \<Longrightarrow> schemaCondition c" for c
    using assms by (auto simp: schemaCondition_def overBudgetCondition_def overBudgetReasonMessage_def condition_types
        conditionReasonTTLExpired_def own_fit Let_def split: if_splits)
  ultimately show ?thesis by (auto simp: newConditions_def split: option.splits)
qed

text \<open>
  More of what is documented of \<open>SetStatusCondition\<close>: the list stays keyed by the type, and a
  condition in it is one that was there, or has the fields of the new one.
\<close>

locale condition_list_setter = condition_setter +
  assumes set_members: "c' \<in> set (set_condition cs c) \<Longrightarrow>
      c' \<in> set cs \<or> cond_Type c' = cond_Type c \<and> cond_Status c' = cond_Status c \<and>
        cond_Reason c' = cond_Reason c \<and> cond_ObservedGeneration c' = cond_ObservedGeneration c"
    and set_keyed: "distinct (map cond_Type cs) \<Longrightarrow> distinct (map cond_Type (set_condition cs c))"
begin

lemma set_fits:
  "list_all schemaCondition cs \<Longrightarrow> schemaCondition c \<Longrightarrow> list_all schemaCondition (set_condition cs c)"
  by (auto simp: list_all_iff schemaCondition_def dest!: set_members)

lemma fold_fits:
  "list_all schemaCondition cs \<Longrightarrow> distinct (map cond_Type cs) \<Longrightarrow> list_all schemaCondition new \<Longrightarrow>
   list_all schemaCondition (foldl set_condition cs new) \<and> distinct (map cond_Type (foldl set_condition cs new))"
  by (induction new arbitrary: cs) (simp_all add: set_fits set_keyed)

end

lemma put_condition_types: "cond_Type ` set (put_condition cs c) = insert (cond_Type c) (cond_Type ` set cs)"
  by (induction cs) auto

interpretation put_list: condition_list_setter put_condition
proof unfold_locales
  fix c' cs c
  show "c' \<in> set (put_condition cs c) \<Longrightarrow>
      c' \<in> set cs \<or> cond_Type c' = cond_Type c \<and> cond_Status c' = cond_Status c \<and>
        cond_Reason c' = cond_Reason c \<and> cond_ObservedGeneration c' = cond_ObservedGeneration c"
    by (induction cs) (auto split: if_splits)
next
  fix cs c
  show "distinct (map cond_Type cs) \<Longrightarrow> distinct (map cond_Type (put_condition cs c))"
    by (induction cs) (auto simp: put_condition_types [of _ c, simplified])
qed

section \<open>Properties\<close>

text \<open>
  C11: The operator writes well-formed objects. When the object that a run reads fits the schema
  of the resource, and the condition helper keeps its documented promise, then the object that
  it sends with the status update has the same key and the same spec, and fits the schema again:
  the last operation is one of the enumeration or absent, each condition has a type and a reason that match the patterns and a generation that is not
  negative, and no type occurs twice.
\<close>

theorem written_status_fits_schema:
  assumes "env_getBudgetNamespace env h req = Inr bn"
    and "CUpdateStatus b \<in> set (calls_of (newReconciler env recorder clientOk) env req h)"
    and "schemaObject bn"
    and "\<And>h'. condition_list_setter (env_setStatusCondition env h')"
  shows "schemaObject b \<and> bn_Spec b = bn_Spec bn \<and>
    bn_Name b = bn_Name bn \<and> bn_Namespace b = bn_Namespace bn"
proof -
  let ?r = "newReconciler env recorder clientOk"
  from assms(1,2) obtain ttl h3 lv h4 where
    rw: "reconcileWorkloads ?r env (now_of env h req) ttl (initial_locals bn) h3 = (Inr lv, h4)"
    and b: "b = writeStatus env h4 ttl lv"
    by (metis sum.inject(2) wired.Reconcile_status_call)
  have i: "lv_spec (initial_locals bn) = bn_Spec bn" "lv_bn (initial_locals bn) = bn"
    "lv_lastEnfOp (initial_locals bn) = st_LastEnforcementOperation (bn_Status bn)"
    by (simp_all add: initial_locals_def)
  note keeps = reconcileWorkloads_keeps [OF rw, unfolded i]
  from wired.reconcileWorkloads_recorded [OF rw] have
    "lv_lastEnfOp lv \<in> {st_LastEnforcementOperation (bn_Status bn), ''ScaleToZero'', ''Restore''}"
    by (auto simp: recorded_def i split: if_splits)
  moreover have "list_all schemaCondition (newConditions ttl lv)"
    using newConditions_fit assms(3) keeps(2) unfolding schemaObject_def by metis
  moreover have "list_all schemaCondition cs' \<and> distinct (map cond_Type cs')"
    if "cs' = foldl (env_setStatusCondition env h4) (st_Conditions (bn_Status bn)) (newConditions ttl lv)" for cs'
    using that assms(3) condition_list_setter.fold_fits [OF assms(4)] calculation(2) by (simp add: schemaObject_def schemaStatus_def)
  moreover have "bn_Spec b = bn_Spec bn" "bn_Name b = bn_Name bn" "bn_Namespace b = bn_Namespace bn"
    "bn_Generation b = bn_Generation bn"
    using reconcileWorkloads_object [OF rw] by (auto simp: b i(2) writeStatus_def Let_def)
  ultimately show ?thesis
    using assms(3) keeps(3) by (auto simp: b schemaObject_def schemaStatus_def writeStatus_def Let_def)
qed

theorem written_status_fits_schema_witness:
  "\<exists>b. CUpdateStatus b \<in> set (calls_of (sample_operator sample_late) (sample_env sample_late) sample_request []) \<and>
     schemaObject b \<and> bn_Name b = ''budget''"
proof -
  from sample_run_deletes obtain b where
    b: "CUpdateStatus b \<in> set (calls_of (sample_operator sample_late) (sample_env sample_late) sample_request [])"
    by fastforce
  have law: "condition_list_setter (env_setStatusCondition (sample_env sample_late) h')" for h'
    by (simp add: sample_env_def put_list.condition_list_setter_axioms)
  have "schemaObject (sample_bn_of sample_spec)"
    by (simp add: schemaObject_def schemaSpec_def schemaQuota_def schemaDefaults_def schemaEnforcement_def
        schemaStatus_def sample_status_def sample_spec_def)
  from written_status_fits_schema [OF _ b this law] b show ?thesis by auto
qed

end
