(* ===== verification/Rbac.thy ===== *)
theory Rbac
  imports Operator_Runs
begin

text \<open>
  The permissions of the operator: the \<open>+kubebuilder:rbac\<close> markers of
  \<open>internal/controller/budgetnamespace_controller.go\<close>, from which \<open>config/rbac/role.yaml\<close> is
  generated, against the calls that the operator makes in its histories (\<open>Operator_Runs\<close>).
\<close>

section \<open>The role\<close>

record rbac_rule =
  rule_groups :: "string list"
  rule_resources :: "string list"
  rule_verbs :: "string list"

text \<open>The group, the resource and the verb of one request to the API server.\<close>

type_synonym access = "string \<times> string \<times> string"

definition allVerbs :: "string list" where
  "allVerbs = [''get'', ''list'', ''watch'', ''create'', ''update'', ''patch'', ''delete'']"

definition managerMarkers :: "rbac_rule list" where
  "managerMarkers =
     [\<lparr>rule_groups = [''finops.ealebed.github.io''], rule_resources = [''budgetnamespaces''], rule_verbs = allVerbs\<rparr>,
      \<lparr>rule_groups = [''finops.ealebed.github.io''], rule_resources = [''budgetnamespaces/status''],
       rule_verbs = [''get'', ''update'', ''patch'']\<rparr>,
      \<lparr>rule_groups = [''finops.ealebed.github.io''], rule_resources = [''budgetnamespaces/finalizers''],
       rule_verbs = [''update'']\<rparr>,
      \<lparr>rule_groups = [''''], rule_resources = [''namespaces''], rule_verbs = allVerbs\<rparr>,
      \<lparr>rule_groups = [''''], rule_resources = [''resourcequotas''], rule_verbs = allVerbs\<rparr>,
      \<lparr>rule_groups = [''''], rule_resources = [''limitranges''], rule_verbs = allVerbs\<rparr>,
      \<lparr>rule_groups = [''apps''], rule_resources = [''deployments''],
       rule_verbs = [''get'', ''list'', ''watch'', ''update'', ''patch'']\<rparr>,
      \<lparr>rule_groups = [''apps''], rule_resources = [''statefulsets''],
       rule_verbs = [''get'', ''list'', ''watch'', ''update'', ''patch'']\<rparr>,
      \<lparr>rule_groups = ['''', ''events.k8s.io''], rule_resources = [''events''],
       rule_verbs = [''create'', ''patch'', ''update'']\<rparr>]"

text \<open>\<open>config/rbac/role.yaml\<close>: the same, merged and sorted by the generator.\<close>

definition managerRole :: "rbac_rule list" where
  "managerRole =
     [\<lparr>rule_groups = [''''], rule_resources = [''limitranges'', ''namespaces'', ''resourcequotas''],
       rule_verbs = [''create'', ''delete'', ''get'', ''list'', ''patch'', ''update'', ''watch'']\<rparr>,
      \<lparr>rule_groups = ['''', ''events.k8s.io''], rule_resources = [''events''],
       rule_verbs = [''create'', ''patch'', ''update'']\<rparr>,
      \<lparr>rule_groups = [''apps''], rule_resources = [''deployments'', ''statefulsets''],
       rule_verbs = [''get'', ''list'', ''patch'', ''update'', ''watch'']\<rparr>,
      \<lparr>rule_groups = [''finops.ealebed.github.io''], rule_resources = [''budgetnamespaces''],
       rule_verbs = [''create'', ''delete'', ''get'', ''list'', ''patch'', ''update'', ''watch'']\<rparr>,
      \<lparr>rule_groups = [''finops.ealebed.github.io''], rule_resources = [''budgetnamespaces/finalizers''],
       rule_verbs = [''update'']\<rparr>,
      \<lparr>rule_groups = [''finops.ealebed.github.io''], rule_resources = [''budgetnamespaces/status''],
       rule_verbs = [''get'', ''patch'', ''update'']\<rparr>]"

text \<open>How the API server reads rules: one of them has to grant the access.\<close>

definition grants :: "rbac_rule list \<Rightarrow> access \<Rightarrow> bool" where
  "grants rules a \<longleftrightarrow>
     (case a of (g, res, v) \<Rightarrow>
        list_ex (\<lambda>r. g \<in> set (rule_groups r) \<and> res \<in> set (rule_resources r) \<and> v \<in> set (rule_verbs r)) rules)"

definition granted :: "rbac_rule list \<Rightarrow> access list" where
  "granted rules =
     concat (map (\<lambda>r. List.product (rule_groups r) (List.product (rule_resources r) (rule_verbs r))) rules)"

section \<open>What the calls ask of the client\<close>

text \<open>
  The method of the client, or of \<open>controllerutil\<close> or the event recorder, that the code calls, and
  the group and the resource of the Go type that it passes. The clock and BigQuery are not requests
  to the cluster.
\<close>

datatype client_method =
  ClientGet | ClientList | ClientPatch | ClientDelete | StatusUpdate | CreateOrPatch | CreateOrUpdate | RecordEvent

type_synonym request = "client_method \<times> string \<times> string"

fun api_request :: "'q call \<Rightarrow> request option" where
  "api_request CNow = None"
| "api_request (CGetBudgetNamespace nn) = Some (ClientGet, ''finops.ealebed.github.io'', ''budgetnamespaces'')"
| "api_request CListBudgetNamespaces = Some (ClientList, ''finops.ealebed.github.io'', ''budgetnamespaces'')"
| "api_request (CCreateOrPatchNamespace n f) = Some (CreateOrPatch, '''', ''namespaces'')"
| "api_request (CCreateOrUpdateQuota q f) = Some (CreateOrUpdate, '''', ''resourcequotas'')"
| "api_request (CCreateOrUpdateLimits l f) = Some (CreateOrUpdate, '''', ''limitranges'')"
| "api_request (CGetResourceQuota ns name) = Some (ClientGet, '''', ''resourcequotas'')"
| "api_request (CListDeployments ns) = Some (ClientList, ''apps'', ''deployments'')"
| "api_request (CPatchDeployment d d') = Some (ClientPatch, ''apps'', ''deployments'')"
| "api_request (CListStatefulSets ns) = Some (ClientList, ''apps'', ''statefulsets'')"
| "api_request (CPatchStatefulSet s s') = Some (ClientPatch, ''apps'', ''statefulsets'')"
| "api_request (CDeleteNamespace n) = Some (ClientDelete, '''', ''namespaces'')"
| "api_request (CUpdateStatus b) = Some (StatusUpdate, ''finops.ealebed.github.io'', ''budgetnamespaces/status'')"
| "api_request (CBqRead q) = None"
| "api_request (CBqNext i) = None"
| "api_request (CEvent t reason msg) = Some (RecordEvent, ''events.k8s.io'', ''events'')"

section \<open>What the client asks of the server\<close>

text \<open>
  Which accesses a method needs is up to the client library, a parameter. What its documentation
  says are bounds: reads, those of \<open>CreateOrPatch\<close> and \<open>CreateOrUpdate\<close> included, go through a cache
  that lists and watches, and that may also get; the methods that write use the verbs of their name;
  an event is created, and may be patched when it repeats, or go to the legacy group. Nothing else
  is asked for.
\<close>

fun least_verbs :: "client_method \<Rightarrow> string list" where
  "least_verbs ClientGet = [''list'', ''watch'']"
| "least_verbs ClientList = [''list'', ''watch'']"
| "least_verbs ClientPatch = [''patch'']"
| "least_verbs ClientDelete = [''delete'']"
| "least_verbs StatusUpdate = [''update'']"
| "least_verbs CreateOrPatch = [''list'', ''watch'', ''create'', ''patch'']"
| "least_verbs CreateOrUpdate = [''list'', ''watch'', ''create'', ''update'']"
| "least_verbs RecordEvent = [''create'']"

fun optional_verbs :: "client_method \<Rightarrow> string list" where
  "optional_verbs ClientGet = [''get'']"
| "optional_verbs ClientList = [''get'']"
| "optional_verbs CreateOrPatch = [''get'']"
| "optional_verbs CreateOrUpdate = [''get'']"
| "optional_verbs RecordEvent = [''patch'']"
| "optional_verbs m = []"

definition documented_client :: "(request \<Rightarrow> access list) \<Rightarrow> bool" where
  "documented_client needs \<longleftrightarrow>
     (\<forall>m g res.
        (\<forall>v \<in> set (least_verbs m). (g, res, v) \<in> set (needs (m, g, res))) \<and>
        (\<forall>(g', res', v) \<in> set (needs (m, g, res)). res' = res \<and>
           (g' = g \<or> m = RecordEvent \<and> g' = '''') \<and> v \<in> set (least_verbs m @ optional_verbs m)))"

text \<open>The accesses that one call takes, and those that some history of the operator takes.\<close>

definition accesses_of :: "(request \<Rightarrow> access list) \<Rightarrow> 'q call \<Rightarrow> access set" where
  "accesses_of needs c = (case api_request c of None \<Rightarrow> {} | Some k \<Rightarrow> set (needs k))"

definition used_by :: "(request \<Rightarrow> access list) \<Rightarrow> 'q env \<Rightarrow> access \<Rightarrow> bool" where
  "used_by needs env a \<longleftrightarrow> (\<exists>h c. operator_history env h \<and> c \<in> set h \<and> a \<in> accesses_of needs c)"

text \<open>What is granted and used by no history.\<close>

definition sparedAccesses :: "access list" where
  "sparedAccesses =
     map (\<lambda>v. (''finops.ealebed.github.io'', ''budgetnamespaces'', v)) [''create'', ''update'', ''patch'', ''delete''] @
     map (\<lambda>v. (''finops.ealebed.github.io'', ''budgetnamespaces/status'', v)) [''get'', ''patch''] @
     [(''finops.ealebed.github.io'', ''budgetnamespaces/finalizers'', ''update'')] @
     [('''', ''namespaces'', ''update'')] @
     map (\<lambda>v. ('''', ''resourcequotas'', v)) [''patch'', ''delete''] @
     map (\<lambda>v. ('''', ''limitranges'', v)) [''patch'', ''delete''] @
     [(''apps'', ''deployments'', ''update''), (''apps'', ''statefulsets'', ''update'')] @
     [('''', ''events'', ''update''), (''events.k8s.io'', ''events'', ''update'')]"

section \<open>Lemmas\<close>

lemma grants_iff: "grants rules a \<longleftrightarrow> a \<in> set (granted rules)"
  by (cases a) (auto simp: grants_def granted_def list_ex_iff)

text \<open>The requests of the operator, and the two bounds on what they need.\<close>

definition operatorRequests :: "request list" where
  "operatorRequests =
     [(ClientGet, ''finops.ealebed.github.io'', ''budgetnamespaces''),
      (ClientList, ''finops.ealebed.github.io'', ''budgetnamespaces''),
      (CreateOrPatch, '''', ''namespaces''), (CreateOrUpdate, '''', ''resourcequotas''),
      (CreateOrUpdate, '''', ''limitranges''), (ClientGet, '''', ''resourcequotas''),
      (ClientList, ''apps'', ''deployments''), (ClientPatch, ''apps'', ''deployments''),
      (ClientList, ''apps'', ''statefulsets''), (ClientPatch, ''apps'', ''statefulsets''),
      (ClientDelete, '''', ''namespaces''),
      (StatusUpdate, ''finops.ealebed.github.io'', ''budgetnamespaces/status''),
      (RecordEvent, ''events.k8s.io'', ''events'')]"

definition least_accesses :: "request \<Rightarrow> access list" where
  "least_accesses k = (case k of (m, g, res) \<Rightarrow> map (\<lambda>v. (g, res, v)) (least_verbs m))"

definition most_accesses :: "request \<Rightarrow> access list" where
  "most_accesses k =
     (case k of (m, g, res) \<Rightarrow>
        concat (map (\<lambda>v. (g, res, v) # (if m = RecordEvent then [('''', res, v)] else []))
          (least_verbs m @ optional_verbs m)))"

lemma documented_bounds:
  assumes "documented_client needs"
  shows "set (least_accesses k) \<subseteq> set (needs k)" "set (needs k) \<subseteq> set (most_accesses k)"
proof -
  obtain m g res where k: "k = (m, g, res)" by (cases k)
  from assms have lo: "\<forall>v \<in> set (least_verbs m). (g, res, v) \<in> set (needs (m, g, res))"
    and hi: "\<forall>(g', res', v) \<in> set (needs (m, g, res)). res' = res \<and>
           (g' = g \<or> m = RecordEvent \<and> g' = '''') \<and> v \<in> set (least_verbs m @ optional_verbs m)"
    unfolding documented_client_def by blast+
  from lo show "set (least_accesses k) \<subseteq> set (needs k)" by (auto simp: k least_accesses_def)
  from hi show "set (needs k) \<subseteq> set (most_accesses k)" by (fastforce simp: k most_accesses_def)
qed

lemma least_client_documented: "documented_client least_accesses"
  by (auto simp: documented_client_def least_accesses_def)

lemma request_listed: "api_request c = Some k \<Longrightarrow> k \<in> set operatorRequests"
  by (cases c) (auto simp: operatorRequests_def)

lemma accesses_bounded:
  "documented_client needs \<Longrightarrow> a \<in> accesses_of needs c \<Longrightarrow> \<exists>k \<in> set operatorRequests. a \<in> set (most_accesses k)"
  using documented_bounds(2) [of needs] request_listed [of c]
  unfolding accesses_of_def by (cases "api_request c"; simp) blast

text \<open>The bounds against the rules, by evaluation.\<close>

lemma rules_against_bounds:
  "list_all (\<lambda>k. list_all (grants managerMarkers) (most_accesses k)) operatorRequests"
  "list_all (\<lambda>k. list_all (\<lambda>a. a \<notin> set sparedAccesses) (most_accesses k)) operatorRequests"
  "list_all (grants managerRole) sparedAccesses"
  "list_all (grants managerRole) (granted managerMarkers)" "list_all (grants managerMarkers) (granted managerRole)"
  "list_all (\<lambda>a. a \<in> set sparedAccesses \<or> snd (snd a) = ''get'' \<or>
     fst (snd a) = ''events'' \<and> (fst a = [] \<or> snd (snd a) = ''patch'') \<or>
     list_ex (\<lambda>k. a \<in> set (least_accesses k)) operatorRequests) (granted managerRole)"
  by code_simp+

text \<open>Every request of the operator is made: by a run that scales down, by one that deletes, by an event.\<close>

lemma sample_run_requests:
  assumes "scaleDeployment sample_deployment = Some d" "scaleStatefulSet sample_stateful_set = Some s"
  shows "List.map_filter api_request (calls_of (sample_operator sample_state) (sample_env sample_state) sample_request []) =
    [(ClientGet, ''finops.ealebed.github.io'', ''budgetnamespaces''),
     (CreateOrPatch, '''', ''namespaces''), (CreateOrUpdate, '''', ''resourcequotas''),
     (CreateOrUpdate, '''', ''limitranges''), (ClientGet, '''', ''resourcequotas''),
     (ClientList, ''apps'', ''deployments''), (ClientPatch, ''apps'', ''deployments''),
     (ClientList, ''apps'', ''statefulsets''), (ClientPatch, ''apps'', ''statefulsets''),
     (RecordEvent, ''events.k8s.io'', ''events''),
     (StatusUpdate, ''finops.ealebed.github.io'', ''budgetnamespaces/status'')]"
  using assms by (simp add: run_eval List.map_filter_def)

lemma sample_delete_requests:
  "List.map_filter api_request (calls_of (sample_operator sample_late) (sample_env sample_late) sample_request []) =
    [(ClientGet, ''finops.ealebed.github.io'', ''budgetnamespaces''), (ClientDelete, '''', ''namespaces''),
     (StatusUpdate, ''finops.ealebed.github.io'', ''budgetnamespaces/status'')]"
  using sample_run_deletes by (auto simp: List.map_filter_def)

lemma sample_event_requests:
  "List.map_filter api_request (snd (quotaEvent (sample_env sample_state)
     (ObjQuota \<lparr>rq_Name = ''costguard-quota'', rq_Namespace = ''team'', rq_Hard = [], rq_Used = []\<rparr>) [])) =
    [(ClientList, ''finops.ealebed.github.io'', ''budgetnamespaces'')]"
  by (simp add: quotaEvent_def quotaPredicate_def resourceQuotaToRequests_def resourceQuotaName_def call_defs
      List.map_filter_def)

lemma map_filter_mem: "k \<in> set (List.map_filter f xs) \<Longrightarrow> \<exists>x \<in> set xs. f x = Some k"
  by (auto simp: List.map_filter_def)

lemma request_made:
  assumes "k \<in> set operatorRequests"
  shows "\<exists>(env :: int env) h c. operator_history env h \<and> c \<in> set h \<and> api_request c = Some k"
proof -
  obtain d s where ds: "scaleDeployment sample_deployment = Some d" "scaleStatefulSet sample_stateful_set = Some s"
    by (rule sample_scaled)
  let ?obj = "ObjQuota \<lparr>rq_Name = ''costguard-quota'', rq_Namespace = ''team'', rq_Hard = [], rq_Used = []\<rparr> :: int client_object"
  let ?scaling = "calls_of (sample_operator sample_state) (sample_env sample_state) sample_request []"
    and ?deleting = "calls_of (sample_operator sample_late) (sample_env sample_late) sample_request []"
    and ?listing = "snd (quotaEvent (sample_env sample_state) ?obj [])"
  have run: "operator_history (sample_env m) (calls_of (sample_operator m) (sample_env m) sample_request [])" for m
    using operator_step.reconcile [of "sample_env m" "[]" True True sample_request]
    by (simp add: run_appends r_into_rtranclp)
  have event: "operator_history (sample_env sample_state) ?listing"
    using operator_step.event [of "sample_env sample_state" "[]" ?obj] by (rule r_into_rtranclp)
  from assms have "k \<in> set (List.map_filter api_request ?scaling) \<or> k \<in> set (List.map_filter api_request ?deleting) \<or>
      k \<in> set (List.map_filter api_request ?listing)"
    unfolding sample_run_requests [OF ds] sample_delete_requests sample_event_requests
    by (auto simp: operatorRequests_def)
  with run event show ?thesis by (blast dest: map_filter_mem)
qed

lemma least_used:
  assumes "documented_client needs" "k \<in> set operatorRequests" "a \<in> set (least_accesses k)"
  shows "\<exists>env :: int env. used_by needs env a"
  using request_made [OF assms(2)] documented_bounds(1) [OF assms(1), of k] assms(3)
  by (fastforce simp: used_by_def accesses_of_def)

section \<open>Properties\<close>

text \<open>
  C21: The operator's permissions cover what it does, and here is what they grant beyond it.
  Let the client need of the server what its documentation says of the methods that the code calls
  (\<open>documented_client\<close>). Then every access that any history of the operator takes, with any runs and
  events against any server, is granted by the markers in the code and by the role generated from
  them; the two grant the same; the accesses of \<open>sparedAccesses\<close> are granted but taken by no history,
  among them deleting a ResourceQuota, a LimitRange or a BudgetNamespace; every other access that is
  granted is taken by some history, up to the \<open>get\<close> that the cache of the client may or may not use
  and the group and repetition of events; and no workload may be created or deleted.
\<close>

theorem role_covers_every_call:
  assumes "documented_client needs"
  shows "(\<forall>env :: 'q env. \<forall>a. used_by needs env a \<longrightarrow> grants managerMarkers a \<and> grants managerRole a) \<and>
    (\<forall>a. grants managerMarkers a = grants managerRole a) \<and>
    (\<forall>a \<in> set sparedAccesses. grants managerRole a \<and> (\<forall>env :: 'q env. \<not> used_by needs env a)) \<and>
    (\<forall>a. grants managerRole a \<and> a \<notin> set sparedAccesses \<and> snd (snd a) \<noteq> ''get'' \<and>
       \<not> (fst (snd a) = ''events'' \<and> (fst a = [] \<or> snd (snd a) = ''patch'')) \<longrightarrow>
       (\<exists>env :: int env. used_by needs env a)) \<and>
    (\<forall>res v. grants managerRole (''apps'', res, v) \<longrightarrow> v \<notin> {''create'', ''delete''})"
proof -
  note r = rules_against_bounds [unfolded list_all_iff list_ex_iff]
  have same: "grants managerMarkers a = grants managerRole a" for a
    using r(4,5) by (metis grants_iff)
  have bounded: "\<exists>k \<in> set operatorRequests. a \<in> set (most_accesses k)" if "used_by needs env a" for env :: "'q env" and a
    using that accesses_bounded [OF assms] unfolding used_by_def by blast
  have "\<exists>env :: int env. used_by needs env a" if "grants managerRole a" "a \<notin> set sparedAccesses"
    "snd (snd a) \<noteq> ''get''" "\<not> (fst (snd a) = ''events'' \<and> (fst a = [] \<or> snd (snd a) = ''patch''))" for a
    using r(6) that least_used [OF assms] unfolding grants_iff by blast
  moreover have "v \<notin> {''create'', ''delete''}" if "grants managerRole (''apps'', res, v)" for res v
    using that by (auto simp: grants_def managerRole_def)
  ultimately show ?thesis using bounded r(1-3) same by blast
qed

theorem role_covers_every_call_witness:
  "grants managerRole ('''', ''limitranges'', ''delete'') \<and>
   (\<forall>env :: int env. \<not> used_by least_accesses env ('''', ''limitranges'', ''delete'')) \<and>
   (\<exists>env :: int env. used_by least_accesses env ('''', ''namespaces'', ''delete''))"
proof -
  note t = role_covers_every_call [where 'q = int, OF least_client_documented]
  have "('''', ''limitranges'', ''delete'') \<in> set sparedAccesses" by (simp add: sparedAccesses_def)
  moreover have "('''', ''namespaces'', ''delete'') \<notin> set sparedAccesses" by (simp add: sparedAccesses_def)
  moreover have "grants managerRole ('''', ''namespaces'', ''delete'')" by (simp add: grants_def managerRole_def)
  ultimately show ?thesis using t by fastforce
qed

end
