(* ===== verification/Deep_Copy.thy ===== *)
theory Deep_Copy
  imports V1alpha1 "HOL-Library.DAList"
begin

text \<open>
  \<open>api/v1alpha1/zz_generated.deepcopy.go\<close>, on a memory with addresses. The other theories treat
  objects as values; here pointers, maps and slices are addresses, and a copy may share memory with
  the original or not. The cache of the client hands out copies made by these functions, and the
  controller writes into them.
\<close>

section \<open>Memory\<close>

type_synonym addr = nat

text \<open>
  The structs with references in them. \<open>None\<close> is nil. Of \<open>ObjectMeta\<close> there are the fields that the
  operator reads and the addresses of everything that it refers to; of \<open>ListMeta\<close> the addresses only.
\<close>

record object_meta =
  om_Name :: string
  om_Namespace :: string
  om_Generation :: int
  om_CreationTimestamp :: go_time
  om_refs :: "addr list"

record list_meta =
  lm_ResourceVersion :: string
  lm_refs :: "addr list"

record go_spec =
  gs_NamespaceName :: string
  gs_Labels :: "addr option"
  gs_Annotations :: "addr option"
  gs_Quota :: quota_spec
  gs_Defaults :: defaults_spec
  gs_TTL :: string
  gs_Enforcement :: enforcement_spec
  gs_CostBudget :: "addr option"

record go_status =
  gt_ObservedGeneration :: int
  gt_ManagedNamespace :: string
  gt_ExpiresAt :: "addr option"
  gt_LastEnforcementAt :: "addr option"
  gt_LastEnforcementOperation :: string
  gt_LastCostQueryAt :: "addr option"
  gt_LastObservedSpendUSD :: string
  gt_Conditions :: "addr option"

record go_object =
  go_TypeMeta :: "string \<times> string"
  go_ObjectMeta :: object_meta
  go_Spec :: go_spec
  go_Status :: go_status

record go_list =
  gl_TypeMeta :: "string \<times> string"
  gl_ListMeta :: list_meta
  gl_Items :: "addr option"

text \<open>The zero values.\<close>

definition zero_quota :: quota_spec where
  "zero_quota = \<lparr>quota_CPU = [], quota_Memory = [], quota_Storage = [], quota_PersistentVolumeClaims = 0, quota_Pods = 0\<rparr>"

definition zero_defaults :: defaults_spec where
  "zero_defaults = \<lparr>defaults_RequestCPU = [], defaults_RequestMemory = [], defaults_LimitCPU = [], defaults_LimitMemory = []\<rparr>"

definition zero_enforcement :: enforcement_spec where
  "zero_enforcement = \<lparr>enf_Enabled = False, enf_Action = [], enf_RestoreOnRecovery = False, enf_EnforcementCooldown = []\<rparr>"

definition zero_cost_budget :: cost_budget_spec where
  "zero_cost_budget = \<lparr>cb_Enabled = False, cb_BillingExportTable = [], cb_ClusterName = [], cb_BillingLocation = [],
     cb_MaxSpendUSD = [], cb_LookbackWindow = [], cb_QueryInterval = []\<rparr>"

definition zero_spec :: go_spec where
  "zero_spec = \<lparr>gs_NamespaceName = [], gs_Labels = None, gs_Annotations = None, gs_Quota = zero_quota,
     gs_Defaults = zero_defaults, gs_TTL = [], gs_Enforcement = zero_enforcement, gs_CostBudget = None\<rparr>"

definition zero_status :: go_status where
  "zero_status = \<lparr>gt_ObservedGeneration = 0, gt_ManagedNamespace = [], gt_ExpiresAt = None, gt_LastEnforcementAt = None,
     gt_LastEnforcementOperation = [], gt_LastCostQueryAt = None, gt_LastObservedSpendUSD = [], gt_Conditions = None\<rparr>"

definition zero_object :: go_object where
  "zero_object = \<lparr>go_TypeMeta = ([], []),
     go_ObjectMeta = \<lparr>om_Name = [], om_Namespace = [], om_Generation = 0, om_CreationTimestamp = zero_time, om_refs = []\<rparr>,
     go_Spec = zero_spec, go_Status = zero_status\<rparr>"

definition zero_list :: go_list where
  "zero_list = \<lparr>gl_TypeMeta = ([], []), gl_ListMeta = \<lparr>lm_ResourceVersion = [], lm_refs = []\<rparr>, gl_Items = None\<rparr>"

text \<open>
  What is at an address. A map is the list of its entries, each key once, in the order in which a
  \<open>range\<close> loop visits them; a slice is its array.
\<close>

datatype cell =
    MapCell "(string, string) alist"
  | TimeCell go_time
  | ConditionsCell "condition list"
  | QuotaCell quota_spec
  | DefaultsCell defaults_spec
  | EnforcementCell enforcement_spec
  | CostBudgetCell cost_budget_spec
  | SpecCell go_spec
  | StatusCell go_status
  | ObjectCell go_object
  | ItemsCell "go_object list"
  | ListCell go_list
  | OtherCell string

text \<open>Addresses are given out in order.\<close>

record memory =
  mem_next :: addr
  mem_cells :: "addr \<rightharpoonup> cell"

definition store :: "addr \<Rightarrow> cell \<Rightarrow> memory \<Rightarrow> memory" where
  "store a c h = h\<lparr>mem_cells := (mem_cells h)(a \<mapsto> c)\<rparr>"

text \<open>\<open>new(T)\<close> or \<open>make(T, n)\<close>; the zero value is not read before it is filled.\<close>

definition make_cell :: "memory \<Rightarrow> addr \<times> memory" where
  "make_cell h = (mem_next h, store (mem_next h) (OtherCell []) (h\<lparr>mem_next := Suc (mem_next h)\<rparr>))"

text \<open>Reading through an address; Go's types exclude the default cases.\<close>

definition map_at :: "memory \<Rightarrow> addr \<Rightarrow> (string, string) alist" where
  "map_at h a = (case mem_cells h a of Some (MapCell m) \<Rightarrow> m | _ \<Rightarrow> DAList.empty)"

definition time_at :: "memory \<Rightarrow> addr \<Rightarrow> go_time" where
  "time_at h a = (case mem_cells h a of Some (TimeCell t) \<Rightarrow> t | _ \<Rightarrow> zero_time)"

definition conditions_at :: "memory \<Rightarrow> addr \<Rightarrow> condition list" where
  "conditions_at h a = (case mem_cells h a of Some (ConditionsCell cs) \<Rightarrow> cs | _ \<Rightarrow> [])"

definition quota_at :: "memory \<Rightarrow> addr \<Rightarrow> quota_spec" where
  "quota_at h a = (case mem_cells h a of Some (QuotaCell q) \<Rightarrow> q | _ \<Rightarrow> zero_quota)"

definition defaults_at :: "memory \<Rightarrow> addr \<Rightarrow> defaults_spec" where
  "defaults_at h a = (case mem_cells h a of Some (DefaultsCell d) \<Rightarrow> d | _ \<Rightarrow> zero_defaults)"

definition enforcement_at :: "memory \<Rightarrow> addr \<Rightarrow> enforcement_spec" where
  "enforcement_at h a = (case mem_cells h a of Some (EnforcementCell e) \<Rightarrow> e | _ \<Rightarrow> zero_enforcement)"

definition costBudget_at :: "memory \<Rightarrow> addr \<Rightarrow> cost_budget_spec" where
  "costBudget_at h a = (case mem_cells h a of Some (CostBudgetCell c) \<Rightarrow> c | _ \<Rightarrow> zero_cost_budget)"

definition spec_at :: "memory \<Rightarrow> addr \<Rightarrow> go_spec" where
  "spec_at h a = (case mem_cells h a of Some (SpecCell i) \<Rightarrow> i | _ \<Rightarrow> zero_spec)"

definition status_at :: "memory \<Rightarrow> addr \<Rightarrow> go_status" where
  "status_at h a = (case mem_cells h a of Some (StatusCell i) \<Rightarrow> i | _ \<Rightarrow> zero_status)"

definition object_at :: "memory \<Rightarrow> addr \<Rightarrow> go_object" where
  "object_at h a = (case mem_cells h a of Some (ObjectCell i) \<Rightarrow> i | _ \<Rightarrow> zero_object)"

definition items_at :: "memory \<Rightarrow> addr \<Rightarrow> go_object list" where
  "items_at h a = (case mem_cells h a of Some (ItemsCell os) \<Rightarrow> os | _ \<Rightarrow> [])"

definition list_at :: "memory \<Rightarrow> addr \<Rightarrow> go_list" where
  "list_at h a = (case mem_cells h a of Some (ListCell i) \<Rightarrow> i | _ \<Rightarrow> zero_list)"

section \<open>The functions of other packages\<close>

text \<open>
  The copy functions of \<open>k8s.io/apimachinery\<close>: for the metadata, for a time through its pointer,
  and for a condition.
\<close>

record meta_lib =
  ml_ObjectMeta :: "object_meta \<Rightarrow> memory \<Rightarrow> object_meta \<times> memory"
  ml_ListMeta :: "list_meta \<Rightarrow> memory \<Rightarrow> list_meta \<times> memory"
  ml_Time :: "addr \<Rightarrow> memory \<Rightarrow> addr \<times> memory"
  ml_Condition :: "condition \<Rightarrow> condition"

section \<open>The copies\<close>

text \<open>
  \<open>in.XDeepCopyInto(out)\<close> returns what it leaves in \<open>out\<close>; what \<open>out\<close> held before does not matter.
  \<open>*out = *in\<close> is the value itself.
\<close>

definition QuotaSpec_DeepCopyInto :: "quota_spec \<Rightarrow> memory \<Rightarrow> quota_spec \<times> memory" where
  "QuotaSpec_DeepCopyInto i h = (i, h)"

definition DefaultsSpec_DeepCopyInto :: "defaults_spec \<Rightarrow> memory \<Rightarrow> defaults_spec \<times> memory" where
  "DefaultsSpec_DeepCopyInto i h = (i, h)"

definition EnforcementSpec_DeepCopyInto :: "enforcement_spec \<Rightarrow> memory \<Rightarrow> enforcement_spec \<times> memory" where
  "EnforcementSpec_DeepCopyInto i h = (i, h)"

definition CostBudgetSpec_DeepCopyInto :: "cost_budget_spec \<Rightarrow> memory \<Rightarrow> cost_budget_spec \<times> memory" where
  "CostBudgetSpec_DeepCopyInto i h = (i, h)"

text \<open>\<open>if in.F != nil { ... }\<close>.\<close>

definition unless_nil :: "('a \<Rightarrow> memory \<Rightarrow> 'b \<times> memory) \<Rightarrow> 'a option \<Rightarrow> memory \<Rightarrow> 'b option \<times> memory" where
  "unless_nil f p h = (case p of None \<Rightarrow> (None, h) | Some a \<Rightarrow> (case f a h of (b, h1) \<Rightarrow> (Some b, h1)))"

text \<open>Make a cell, and fill it with a copy of what is read at the address.\<close>

definition filled ::
  "('a \<Rightarrow> cell) \<Rightarrow> (memory \<Rightarrow> addr \<Rightarrow> 'a) \<Rightarrow> ('a \<Rightarrow> memory \<Rightarrow> 'a \<times> memory) \<Rightarrow> addr \<Rightarrow> memory \<Rightarrow> addr \<times> memory" where
  "filled mk rd f a h =
     (case make_cell h of (b, h1) \<Rightarrow>
      case f (rd h1 a) h1 of (y, h2) \<Rightarrow> (b, store b (mk y) h2))"

text \<open>The loop over the entries of a map.\<close>

fun copyEntries :: "(string, string) alist \<Rightarrow> (string \<times> string) list \<Rightarrow> (string, string) alist" where
  "copyEntries out [] = out"
| "copyEntries out ((key, val) # rest) = copyEntries (DAList.update key val out) rest"

definition copyMap :: "addr \<Rightarrow> memory \<Rightarrow> addr \<times> memory" where
  "copyMap = filled MapCell map_at (\<lambda>m h. (copyEntries DAList.empty (DAList.impl_of m), h))"

definition copyCostBudget :: "addr \<Rightarrow> memory \<Rightarrow> addr \<times> memory" where
  "copyCostBudget = filled CostBudgetCell costBudget_at (\<lambda>c h. (c, h))"

definition Spec_DeepCopyInto :: "go_spec \<Rightarrow> memory \<Rightarrow> go_spec \<times> memory" where
  "Spec_DeepCopyInto i h =
     (case unless_nil copyMap (gs_Labels i) h of (labels, h1) \<Rightarrow>
      case unless_nil copyMap (gs_Annotations i) h1 of (annotations, h2) \<Rightarrow>
      case unless_nil copyCostBudget (gs_CostBudget i) h2 of (costBudget, h3) \<Rightarrow>
        (i\<lparr>gs_Labels := labels, gs_Annotations := annotations, gs_Quota := gs_Quota i,
           gs_Defaults := gs_Defaults i, gs_Enforcement := gs_Enforcement i, gs_CostBudget := costBudget\<rparr>, h3))"

definition copyConditions :: "meta_lib \<Rightarrow> addr \<Rightarrow> memory \<Rightarrow> addr \<times> memory" where
  "copyConditions lib = filled ConditionsCell conditions_at (\<lambda>cs h. (map (ml_Condition lib) cs, h))"

definition Status_DeepCopyInto :: "meta_lib \<Rightarrow> go_status \<Rightarrow> memory \<Rightarrow> go_status \<times> memory" where
  "Status_DeepCopyInto lib i h =
     (case unless_nil (ml_Time lib) (gt_ExpiresAt i) h of (expiresAt, h1) \<Rightarrow>
      case unless_nil (ml_Time lib) (gt_LastEnforcementAt i) h1 of (lastEnforcementAt, h2) \<Rightarrow>
      case unless_nil (ml_Time lib) (gt_LastCostQueryAt i) h2 of (lastCostQueryAt, h3) \<Rightarrow>
      case unless_nil (copyConditions lib) (gt_Conditions i) h3 of (conditions, h4) \<Rightarrow>
        (i\<lparr>gt_ExpiresAt := expiresAt, gt_LastEnforcementAt := lastEnforcementAt,
           gt_LastCostQueryAt := lastCostQueryAt, gt_Conditions := conditions\<rparr>, h4))"

definition BudgetNamespace_DeepCopyInto :: "meta_lib \<Rightarrow> go_object \<Rightarrow> memory \<Rightarrow> go_object \<times> memory" where
  "BudgetNamespace_DeepCopyInto lib i h =
     (case ml_ObjectMeta lib (go_ObjectMeta i) h of (meta, h1) \<Rightarrow>
      case Spec_DeepCopyInto (go_Spec i) h1 of (spec, h2) \<Rightarrow>
      case Status_DeepCopyInto lib (go_Status i) h2 of (status, h3) \<Rightarrow>
        (i\<lparr>go_TypeMeta := go_TypeMeta i, go_ObjectMeta := meta, go_Spec := spec, go_Status := status\<rparr>, h3))"

text \<open>The loop over the items.\<close>

fun copyAll :: "('a \<Rightarrow> memory \<Rightarrow> 'a \<times> memory) \<Rightarrow> 'a list \<Rightarrow> memory \<Rightarrow> 'a list \<times> memory" where
  "copyAll f [] h = ([], h)"
| "copyAll f (x # xs) h = (case f x h of (y, h1) \<Rightarrow> case copyAll f xs h1 of (ys, h2) \<Rightarrow> (y # ys, h2))"

definition copyItems :: "meta_lib \<Rightarrow> addr \<Rightarrow> memory \<Rightarrow> addr \<times> memory" where
  "copyItems lib = filled ItemsCell items_at (copyAll (BudgetNamespace_DeepCopyInto lib))"

definition List_DeepCopyInto :: "meta_lib \<Rightarrow> go_list \<Rightarrow> memory \<Rightarrow> go_list \<times> memory" where
  "List_DeepCopyInto lib i h =
     (case ml_ListMeta lib (gl_ListMeta i) h of (meta, h1) \<Rightarrow>
      case unless_nil (copyItems lib) (gl_Items i) h1 of (items, h2) \<Rightarrow>
        (i\<lparr>gl_TypeMeta := gl_TypeMeta i, gl_ListMeta := meta, gl_Items := items\<rparr>, h2))"

section \<open>The copies through pointers\<close>

definition Spec_DeepCopy :: "addr option \<Rightarrow> memory \<Rightarrow> addr option \<times> memory" where
  "Spec_DeepCopy = unless_nil (filled SpecCell spec_at Spec_DeepCopyInto)"

definition Status_DeepCopy :: "meta_lib \<Rightarrow> addr option \<Rightarrow> memory \<Rightarrow> addr option \<times> memory" where
  "Status_DeepCopy lib = unless_nil (filled StatusCell status_at (Status_DeepCopyInto lib))"

definition QuotaSpec_DeepCopy :: "addr option \<Rightarrow> memory \<Rightarrow> addr option \<times> memory" where
  "QuotaSpec_DeepCopy = unless_nil (filled QuotaCell quota_at QuotaSpec_DeepCopyInto)"

definition DefaultsSpec_DeepCopy :: "addr option \<Rightarrow> memory \<Rightarrow> addr option \<times> memory" where
  "DefaultsSpec_DeepCopy = unless_nil (filled DefaultsCell defaults_at DefaultsSpec_DeepCopyInto)"

definition EnforcementSpec_DeepCopy :: "addr option \<Rightarrow> memory \<Rightarrow> addr option \<times> memory" where
  "EnforcementSpec_DeepCopy = unless_nil (filled EnforcementCell enforcement_at EnforcementSpec_DeepCopyInto)"

definition CostBudgetSpec_DeepCopy :: "addr option \<Rightarrow> memory \<Rightarrow> addr option \<times> memory" where
  "CostBudgetSpec_DeepCopy = unless_nil (filled CostBudgetCell costBudget_at CostBudgetSpec_DeepCopyInto)"

definition BudgetNamespace_DeepCopy :: "meta_lib \<Rightarrow> addr option \<Rightarrow> memory \<Rightarrow> addr option \<times> memory" where
  "BudgetNamespace_DeepCopy lib = unless_nil (filled ObjectCell object_at (BudgetNamespace_DeepCopyInto lib))"

definition List_DeepCopy :: "meta_lib \<Rightarrow> addr option \<Rightarrow> memory \<Rightarrow> addr option \<times> memory" where
  "List_DeepCopy lib = unless_nil (filled ListCell list_at (List_DeepCopyInto lib))"

text \<open>A value of the interface \<open>runtime.Object\<close> is nil or a pointer with its type.\<close>

datatype runtime_object = RtBudgetNamespace addr | RtBudgetNamespaceList addr

definition BudgetNamespace_DeepCopyObject ::
  "meta_lib \<Rightarrow> addr option \<Rightarrow> memory \<Rightarrow> runtime_object option \<times> memory" where
  "BudgetNamespace_DeepCopyObject lib p h =
     (case BudgetNamespace_DeepCopy lib p h of
        (Some c, h1) \<Rightarrow> (Some (RtBudgetNamespace c), h1)
      | (None, h1) \<Rightarrow> (None, h1))"

definition List_DeepCopyObject ::
  "meta_lib \<Rightarrow> addr option \<Rightarrow> memory \<Rightarrow> runtime_object option \<times> memory" where
  "List_DeepCopyObject lib p h =
     (case List_DeepCopy lib p h of
        (Some c, h1) \<Rightarrow> (Some (RtBudgetNamespaceList c), h1)
      | (None, h1) \<Rightarrow> (None, h1))"

text \<open>A call through the interface.\<close>

definition DeepCopyObject :: "meta_lib \<Rightarrow> runtime_object \<Rightarrow> memory \<Rightarrow> runtime_object option \<times> memory" where
  "DeepCopyObject lib obj =
     (case obj of
        RtBudgetNamespace a \<Rightarrow> BudgetNamespace_DeepCopyObject lib (Some a)
      | RtBudgetNamespaceList a \<Rightarrow> List_DeepCopyObject lib (Some a))"


section \<open>What a copy is\<close>

definition extends :: "memory \<Rightarrow> memory \<Rightarrow> bool" where
  "extends h h' \<longleftrightarrow> mem_next h \<le> mem_next h' \<and> (\<forall>a < mem_next h. mem_cells h' a = mem_cells h a)"

text \<open>
  A way to copy things of a type, with how a thing reads in a memory, and the addresses that it can
  reach. How it reads depends on these addresses only; a copy reads the same as the original, it
  reaches fresh memory only, and the memory that was there before is not written.
\<close>

locale deep_copier =
  fixes copy :: "'a \<Rightarrow> memory \<Rightarrow> 'a \<times> memory"
    and view :: "memory \<Rightarrow> 'a \<Rightarrow> 'v"
    and refs :: "memory \<Rightarrow> 'a \<Rightarrow> addr set"
  assumes stable: "(\<And>a. a \<in> refs h x \<Longrightarrow> mem_cells h' a = mem_cells h a) \<Longrightarrow>
      view h' x = view h x \<and> refs h' x = refs h x"
    and copied: "copy x h = (y, h') \<Longrightarrow> refs h x \<subseteq> {..<mem_next h} \<Longrightarrow>
      extends h h' \<and> view h' y = view h x \<and> refs h' y \<subseteq> {mem_next h..<mem_next h'}"
begin

lemma stable_extends:
  "extends h h' \<Longrightarrow> refs h x \<subseteq> {..<mem_next h} \<Longrightarrow> view h' x = view h x \<and> refs h' x = refs h x"
  by (rule stable) (auto simp: extends_def)

lemma stable_store: "a \<notin> refs h x \<Longrightarrow> view (store a c h) x = view h x \<and> refs (store a c h) x = refs h x"
  by (rule stable) (auto simp: store_def)

text \<open>No write through the copy reaches the original, and none through the original the copy.\<close>

lemma separate:
  assumes "copy x h = (y, h')" "refs h x \<subseteq> {..<mem_next h}"
  shows "view h' y = view h x" "view h' x = view h x" "refs h' x \<inter> refs h' y = {}"
    "a \<in> refs h' y \<Longrightarrow> view (store a c h') x = view h x"
    "a \<in> refs h' x \<Longrightarrow> view (store a c h') y = view h x"
proof -
  note c = copied [OF assms]
  then show v: "view h' y = view h x" by simp
  from stable_extends [of h h' x] c assms(2) have o: "view h' x = view h x" "refs h' x = refs h x" by simp_all
  then show "view h' x = view h x" by simp
  from c o(2) assms(2) show d: "refs h' x \<inter> refs h' y = {}" by force
  show "a \<in> refs h' y \<Longrightarrow> view (store a c h') x = view h x"
    using stable_store [of a h' x c] d o(1) by auto
  show "a \<in> refs h' x \<Longrightarrow> view (store a c h') y = view h x"
    using stable_store [of a h' y c] d v by auto
qed

end

section \<open>Copies from copies\<close>

lemma extends_refl [simp]: "extends h h"
  by (simp add: extends_def)

lemma extends_trans: "extends h h1 \<Longrightarrow> extends h1 h2 \<Longrightarrow> extends h h2"
  by (auto simp: extends_def)

lemma copier_value: "(\<And>x. v (f x) = v x) \<Longrightarrow> deep_copier (\<lambda>x h. (f x, h)) (\<lambda>h. v) (\<lambda>h x. {})"
  by unfold_locales auto

lemma copier_unless_nil:
  assumes "deep_copier f v r"
  shows "deep_copier (unless_nil f) (\<lambda>h. map_option (v h)) (\<lambda>h p. case p of None \<Rightarrow> {} | Some a \<Rightarrow> r h a)"
proof unfold_locales
  fix h h' :: memory and x :: "'a option"
  assume "\<And>a. a \<in> (case x of None \<Rightarrow> {} | Some a \<Rightarrow> r h a) \<Longrightarrow> mem_cells h' a = mem_cells h a"
  then show "map_option (v h') x = map_option (v h) x \<and>
      (case x of None \<Rightarrow> {} | Some a \<Rightarrow> r h' a) = (case x of None \<Rightarrow> {} | Some a \<Rightarrow> r h a)"
    using deep_copier.stable [OF assms, of h "the x" h'] by (cases x) simp_all
next
  fix x y and h h' :: memory
  assume run: "unless_nil f x h = (y, h')" and old: "(case x of None \<Rightarrow> {} | Some a \<Rightarrow> r h a) \<subseteq> {..<mem_next h}"
  show "extends h h' \<and> map_option (v h') y = map_option (v h) x \<and>
      (case y of None \<Rightarrow> {} | Some a \<Rightarrow> r h' a) \<subseteq> {mem_next h..<mem_next h'}"
  proof (cases x)
    case None
    with run show ?thesis by (auto simp: unless_nil_def)
  next
    case (Some a)
    with run obtain b where "y = Some b" "f a h = (b, h')" by (auto simp: unless_nil_def split: prod.splits)
    with deep_copier.copied [OF assms this(2)] old Some show ?thesis by simp
  qed
qed

definition both :: "('a \<Rightarrow> memory \<Rightarrow> 'a \<times> memory) \<Rightarrow> ('b \<Rightarrow> memory \<Rightarrow> 'b \<times> memory) \<Rightarrow>
    'a \<times> 'b \<Rightarrow> memory \<Rightarrow> ('a \<times> 'b) \<times> memory" where
  "both f g p h = (case f (fst p) h of (x, h1) \<Rightarrow> case g (snd p) h1 of (y, h2) \<Rightarrow> ((x, y), h2))"

lemma copier_both:
  assumes f: "deep_copier f v r" and g: "deep_copier g w s"
  shows "deep_copier (both f g) (\<lambda>h p. (v h (fst p), w h (snd p))) (\<lambda>h p. r h (fst p) \<union> s h (snd p))"
proof unfold_locales
  fix h h' :: memory and p :: "'a \<times> 'c"
  assume "\<And>a. a \<in> r h (fst p) \<union> s h (snd p) \<Longrightarrow> mem_cells h' a = mem_cells h a"
  then show "(v h' (fst p), w h' (snd p)) = (v h (fst p), w h (snd p)) \<and>
      r h' (fst p) \<union> s h' (snd p) = r h (fst p) \<union> s h (snd p)"
    using deep_copier.stable [OF f, of h "fst p" h'] deep_copier.stable [OF g, of h "snd p" h'] by simp
next
  fix p q and h h' :: memory
  assume run: "both f g p h = (q, h')" and old: "r h (fst p) \<union> s h (snd p) \<subseteq> {..<mem_next h}"
  then obtain x y h1 where q: "q = (x, y)" and x: "f (fst p) h = (x, h1)" and y: "g (snd p) h1 = (y, h')"
    by (auto simp: both_def split: prod.splits)
  from deep_copier.copied [OF f x] old have c: "extends h h1" "v h1 x = v h (fst p)" "r h1 x \<subseteq> {mem_next h..<mem_next h1}"
    by simp_all
  from deep_copier.stable_extends [OF g c(1), of "snd p"] old
  have "w h1 (snd p) = w h (snd p)" "s h1 (snd p) = s h (snd p)" by simp_all
  moreover from c(1) have "mem_next h \<le> mem_next h1" by (simp add: extends_def)
  ultimately have d: "extends h1 h'" "w h' y = w h (snd p)" "s h' y \<subseteq> {mem_next h1..<mem_next h'}"
    using deep_copier.copied [OF g y] old by fastforce+
  have "r h1 x \<subseteq> {..<mem_next h1}" using c(3) by auto
  with deep_copier.stable_extends [OF f d(1)] have "v h' x = v h1 x" "r h' x = r h1 x" by auto
  moreover have "mem_next h1 \<le> mem_next h'" using d(1) by (simp add: extends_def)
  ultimately show "extends h h' \<and> (v h' (fst q), w h' (snd q)) = (v h (fst p), w h (snd p)) \<and>
      r h' (fst q) \<union> s h' (snd q) \<subseteq> {mem_next h..<mem_next h'}"
    using c d extends_trans [OF c(1) d(1)] \<open>mem_next h \<le> mem_next h1\<close> by (fastforce simp: q)
qed

text \<open>Some fields of a struct are copied, and the rest is assigned.\<close>

lemma copier_fields:
  assumes f: "deep_copier f v r" and c: "\<And>i h. c i h = (case f (get i) h of (y, h') \<Rightarrow> (put i y, h'))"
    and g: "\<And>i y. get (put i y) = y" and V: "\<And>i h. view h i = V i (v h (get i))" "\<And>i y z. V (put i y) z = V i z"
    and R: "\<And>i h. refs h i = r h (get i)"
  shows "deep_copier c view refs"
proof unfold_locales
  fix h h' :: memory and x
  assume "\<And>a. a \<in> refs h x \<Longrightarrow> mem_cells h' a = mem_cells h a"
  with deep_copier.stable [OF f, of h "get x" h'] show "view h' x = view h x \<and> refs h' x = refs h x"
    by (simp add: V R)
next
  fix x y and h h' :: memory
  assume run: "c x h = (y, h')" and old: "refs h x \<subseteq> {..<mem_next h}"
  from run obtain z where z: "f (get x) h = (z, h')" "y = put x z" by (auto simp: c split: prod.splits)
  from deep_copier.copied [OF f z(1)] old
  show "extends h h' \<and> view h' y = view h x \<and> refs h' y \<subseteq> {mem_next h..<mem_next h'}"
    by (simp add: z(2) g V R)
qed

text \<open>A cell is made and filled with a copy.\<close>

lemma copier_filled:
  assumes f: "deep_copier f v r" and rd: "\<And>h a y. rd (store a (mk y) h) a = y"
    and local: "\<And>h h' a. mem_cells h' a = mem_cells h a \<Longrightarrow> rd h' a = rd h a"
  shows "deep_copier (filled mk rd f) (\<lambda>h a. v h (rd h a)) (\<lambda>h a. insert a (r h (rd h a)))"
proof unfold_locales
  fix h h' :: memory and x
  assume "\<And>a. a \<in> insert x (r h (rd h x)) \<Longrightarrow> mem_cells h' a = mem_cells h a"
  moreover from this have "rd h' x = rd h x" by (intro local) simp
  ultimately show "v h' (rd h' x) = v h (rd h x) \<and> insert x (r h' (rd h' x)) = insert x (r h (rd h x))"
    using deep_copier.stable [OF f, of h "rd h x" h'] by simp
next
  fix x b and h h' :: memory
  assume run: "filled mk rd f x h = (b, h')" and old: "insert x (r h (rd h x)) \<subseteq> {..<mem_next h}"
  let ?b = "mem_next h" and ?h1 = "snd (make_cell h)"
  have h1: "extends h ?h1" "mem_next ?h1 = Suc ?b" by (auto simp: extends_def make_cell_def store_def)
  with old have "rd ?h1 x = rd h x" by (intro local) (simp add: extends_def)
  with run obtain y h2 where y: "f (rd h x) ?h1 = (y, h2)" and b: "b = ?b" "h' = store ?b (mk y) h2"
    by (auto simp: filled_def make_cell_def split: prod.splits)
  from deep_copier.stable_extends [OF f h1(1), of "rd h x"] old
  have s: "v ?h1 (rd h x) = v h (rd h x)" "r ?h1 (rd h x) = r h (rd h x)" by simp_all
  then have "r ?h1 (rd h x) \<subseteq> {..<mem_next ?h1}" using old h1(2) by auto
  from deep_copier.copied [OF f y this] s h1(2)
  have c: "extends ?h1 h2" "v h2 y = v h (rd h x)" "r h2 y \<subseteq> {Suc ?b..<mem_next h2}" by simp_all
  from c(3) have "?b \<notin> r h2 y" by auto
  from deep_copier.stable_store [OF f this, of "mk y"] b
  have "v h' y = v h2 y" "r h' y = r h2 y" by simp_all
  moreover have "rd h' b = y" by (simp add: b rd)
  moreover have "extends h h'" "mem_next h' = mem_next h2" "Suc ?b \<le> mem_next h2"
    using h1 c(1) by (auto simp: extends_def b(2) store_def)
  ultimately show "extends h h' \<and> v h' (rd h' b) = v h (rd h x) \<and>
      insert b (r h' (rd h' b)) \<subseteq> {mem_next h..<mem_next h'}"
    using c by (auto simp: b(1))
qed


lemma copier_all:
  assumes f: "deep_copier f v r"
  shows "deep_copier (copyAll f) (\<lambda>h. map (v h)) (\<lambda>h xs. \<Union>x \<in> set xs. r h x)"
proof unfold_locales
  fix h h' :: memory and xs
  assume same: "\<And>a. a \<in> (\<Union>x \<in> set xs. r h x) \<Longrightarrow> mem_cells h' a = mem_cells h a"
  have "v h' x = v h x \<and> r h' x = r h x" if "x \<in> set xs" for x
    by (rule deep_copier.stable [OF f]) (use same that in blast)
  then show "map (v h') xs = map (v h) xs \<and> (\<Union>x \<in> set xs. r h' x) = (\<Union>x \<in> set xs. r h x)" by simp
next
  fix xs ys and h h' :: memory
  assume "copyAll f xs h = (ys, h')" "(\<Union>x \<in> set xs. r h x) \<subseteq> {..<mem_next h}"
  then show "extends h h' \<and> map (v h') ys = map (v h) xs \<and>
      (\<Union>y \<in> set ys. r h' y) \<subseteq> {mem_next h..<mem_next h'}"
  proof (induction xs arbitrary: h ys)
    case (Cons x xs)
    then obtain y zs h1 where ys: "ys = y # zs" and x: "f x h = (y, h1)"
      and xs: "copyAll f xs h1 = (zs, h')" by (auto split: prod.splits)
    from deep_copier.copied [OF f x] Cons.prems(2)
    have c: "extends h h1" "v h1 y = v h x" "r h1 y \<subseteq> {mem_next h..<mem_next h1}" by simp_all
    then have le: "mem_next h \<le> mem_next h1" by (simp add: extends_def)
    have keep: "v h1 z = v h z \<and> r h1 z = r h z" if "z \<in> set xs" for z
      by (rule deep_copier.stable_extends [OF f c(1)]) (use Cons.prems(2) that in auto)
    then have "(\<Union>z \<in> set xs. r h1 z) \<subseteq> {..<mem_next h1}" using Cons.prems(2) le by fastforce
    from Cons.IH [OF xs this] keep have d: "extends h1 h'" "map (v h') zs = map (v h) xs"
      "(\<Union>z \<in> set zs. r h' z) \<subseteq> {mem_next h1..<mem_next h'}" by auto
    have "r h1 y \<subseteq> {..<mem_next h1}" using c(3) by auto
    with deep_copier.stable_extends [OF f d(1)] have "v h' y = v h1 y" "r h' y = r h1 y" by auto
    moreover have "mem_next h1 \<le> mem_next h'" using d(1) by (simp add: extends_def)
    ultimately show ?case
      using c d le extends_trans [OF c(1) d(1)] by (fastforce simp: ys)
  qed simp
qed

section \<open>How the structs read\<close>

text \<open>The values of the other theories are what the structs in memory stand for.\<close>

definition view_map :: "memory \<Rightarrow> addr \<Rightarrow> (string \<rightharpoonup> string)" where
  "view_map h a = DAList.lookup (map_at h a)"

definition view_spec :: "memory \<Rightarrow> go_spec \<Rightarrow> bn_spec" where
  "view_spec h i = \<lparr>spec_NamespaceName = gs_NamespaceName i,
     spec_Labels = map_option (view_map h) (gs_Labels i),
     spec_Annotations = map_option (view_map h) (gs_Annotations i),
     spec_Quota = gs_Quota i, spec_Defaults = gs_Defaults i, spec_TTL = gs_TTL i,
     spec_Enforcement = gs_Enforcement i, spec_CostBudget = map_option (costBudget_at h) (gs_CostBudget i)\<rparr>"

definition view_status :: "memory \<Rightarrow> go_status \<Rightarrow> bn_status" where
  "view_status h i = \<lparr>st_ObservedGeneration = gt_ObservedGeneration i, st_ManagedNamespace = gt_ManagedNamespace i,
     st_ExpiresAt = map_option (time_at h) (gt_ExpiresAt i),
     st_LastEnforcementAt = map_option (time_at h) (gt_LastEnforcementAt i),
     st_LastEnforcementOperation = gt_LastEnforcementOperation i,
     st_LastCostQueryAt = map_option (time_at h) (gt_LastCostQueryAt i),
     st_LastObservedSpendUSD = gt_LastObservedSpendUSD i,
     st_Conditions = (case gt_Conditions i of None \<Rightarrow> [] | Some a \<Rightarrow> conditions_at h a)\<rparr>"

definition object_value :: "memory \<Rightarrow> go_object \<Rightarrow> budget_namespace" where
  "object_value h i = \<lparr>bn_Name = om_Name (go_ObjectMeta i), bn_Namespace = om_Namespace (go_ObjectMeta i),
     bn_Generation = om_Generation (go_ObjectMeta i), bn_CreationTimestamp = om_CreationTimestamp (go_ObjectMeta i),
     bn_Spec = view_spec h (go_Spec i), bn_Status = view_status h (go_Status i)\<rparr>"

text \<open>The memory that they reach.\<close>

definition opt_refs :: "addr option \<Rightarrow> addr set" where
  "opt_refs p = (case p of None \<Rightarrow> {} | Some a \<Rightarrow> {a})"

definition spec_refs :: "memory \<Rightarrow> go_spec \<Rightarrow> addr set" where
  "spec_refs h i = opt_refs (gs_Labels i) \<union> (opt_refs (gs_Annotations i) \<union> opt_refs (gs_CostBudget i))"

definition status_refs :: "memory \<Rightarrow> go_status \<Rightarrow> addr set" where
  "status_refs h i = opt_refs (gt_ExpiresAt i) \<union> (opt_refs (gt_LastEnforcementAt i) \<union>
     (opt_refs (gt_LastCostQueryAt i) \<union> opt_refs (gt_Conditions i)))"

definition object_refs :: "memory \<Rightarrow> go_object \<Rightarrow> addr set" where
  "object_refs h i = set (om_refs (go_ObjectMeta i)) \<union> (spec_refs h (go_Spec i) \<union> status_refs h (go_Status i))"

text \<open>What is documented of the functions of the other package: their copies are deep.\<close>

definition meta_view :: "memory \<Rightarrow> object_meta \<Rightarrow> object_meta \<times> cell option list" where
  "meta_view h m = (m\<lparr>om_refs := []\<rparr>, map (mem_cells h) (om_refs m))"

definition list_meta_view :: "memory \<Rightarrow> list_meta \<Rightarrow> list_meta \<times> cell option list" where
  "list_meta_view h m = (m\<lparr>lm_refs := []\<rparr>, map (mem_cells h) (lm_refs m))"

definition meta_contract :: "meta_lib \<Rightarrow> bool" where
  "meta_contract lib \<longleftrightarrow>
     deep_copier (ml_ObjectMeta lib) meta_view (\<lambda>h m. set (om_refs m)) \<and>
     deep_copier (ml_ListMeta lib) list_meta_view (\<lambda>h m. set (lm_refs m)) \<and>
     deep_copier (ml_Time lib) time_at (\<lambda>h a. {a}) \<and>
     (\<forall>c. ml_Condition lib c = c)"

text \<open>All that an object and a list hold: the type, the metadata and the value; a nil list is not an empty one.\<close>

type_synonym object_view = "(string \<times> string) \<times> (object_meta \<times> cell option list) \<times> budget_namespace"

definition view_object :: "memory \<Rightarrow> go_object \<Rightarrow> object_view" where
  "view_object h i = (go_TypeMeta i, meta_view h (go_ObjectMeta i), object_value h i)"

type_synonym list_view = "(string \<times> string) \<times> (list_meta \<times> cell option list) \<times> object_view list option"

definition view_list :: "memory \<Rightarrow> go_list \<Rightarrow> list_view" where
  "view_list h i = (gl_TypeMeta i, list_meta_view h (gl_ListMeta i),
     map_option (\<lambda>a. map (view_object h) (items_at h a)) (gl_Items i))"

definition list_refs :: "memory \<Rightarrow> go_list \<Rightarrow> addr set" where
  "list_refs h i = set (lm_refs (gl_ListMeta i)) \<union>
     (case gl_Items i of None \<Rightarrow> {} | Some a \<Rightarrow> insert a (\<Union>x \<in> set (items_at h a). object_refs h x))"

section \<open>The generated functions are deep copies\<close>

lemma reads_own [simp]:
  "map_at (store a (MapCell m) h) a = m" "costBudget_at (store a (CostBudgetCell cb) h) a = cb"
  "conditions_at (store a (ConditionsCell cs) h) a = cs" "spec_at (store a (SpecCell i) h) a = i"
  "status_at (store a (StatusCell st) h) a = st" "object_at (store a (ObjectCell ob) h) a = ob"
  "items_at (store a (ItemsCell os) h) a = os" "list_at (store a (ListCell l) h) a = l"
  by (simp_all add: store_def map_at_def costBudget_at_def conditions_at_def spec_at_def status_at_def
      object_at_def items_at_def list_at_def)

lemma reads_local:
  assumes "mem_cells h' a = mem_cells h a"
  shows "map_at h' a = map_at h a" "costBudget_at h' a = costBudget_at h a" "conditions_at h' a = conditions_at h a"
    "spec_at h' a = spec_at h a" "status_at h' a = status_at h a" "object_at h' a = object_at h a"
    "items_at h' a = items_at h a" "list_at h' a = list_at h a"
  by (simp_all add: assms map_at_def costBudget_at_def conditions_at_def spec_at_def status_at_def
      object_at_def items_at_def list_at_def)

lemma copyEntries_lookup:
  "distinct (map fst es) \<Longrightarrow> DAList.lookup (copyEntries out es) = DAList.lookup out ++ map_of es"
proof (induction es arbitrary: out)
  case (Cons e es)
  obtain k v where e: "e = (k, v)" by (cases e)
  from Cons.prems e have "map_of es k = None" by (simp add: map_of_eq_None_iff)
  with Cons e show ?case by (auto simp: lookup_update map_add_def fun_eq_iff split: option.splits)
qed simp

lemma copyEntries_same: "DAList.lookup (copyEntries DAList.empty (DAList.impl_of m)) = DAList.lookup m"
proof -
  have "DAList.lookup DAList.empty = (Map.empty :: string \<rightharpoonup> string)" by (simp add: fun_eq_iff)
  then show ?thesis by (simp add: copyEntries_lookup) (simp add: DAList.lookup_def)
qed

interpretation map_copy: deep_copier copyMap view_map "\<lambda>h a. {a}"
proof -
  have "deep_copier (\<lambda>m h. (copyEntries DAList.empty (DAList.impl_of m), h)) (\<lambda>h. DAList.lookup) (\<lambda>h x. {})"
    by (rule copier_value) (rule copyEntries_same)
  from copier_filled [OF this reads_own(1) reads_local(1)]
  show "deep_copier copyMap view_map (\<lambda>h a. {a})"
    by (simp only: copyMap_def view_map_def [abs_def])
qed

interpretation costBudget_copy: deep_copier copyCostBudget costBudget_at "\<lambda>h a. {a}"
proof -
  have "deep_copier (\<lambda>c h. (c, h)) (\<lambda>h c. c) (\<lambda>h (x :: cost_budget_spec). {})"
    by (rule copier_value) (rule refl)
  from copier_filled [OF this reads_own(2) reads_local(2)]
  show "deep_copier copyCostBudget costBudget_at (\<lambda>h a. {a})"
    by (simp only: copyCostBudget_def eta_contract_eq)
qed

text \<open>The structs: the fields that are copied through their pointers, and how they are put together.\<close>

lemmas copier_opt = copier_unless_nil [OF map_copy.deep_copier_axioms] copier_unless_nil [OF costBudget_copy.deep_copier_axioms]

definition spec_with :: "go_spec \<Rightarrow> (string \<rightharpoonup> string) option \<times> (string \<rightharpoonup> string) option \<times> cost_budget_spec option \<Rightarrow> bn_spec" where
  "spec_with i = (\<lambda>(labels, annotations, costBudget).
     view_spec \<lparr>mem_next = 0, mem_cells = Map.empty\<rparr> (i\<lparr>gs_Labels := None, gs_Annotations := None, gs_CostBudget := None\<rparr>)
       \<lparr>spec_Labels := labels, spec_Annotations := annotations, spec_CostBudget := costBudget\<rparr>)"

interpretation spec_copy: deep_copier Spec_DeepCopyInto view_spec spec_refs
proof (rule copier_fields [where get = "\<lambda>i. (gs_Labels i, gs_Annotations i, gs_CostBudget i)"
      and put = "\<lambda>i (l, a, c). i\<lparr>gs_Labels := l, gs_Annotations := a, gs_CostBudget := c\<rparr>" and V = spec_with])
  show "deep_copier (both (unless_nil copyMap) (both (unless_nil copyMap) (unless_nil copyCostBudget)))
     (\<lambda>h p. (map_option (view_map h) (fst p), map_option (view_map h) (fst (snd p)), map_option (costBudget_at h) (snd (snd p))))
     (\<lambda>h p. opt_refs (fst p) \<union> (opt_refs (fst (snd p)) \<union> opt_refs (snd (snd p))))"
    unfolding opt_refs_def
    by (rule copier_both [OF copier_opt(1) copier_both [OF copier_opt(1) copier_opt(2)]])
qed (auto simp: Spec_DeepCopyInto_def both_def view_spec_def spec_with_def spec_refs_def split: prod.splits)

definition status_with :: "go_status \<Rightarrow> go_time option \<times> go_time option \<times> go_time option \<times> condition list option \<Rightarrow> bn_status" where
  "status_with i = (\<lambda>(expires, enforced, queried, conditions).
     \<lparr>st_ObservedGeneration = gt_ObservedGeneration i, st_ManagedNamespace = gt_ManagedNamespace i,
      st_ExpiresAt = expires, st_LastEnforcementAt = enforced,
      st_LastEnforcementOperation = gt_LastEnforcementOperation i, st_LastCostQueryAt = queried,
      st_LastObservedSpendUSD = gt_LastObservedSpendUSD i,
      st_Conditions = (case conditions of None \<Rightarrow> [] | Some cs \<Rightarrow> cs)\<rparr>)"

lemma conditions_copier:
  assumes "meta_contract lib"
  shows "deep_copier (copyConditions lib) conditions_at (\<lambda>h a. {a})"
proof -
  have "map (ml_Condition lib) cs = cs" for cs
    using assms by (simp add: meta_contract_def map_idI)
  then have "deep_copier (\<lambda>cs h. (map (ml_Condition lib) cs, h)) (\<lambda>h cs. cs) (\<lambda>h x. {})"
    by (intro copier_value)
  from copier_filled [OF this reads_own(3) reads_local(3)]
  show ?thesis by (simp only: copyConditions_def eta_contract_eq)
qed

lemma status_copier:
  assumes lib: "meta_contract lib"
  shows "deep_copier (Status_DeepCopyInto lib) view_status status_refs"
proof (rule copier_fields [where get = "\<lambda>i. (gt_ExpiresAt i, gt_LastEnforcementAt i, gt_LastCostQueryAt i, gt_Conditions i)"
      and put = "\<lambda>i (e, l, q, c). i\<lparr>gt_ExpiresAt := e, gt_LastEnforcementAt := l, gt_LastCostQueryAt := q, gt_Conditions := c\<rparr>"
      and V = status_with])
  have "deep_copier (ml_Time lib) time_at (\<lambda>h a. {a})" using lib by (simp add: meta_contract_def)
  then have t: "deep_copier (unless_nil (ml_Time lib)) (\<lambda>h. map_option (time_at h)) (\<lambda>h. opt_refs)"
    unfolding opt_refs_def by (rule copier_unless_nil)
  have c: "deep_copier (unless_nil (copyConditions lib)) (\<lambda>h. map_option (conditions_at h)) (\<lambda>h. opt_refs)"
    unfolding opt_refs_def by (rule copier_unless_nil [OF conditions_copier [OF lib]])
  show "deep_copier (both (unless_nil (ml_Time lib)) (both (unless_nil (ml_Time lib)) (both (unless_nil (ml_Time lib))
        (unless_nil (copyConditions lib)))))
     (\<lambda>h p. (map_option (time_at h) (fst p), map_option (time_at h) (fst (snd p)),
        map_option (time_at h) (fst (snd (snd p))), map_option (conditions_at h) (snd (snd (snd p)))))
     (\<lambda>h p. opt_refs (fst p) \<union> (opt_refs (fst (snd p)) \<union> (opt_refs (fst (snd (snd p))) \<union> opt_refs (snd (snd (snd p))))))"
    by (rule copier_both [OF t copier_both [OF t copier_both [OF t c]]])
qed (auto simp: Status_DeepCopyInto_def both_def view_status_def status_with_def status_refs_def split: prod.splits option.splits)

definition object_with :: "go_object \<Rightarrow> (object_meta \<times> cell option list) \<times> bn_spec \<times> bn_status \<Rightarrow> object_view" where
  "object_with i = (\<lambda>(meta, spec, status).
     (go_TypeMeta i, meta, \<lparr>bn_Name = om_Name (fst meta), bn_Namespace = om_Namespace (fst meta),
        bn_Generation = om_Generation (fst meta), bn_CreationTimestamp = om_CreationTimestamp (fst meta),
        bn_Spec = spec, bn_Status = status\<rparr>))"

lemma object_copier:
  assumes lib: "meta_contract lib"
  shows "deep_copier (BudgetNamespace_DeepCopyInto lib) view_object object_refs"
proof (rule copier_fields [where get = "\<lambda>i. (go_ObjectMeta i, go_Spec i, go_Status i)"
      and put = "\<lambda>i (m, s, t). i\<lparr>go_ObjectMeta := m, go_Spec := s, go_Status := t\<rparr>" and V = object_with])
  have m: "deep_copier (ml_ObjectMeta lib) meta_view (\<lambda>h m. set (om_refs m))"
    using lib by (simp add: meta_contract_def)
  show "deep_copier (both (ml_ObjectMeta lib) (both Spec_DeepCopyInto (Status_DeepCopyInto lib)))
     (\<lambda>h p. (meta_view h (fst p), view_spec h (fst (snd p)), view_status h (snd (snd p))))
     (\<lambda>h p. set (om_refs (fst p)) \<union> (spec_refs h (fst (snd p)) \<union> status_refs h (snd (snd p))))"
    by (rule copier_both [OF m copier_both [OF spec_copy.deep_copier_axioms status_copier [OF lib]]])
qed (auto simp: BudgetNamespace_DeepCopyInto_def both_def view_object_def object_value_def object_with_def
    object_refs_def meta_view_def split: prod.splits)

lemma list_copier:
  assumes lib: "meta_contract lib"
  shows "deep_copier (List_DeepCopyInto lib) view_list list_refs"
proof (rule copier_fields [where get = "\<lambda>i. (gl_ListMeta i, gl_Items i)"
      and put = "\<lambda>i (m, s). i\<lparr>gl_ListMeta := m, gl_Items := s\<rparr>" and V = "\<lambda>i (m, items). (gl_TypeMeta i, m, items)"])
  have m: "deep_copier (ml_ListMeta lib) list_meta_view (\<lambda>h m. set (lm_refs m))"
    using lib by (simp add: meta_contract_def)
  note items = copier_unless_nil [OF copier_filled [OF copier_all [OF object_copier [OF lib]] reads_own(7) reads_local(7)]]
  show "deep_copier (both (ml_ListMeta lib) (unless_nil (copyItems lib)))
     (\<lambda>h p. (list_meta_view h (fst p), map_option (\<lambda>a. map (view_object h) (items_at h a)) (snd p)))
     (\<lambda>h p. set (lm_refs (fst p)) \<union>
        (case snd p of None \<Rightarrow> {} | Some a \<Rightarrow> insert a (\<Union>x \<in> set (items_at h a). object_refs h x)))"
    unfolding copyItems_def by (rule copier_both [OF m items])
qed (auto simp: List_DeepCopyInto_def both_def view_list_def list_refs_def split: prod.splits)

text \<open>The two types behind the interface.\<close>

definition view_runtime :: "memory \<Rightarrow> runtime_object \<Rightarrow> object_view + list_view" where
  "view_runtime h obj = (case obj of
     RtBudgetNamespace a \<Rightarrow> Inl (view_object h (object_at h a))
   | RtBudgetNamespaceList a \<Rightarrow> Inr (view_list h (list_at h a)))"

definition runtime_refs :: "memory \<Rightarrow> runtime_object \<Rightarrow> addr set" where
  "runtime_refs h obj = (case obj of
     RtBudgetNamespace a \<Rightarrow> insert a (object_refs h (object_at h a))
   | RtBudgetNamespaceList a \<Rightarrow> insert a (list_refs h (list_at h a)))"

lemmas object_ptr_copier = copier_filled [OF object_copier reads_own(6) reads_local(6)]
lemmas list_ptr_copier = copier_filled [OF list_copier reads_own(8) reads_local(8)]

lemma runtime_copier:
  assumes lib: "meta_contract lib"
  shows "deep_copier (\<lambda>obj h. case DeepCopyObject lib obj h of (c, h1) \<Rightarrow> (the c, h1)) view_runtime runtime_refs"
proof unfold_locales
  fix h h' :: memory and obj
  assume "\<And>a. a \<in> runtime_refs h obj \<Longrightarrow> mem_cells h' a = mem_cells h a"
  then show "view_runtime h' obj = view_runtime h obj \<and> runtime_refs h' obj = runtime_refs h obj"
    using deep_copier.stable [OF object_ptr_copier [OF lib], of _ h h'] deep_copier.stable [OF list_ptr_copier [OF lib], of _ h h']
    by (cases obj) (simp_all add: view_runtime_def runtime_refs_def)
next
  fix obj c and h h' :: memory
  assume run: "(case DeepCopyObject lib obj h of (c, h1) \<Rightarrow> (the c, h1)) = (c, h')"
    and old: "runtime_refs h obj \<subseteq> {..<mem_next h}"
  show "extends h h' \<and> view_runtime h' c = view_runtime h obj \<and> runtime_refs h' c \<subseteq> {mem_next h..<mem_next h'}"
  proof (cases obj)
    case (RtBudgetNamespace a)
    with run obtain b where "filled ObjectCell object_at (BudgetNamespace_DeepCopyInto lib) a h = (b, h')"
      "c = RtBudgetNamespace b"
      by (auto simp: DeepCopyObject_def BudgetNamespace_DeepCopyObject_def BudgetNamespace_DeepCopy_def
          unless_nil_def split: prod.splits)
    with deep_copier.copied [OF object_ptr_copier [OF lib] this(1)] old RtBudgetNamespace show ?thesis
      by (simp add: view_runtime_def runtime_refs_def)
  next
    case (RtBudgetNamespaceList a)
    with run obtain b where "filled ListCell list_at (List_DeepCopyInto lib) a h = (b, h')"
      "c = RtBudgetNamespaceList b"
      by (auto simp: DeepCopyObject_def List_DeepCopyObject_def List_DeepCopy_def unless_nil_def split: prod.splits)
    with deep_copier.copied [OF list_ptr_copier [OF lib] this(1)] old RtBudgetNamespaceList show ?thesis
      by (simp add: view_runtime_def runtime_refs_def)
  qed
qed

lemma DeepCopyObject_not_nil: "\<exists>c h'. DeepCopyObject lib obj h = (Some c, h')"
  by (cases obj) (auto simp: DeepCopyObject_def BudgetNamespace_DeepCopyObject_def List_DeepCopyObject_def
      BudgetNamespace_DeepCopy_def List_DeepCopy_def unless_nil_def split: prod.splits)

text \<open>The copies of the nested structs through their pointers, nil included.\<close>

lemma flat_copier:
  assumes "\<And>h a y. rd (store a (mk y) h) a = y" "\<And>h h' a. mem_cells h' a = mem_cells h a \<Longrightarrow> rd h' a = rd h a"
  shows "deep_copier (unless_nil (filled mk rd (\<lambda>i h. (i, h)))) (\<lambda>h. map_option (rd h))
     (\<lambda>h p. case p of None \<Rightarrow> {} | Some a \<Rightarrow> {a})"
  by (rule copier_unless_nil, rule copier_filled [OF copier_value [where v = "\<lambda>x. x"] assms, of "\<lambda>x. x"]) simp

lemma nested_copiers:
  "deep_copier QuotaSpec_DeepCopy (\<lambda>h. map_option (quota_at h)) (\<lambda>h. opt_refs)"
  "deep_copier DefaultsSpec_DeepCopy (\<lambda>h. map_option (defaults_at h)) (\<lambda>h. opt_refs)"
  "deep_copier EnforcementSpec_DeepCopy (\<lambda>h. map_option (enforcement_at h)) (\<lambda>h. opt_refs)"
  "deep_copier CostBudgetSpec_DeepCopy (\<lambda>h. map_option (costBudget_at h)) (\<lambda>h. opt_refs)"
  "deep_copier Spec_DeepCopy (\<lambda>h. map_option (\<lambda>a. view_spec h (spec_at h a)))
     (\<lambda>h p. case p of None \<Rightarrow> {} | Some a \<Rightarrow> insert a (spec_refs h (spec_at h a)))"
  unfolding QuotaSpec_DeepCopy_def DefaultsSpec_DeepCopy_def EnforcementSpec_DeepCopy_def CostBudgetSpec_DeepCopy_def
    QuotaSpec_DeepCopyInto_def [abs_def] DefaultsSpec_DeepCopyInto_def [abs_def] EnforcementSpec_DeepCopyInto_def [abs_def]
    CostBudgetSpec_DeepCopyInto_def [abs_def] opt_refs_def [abs_def] Spec_DeepCopy_def
  by (rule flat_copier; simp add: quota_at_def defaults_at_def enforcement_at_def costBudget_at_def store_def)+
    (rule copier_unless_nil [OF copier_filled [OF spec_copy.deep_copier_axioms reads_own(4) reads_local(4)]])

lemma Status_DeepCopy_copier:
  "meta_contract lib \<Longrightarrow> deep_copier (Status_DeepCopy lib) (\<lambda>h. map_option (\<lambda>a. view_status h (status_at h a)))
     (\<lambda>h p. case p of None \<Rightarrow> {} | Some a \<Rightarrow> insert a (status_refs h (status_at h a)))"
  unfolding Status_DeepCopy_def
  by (rule copier_unless_nil [OF copier_filled [OF status_copier reads_own(5) reads_local(5)]])

text \<open>
  C34: \<open>DeepCopyObject\<close> is never nil on an object or a list, its result is of the same type, and it is
  a deep copy: it reads the same as the original, which reads as before; the two share no memory; no
  write to any memory that the copy reaches changes how the original reads, and the other way round.
  So what the controller writes into an object from the cache stays in its own copy.
\<close>

theorem copies_are_deep:
  assumes "meta_contract lib" "runtime_refs h obj \<subseteq> {..<mem_next h}"
  shows "\<exists>c h'. DeepCopyObject lib obj h = (Some c, h') \<and>
     view_runtime h' c = view_runtime h obj \<and> view_runtime h' obj = view_runtime h obj \<and>
     runtime_refs h' obj \<inter> runtime_refs h' c = {} \<and>
     (\<forall>a \<in> runtime_refs h' c. \<forall>x. view_runtime (store a x h') obj = view_runtime h obj) \<and>
     (\<forall>a \<in> runtime_refs h' obj. \<forall>x. view_runtime (store a x h') c = view_runtime h obj)"
proof -
  obtain c h' where run: "DeepCopyObject lib obj h = (Some c, h')" using DeepCopyObject_not_nil by blast
  then have "(case DeepCopyObject lib obj h of (c, h1) \<Rightarrow> (the c, h1)) = (c, h')" by simp
  from deep_copier.separate [OF runtime_copier [OF assms(1)] this assms(2)] run show ?thesis by blast
qed

section \<open>A library that keeps the contract\<close>

definition copyRef :: "addr \<Rightarrow> memory \<Rightarrow> addr \<times> memory" where
  "copyRef a h = (mem_next h,
     h\<lparr>mem_next := Suc (mem_next h), mem_cells := (mem_cells h)(mem_next h := mem_cells h a)\<rparr>)"

definition sample_meta :: meta_lib where
  "sample_meta = \<lparr>ml_ObjectMeta = \<lambda>m h. (case copyAll copyRef (om_refs m) h of (rs, h1) \<Rightarrow> (m\<lparr>om_refs := rs\<rparr>, h1)),
     ml_ListMeta = \<lambda>m h. (case copyAll copyRef (lm_refs m) h of (rs, h1) \<Rightarrow> (m\<lparr>lm_refs := rs\<rparr>, h1)),
     ml_Time = copyRef, ml_Condition = \<lambda>c. c\<rparr>"

lemma copyRef_deep: "deep_copier copyRef (\<lambda>h a. g (mem_cells h a)) (\<lambda>h a. {a})"
  by unfold_locales (auto simp: copyRef_def extends_def)

lemma sample_meta_contract: "meta_contract sample_meta"
proof -
  have refs: "deep_copier (copyAll copyRef) (\<lambda>h. map (mem_cells h)) (\<lambda>h rs. set rs)"
    using copier_all [OF copyRef_deep [of "\<lambda>c. c"]] by simp
  have "deep_copier (ml_ObjectMeta sample_meta) meta_view (\<lambda>h m. set (om_refs m))"
    by (rule copier_fields [OF refs, where put = "\<lambda>m rs. m\<lparr>om_refs := rs\<rparr>" and V = "\<lambda>m cs. (m\<lparr>om_refs := []\<rparr>, cs)"])
      (simp_all add: sample_meta_def meta_view_def)
  moreover have "deep_copier (ml_ListMeta sample_meta) list_meta_view (\<lambda>h m. set (lm_refs m))"
    by (rule copier_fields [OF refs, where put = "\<lambda>m rs. m\<lparr>lm_refs := rs\<rparr>" and V = "\<lambda>m cs. (m\<lparr>lm_refs := []\<rparr>, cs)"])
      (simp_all add: sample_meta_def list_meta_view_def)
  moreover have "deep_copier (ml_Time sample_meta) time_at (\<lambda>h a. {a})"
    unfolding time_at_def sample_meta_def by (simp add: copyRef_deep)
  ultimately show ?thesis by (simp add: meta_contract_def sample_meta_def)
qed

text \<open>An object with labels, a cost budget, a condition list and one reference of its metadata.\<close>

definition sample_memory :: memory where
  "sample_memory = \<lparr>mem_next = 5, mem_cells =
     [0 \<mapsto> ObjectCell (zero_object
        \<lparr>go_ObjectMeta := (go_ObjectMeta zero_object)\<lparr>om_Name := ''team-a'', om_refs := [1]\<rparr>,
         go_Spec := zero_spec\<lparr>gs_Labels := Some 2, gs_CostBudget := Some 3\<rparr>,
         go_Status := zero_status\<lparr>gt_ExpiresAt := Some 4\<rparr>\<rparr>),
      1 \<mapsto> OtherCell ''finalizers'', 2 \<mapsto> MapCell (DAList.update ''team'' ''a'' DAList.empty),
      3 \<mapsto> CostBudgetCell (zero_cost_budget\<lparr>cb_Enabled := True\<rparr>), 4 \<mapsto> TimeCell zero_time]\<rparr>"

theorem copies_are_deep_witness:
  "runtime_refs sample_memory (RtBudgetNamespace 0) = {0, 1, 2, 3, 4} \<and>
   (\<exists>c h'. DeepCopyObject sample_meta (RtBudgetNamespace 0) sample_memory = (Some c, h') \<and>
     view_runtime h' c = view_runtime sample_memory (RtBudgetNamespace 0) \<and>
     runtime_refs h' (RtBudgetNamespace 0) \<inter> runtime_refs h' c = {})"
proof -
  have r: "runtime_refs sample_memory (RtBudgetNamespace 0) = {0, 1, 2, 3, 4}"
    by (auto simp: runtime_refs_def sample_memory_def object_at_def object_refs_def spec_refs_def status_refs_def
        opt_refs_def zero_object_def zero_spec_def zero_status_def)
  then have "runtime_refs sample_memory (RtBudgetNamespace 0) \<subseteq> {..<mem_next sample_memory}"
    by (simp add: sample_memory_def)
  from copies_are_deep [OF sample_meta_contract this] r show ?thesis by blast
qed

end
