(* ===== verification/Cmd_Main.thy ===== *)
theory Cmd_Main
  imports Sample_Runs
begin

text \<open>
  \<open>cmd/main.go\<close>: from the parsed command line and the environment variables to the options
  of the manager and its servers, and to the reconciler that is started. What the libraries
  answer (the manager, the BigQuery client, the registration of the controller and of the
  checks) is a parameter. The logger is left out.
\<close>

section \<open>Environment variables\<close>

fun firstNonEmptyEnv :: "(string \<Rightarrow> string) \<Rightarrow> string list \<Rightarrow> string" where
  "firstNonEmptyEnv getenv [] = []"
| "firstNonEmptyEnv getenv (k # ks) =
     (let v = trimSpace (getenv k) in if v \<noteq> [] then v else firstNonEmptyEnv getenv ks)"

section \<open>Options\<close>

record main_flags =
  metricsAddr :: string
  probeAddr :: string
  enableLeaderElection :: bool
  secureMetrics :: bool
  webhookCertPath :: string
  webhookCertName :: string
  webhookCertKey :: string
  metricsCertPath :: string
  metricsCertName :: string
  metricsCertKey :: string
  enableHTTP2 :: bool

definition default_flags :: main_flags where
  "default_flags = \<lparr>metricsAddr = ''0'', probeAddr = '':8081'', enableLeaderElection = False,
     secureMetrics = True, webhookCertPath = [], webhookCertName = ''tls.crt'', webhookCertKey = ''tls.key'',
     metricsCertPath = [], metricsCertName = ''tls.crt'', metricsCertKey = ''tls.key'', enableHTTP2 = False\<rparr>"

text \<open>The part of \<open>tls.Config\<close> that the options touch.\<close>

record tls_config =
  NextProtos :: "string list"

type_synonym tls_opts = "(tls_config \<Rightarrow> tls_config) list"

definition disableHTTP2 :: "tls_config \<Rightarrow> tls_config" where
  "disableHTTP2 c = c\<lparr>NextProtos := [''http/1.1'']\<rparr>"

definition tlsOpts :: "main_flags \<Rightarrow> tls_opts" where
  "tlsOpts fl = (if \<not> enableHTTP2 fl then [disableHTTP2] else [])"

text \<open>The options of the webhook and of the metrics server; an unset string is empty.\<close>

record server_options =
  so_BindAddress :: string
  so_SecureServing :: bool
  so_TLSOpts :: tls_opts
  so_FilterProvider :: bool
  so_CertDir :: string
  so_CertName :: string
  so_KeyName :: string

definition webhookServerOptions :: "main_flags \<Rightarrow> server_options" where
  "webhookServerOptions fl =
     (let o1 = \<lparr>so_BindAddress = [], so_SecureServing = False, so_TLSOpts = tlsOpts fl,
          so_FilterProvider = False, so_CertDir = [], so_CertName = [], so_KeyName = []\<rparr> in
      if 0 < length (webhookCertPath fl)
      then o1\<lparr>so_CertDir := webhookCertPath fl, so_CertName := webhookCertName fl,
             so_KeyName := webhookCertKey fl\<rparr>
      else o1)"

definition metricsServerOptions :: "main_flags \<Rightarrow> server_options" where
  "metricsServerOptions fl =
     (let o1 = \<lparr>so_BindAddress = metricsAddr fl, so_SecureServing = secureMetrics fl,
          so_TLSOpts = tlsOpts fl, so_FilterProvider = False, so_CertDir = [], so_CertName = [],
          so_KeyName = []\<rparr>;
          o2 = (if secureMetrics fl then o1\<lparr>so_FilterProvider := True\<rparr> else o1)
      in if 0 < length (metricsCertPath fl)
         then o2\<lparr>so_CertDir := metricsCertPath fl, so_CertName := metricsCertName fl,
                so_KeyName := metricsCertKey fl\<rparr>
         else o2)"

record manager_options =
  mo_Metrics :: server_options
  mo_WebhookServer :: server_options
  mo_HealthProbeBindAddress :: string
  mo_LeaderElection :: bool
  mo_LeaderElectionID :: string

definition managerOptions :: "main_flags \<Rightarrow> manager_options" where
  "managerOptions fl =
     \<lparr>mo_Metrics = metricsServerOptions fl, mo_WebhookServer = webhookServerOptions fl,
      mo_HealthProbeBindAddress = probeAddr fl, mo_LeaderElection = enableLeaderElection fl,
      mo_LeaderElectionID = ''02cc9b92.ealebed.github.io''\<rparr>"

section \<open>The start\<close>

text \<open>What the libraries answer: an error, or none.\<close>

record 'q main_world =
  mw_getConfig :: "go_error option"
  mw_newManager :: "manager_options \<Rightarrow> go_error option"
  mw_newClient :: "string \<Rightarrow> go_error option"
  mw_complete :: "'q controller_config \<Rightarrow> 'q reconciler \<Rightarrow> go_error option"
  mw_healthz :: "go_error option"
  mw_readyz :: "go_error option"
  mw_start :: "go_error option"

text \<open>
  How \<open>main\<close> ends: with \<open>os.Exit(1)\<close> after an error was logged, in \<open>ctrl.GetConfigOrDie\<close>, which ends
  the process itself, or by returning after the manager has run the reconciler.
\<close>

datatype 'q main_end = Exited string go_error | Died go_error | Returned "'q reconciler"

definition mainRun ::
  "'q env \<Rightarrow> 'q main_world \<Rightarrow> (string \<Rightarrow> string) \<Rightarrow> main_flags \<Rightarrow> 'q main_end" where
  "mainRun env w getenv fl =
     (case mw_getConfig w of
        Some err \<Rightarrow> Died err
      | None \<Rightarrow>
      case mw_newManager w (managerOptions fl) of
        Some err \<Rightarrow> Exited ''Failed to start manager'' err
      | None \<Rightarrow>
        let projectID = firstNonEmptyEnv getenv [''GOOGLE_CLOUD_PROJECT'', ''GCLOUD_PROJECT'', ''GCP_PROJECT''];
            clientOk = (case mw_newClient w projectID of Some err \<Rightarrow> False | None \<Rightarrow> True);
            r = newReconciler env True clientOk
        in case SetupWithManager env (mw_complete w) r of
             Some err \<Rightarrow> Exited ''Failed to create controller'' err
           | None \<Rightarrow>
             (case mw_healthz w of
                Some err \<Rightarrow> Exited ''Failed to set up health check'' err
              | None \<Rightarrow>
                case mw_readyz w of
                  Some err \<Rightarrow> Exited ''Failed to set up ready check'' err
                | None \<Rightarrow>
                  case mw_start w of
                    Some err \<Rightarrow> Exited ''Failed to run manager'' err
                  | None \<Rightarrow> Returned r))"

section \<open>Lemmas: runs that need no costs\<close>

text \<open>Without an enabled cost budget, the querier of the reconciler makes no difference.\<close>

lemma same_recorder:
  assumes "r_Recorder r = r_Recorder r'"
  shows "scaleDown r = scaleDown r'" "scaleAtRisk r = scaleAtRisk r'" "scaleInGrace r = scaleInGrace r'"
    "recoverWorkloads r = recoverWorkloads r'" "recordWarning r = recordWarning r'"
proof -
  have rec: "recordNormal r = recordNormal r'" "recordWarning r = recordWarning r'"
    using assms by (simp_all add: fun_eq_iff recordNormal_def recordWarning_def)
  then show "recordWarning r = recordWarning r'" by simp
  show down: "scaleDown r = scaleDown r'" by (intro ext) (unfold scaleDown_def rec, rule refl)
  show "scaleAtRisk r = scaleAtRisk r'" "scaleInGrace r = scaleInGrace r'"
    by (intro ext; unfold scaleAtRisk_def scaleInGrace_def down; rule refl)+
  show "recoverWorkloads r = recoverWorkloads r'"
    by (intro ext) (unfold recoverWorkloads_def restoreNow_def deferRestore_def rec, rule refl)
qed

lemma enforceBudget_no_costs:
  assumes "r_Recorder r = r_Recorder r'" "\<not> costBudgetEnabled (lv_spec lv)"
  shows "enforceBudget r env t lv h = enforceBudget r' env t lv h"
proof -
  have "evaluateBudget r env t lv h = evaluateBudget r' env t lv h"
    unfolding evaluateBudget_def same_recorder [OF assms(1)] using assms(2)
    by (simp only: if_False cong: if_cong)
  then show ?thesis by (simp only: enforceBudget_def same_recorder [OF assms(1)])
qed

lemma reconcileWorkloads_no_costs:
  assumes "r_Recorder r = r_Recorder r'"
    and "\<not> costBudgetEnabled (lv_spec lv) \<or> \<not> shouldScaleDeploymentsToZero (lv_spec lv) \<or> ttl_expired ttl"
  shows "reconcileWorkloads r env t ttl lv h = reconcileWorkloads r' env t ttl lv h"
proof -
  have "enforceBudget r env t lv = enforceBudget r' env t lv" if "\<not> costBudgetEnabled (lv_spec lv)"
    by (intro ext enforceBudget_no_costs [OF assms(1) that])
  with assms(2) same_recorder(3) [OF assms(1)] show ?thesis
    by (cases "shouldScaleDeploymentsToZero (lv_spec lv)") (auto simp: reconcileWorkloads_def)
qed

lemma Reconcile_no_costs:
  assumes "r_Recorder r = r_Recorder r'"
    and "\<And>bn. env_getBudgetNamespace env h req = Inr bn \<Longrightarrow>
      \<not> costBudgetEnabled (bn_Spec bn) \<or> \<not> shouldScaleDeploymentsToZero (bn_Spec bn) \<or> expired_at bn (now_of env h req)"
  shows "Reconcile r env req h = Reconcile r' env req h"
proof (cases "env_getBudgetNamespace env h req")
  case (Inl err)
  then show ?thesis by (simp add: Reconcile_unread)
next
  case (Inr bn)
  show ?thesis
  proof (cases "validateCostBudgetSpec (bn_Spec bn)")
    case None
    obtain x h3 where ttl: "evaluateTTL env bn (now_of env h req) (started_at h req) = (x, h3)" by (metis surj_pair)
    have "reconcileWorkloads r env (now_of env h req) t (initial_locals bn) h3 =
        reconcileWorkloads r' env (now_of env h req) t (initial_locals bn) h3" if "x = Inr t" for t
      using assms(2) [OF Inr] evaluateTTL_ok(1) [OF ttl [unfolded that]]
      by (intro reconcileWorkloads_no_costs [OF assms(1)]) (simp add: initial_locals_def)
    then show ?thesis by (cases x) (simp_all add: Reconcile_valid [OF Inr None] ttl)
  qed (simp add: Reconcile_invalid [OF Inr])
qed

text \<open>With one, a reconciler without a querier comes to no result and changes no workload.\<close>

abbreviation changes_nothing :: "'q call \<Rightarrow> bool" where
  "changes_nothing c \<equiv> \<not> is_patch c \<and> \<not> is_delete c \<and> \<not> is_cost_query c \<and> \<not> is_status_update c"

lemma evaluateBudget_without_querier:
  assumes "r_SpendQuerier r = None" "costBudgetEnabled (lv_spec lv)"
  shows "\<exists>err. fst (evaluateBudget r env t lv h) = Inl err"
    and "grows changes_nothing h (snd (evaluateBudget r env t lv h))"
  using assms
  by (auto simp: evaluateBudget_def resolveNamespaceSpendUSD_def call_defs Let_def
      intro!: record_grows_from grows_snoc split: sum.splits prod.splits)

lemma Reconcile_without_querier:
  assumes r: "r_SpendQuerier r = None"
    and bn: "env_getBudgetNamespace env h req = Inr bn" and cost: "costBudgetEnabled (bn_Spec bn)"
    and on: "shouldScaleDeploymentsToZero (bn_Spec bn)" and live: "\<not> expired_at bn (now_of env h req)"
  shows "\<not> is_ok (fst (Reconcile r env req h)) \<and> list_all changes_nothing (calls_of r env req h)"
proof (cases "validateCostBudgetSpec (bn_Spec bn)")
  case (Some err)
  then show ?thesis by (simp add: Reconcile_invalid [OF bn] calls_of_def)
next
  case None
  note run = Reconcile_valid [OF bn None, of r]
  obtain x h3 where ttl: "evaluateTTL env bn (now_of env h req) (started_at h req) = (x, h3)" by (metis surj_pair)
  have "grows changes_nothing (started_at h req) (snd (evaluateTTL env bn (now_of env h req) (started_at h req)))"
    by (rule grows_mono [OF evaluateTTL_grows]) (auto elim: clock_call.elims)
  then have g3: "grows changes_nothing h h3" by (auto simp: ttl grows_def)
  show ?thesis
  proof (cases x)
    case (Inl err)
    with run ttl g3 show ?thesis by (auto simp: calls_of_def grows_def)
  next
    case (Inr t)
    from evaluateTTL_ok(1) [OF ttl [unfolded Inr]] live have "\<not> ttl_expired t" by simp
    then have rw: "reconcileWorkloads r env (now_of env h req) t (initial_locals bn) h3 =
        go_bind (ensureResources env (bn_Spec bn) h3) (\<lambda>_. enforceBudget r env (now_of env h req) (initial_locals bn))"
      using on by (simp add: reconcileWorkloads_def initial_locals_def)
    have c: "costBudgetEnabled (lv_spec (initial_locals bn))" using cost by (simp add: initial_locals_def)
    obtain y h1 where u: "ensureResources env (bn_Spec bn) h3 = (y, h1)" by (metis surj_pair)
    have "grows changes_nothing h3 (snd (ensureResources env (bn_Spec bn) h3))"
      by (rule grows_mono [OF ensureResources_grows]) (auto elim: setup_call.elims)
    with g3 u have g1: "grows changes_nothing h h1" by (auto intro: grows_trans)
    obtain err h2 where b: "evaluateBudget r env (now_of env h req) (initial_locals bn) h1 = (Inl err, h2)"
      using evaluateBudget_without_querier(1) [OF r c, of env "now_of env h req" h1] by (metis prod.collapse)
    have g2: "grows changes_nothing h h2"
      using evaluateBudget_without_querier(2) [OF r c, of h1 env "now_of env h req"] b grows_trans [OF g1] by simp
    show ?thesis
      using g1 g2 by (cases y) (auto simp: run ttl Inr rw u enforceBudget_def b calls_of_def grows_def)
  qed
qed

section \<open>Properties\<close>

text \<open>
  \<open>firstNonEmptyEnv\<close> takes the first variable, in the order given, whose value is not
  only white space, and returns the value without the white space around it; it returns the
  empty string exactly when there is none.
\<close>

theorem firstNonEmptyEnv_is_first:
  "firstNonEmptyEnv getenv keys =
   (case find (\<lambda>k. trimSpace (getenv k) \<noteq> []) keys of None \<Rightarrow> [] | Some k \<Rightarrow> trimSpace (getenv k))"
  by (induction keys) (simp_all add: Let_def)

text \<open>
  HTTP/2 is off unless asked for, on both servers. Applying the TLS options of the webhook
  server and of the metrics server, in order, to any configuration leaves HTTP/1.1 as the only
  protocol when the flag is not set, and leaves the configuration alone when it is; and the
  metrics endpoint has authentication exactly when it is served securely, as it is by default.
\<close>

theorem http2_off_unless_enabled:
  "foldl (\<lambda>c f. f c) conf (so_TLSOpts (mo_WebhookServer (managerOptions fl))) =
     (if enableHTTP2 fl then conf else conf\<lparr>NextProtos := [''http/1.1'']\<rparr>) \<and>
   foldl (\<lambda>c f. f c) conf (so_TLSOpts (mo_Metrics (managerOptions fl))) =
     (if enableHTTP2 fl then conf else conf\<lparr>NextProtos := [''http/1.1'']\<rparr>) \<and>
   so_FilterProvider (mo_Metrics (managerOptions fl)) = secureMetrics fl \<and>
   so_SecureServing (mo_Metrics (managerOptions fl)) = secureMetrics fl \<and>
   secureMetrics default_flags \<and> \<not> enableHTTP2 default_flags"
  by (simp add: managerOptions_def webhookServerOptions_def metricsServerOptions_def tlsOpts_def
      disableHTTP2_def default_flags_def Let_def)

text \<open>
  C38: A missing BigQuery client stops cost budgets and nothing else. When the client cannot be
  created, \<open>main\<close> still runs its manager with a reconciler that has no querier, unless something else
  fails, and it ends in no other way for it. Every run for an object without an enabled cost budget,
  or with enforcement off, or after its expiry, is the run that a reconciler with the client makes,
  call for call. For any other object the run ends in an error, and it patches nothing, deletes
  nothing, asks BigQuery nothing and writes no status; the spend of an enabled cost budget is
  answered with the error that names the missing client.
\<close>

theorem operator_starts_without_bigquery:
  assumes "mw_newClient w (firstNonEmptyEnv getenv [''GOOGLE_CLOUD_PROJECT'', ''GCLOUD_PROJECT'', ''GCP_PROJECT'']) = Some err"
  shows "let r = newReconciler env True False; r' = newReconciler env True True in
    (mainRun env w getenv fl = Returned r \<longleftrightarrow>
       mw_getConfig w = None \<and> mw_newManager w (managerOptions fl) = None \<and> mw_complete w (controllerConfig env) r = None \<and>
       mw_healthz w = None \<and> mw_readyz w = None \<and> mw_start w = None) \<and>
    (\<forall>x. mainRun env w getenv fl = Returned x \<longrightarrow> x = r) \<and>
    (\<forall>h req. (\<forall>bn. env_getBudgetNamespace env h req = Inr bn \<longrightarrow>
         \<not> costBudgetEnabled (bn_Spec bn) \<or> \<not> shouldScaleDeploymentsToZero (bn_Spec bn) \<or> expired_at bn (now_of env h req)) \<longrightarrow>
       Reconcile r env req h = Reconcile r' env req h) \<and>
    (\<forall>h req bn. env_getBudgetNamespace env h req = Inr bn \<and>
         costBudgetEnabled (bn_Spec bn) \<and> shouldScaleDeploymentsToZero (bn_Spec bn) \<and> \<not> expired_at bn (now_of env h req) \<longrightarrow>
       \<not> is_ok (fst (Reconcile r env req h)) \<and>
       list_all (\<lambda>c. \<not> is_patch c \<and> \<not> is_delete c \<and> \<not> is_cost_query c \<and> \<not> is_status_update c) (calls_of r env req h)) \<and>
    (\<forall>bn t h. costBudgetEnabled (bn_Spec bn) \<longrightarrow> resolveNamespaceSpendUSD r bn t h =
       (Inl (Errorf ''cost budget is enabled but BigQuery client is not configured on the operator'' []), bn, h))"
proof -
  have run: "mainRun env w getenv fl = Returned x \<longleftrightarrow>
      x = newReconciler env True False \<and> mw_getConfig w = None \<and> mw_newManager w (managerOptions fl) = None \<and>
      mw_complete w (controllerConfig env) (newReconciler env True False) = None \<and>
      mw_healthz w = None \<and> mw_readyz w = None \<and> mw_start w = None" for x
    using assms by (auto simp: mainRun_def SetupWithManager_def Let_def split: option.splits)
  have "resolveNamespaceSpendUSD (newReconciler env True False) bn t h =
      (Inl (Errorf ''cost budget is enabled but BigQuery client is not configured on the operator'' []), bn, h)"
    if "costBudgetEnabled (bn_Spec bn)" for bn t h
    using that by (simp add: resolveNamespaceSpendUSD_def newReconciler_def)
  moreover have "Reconcile (newReconciler env True False) env req h = Reconcile (newReconciler env True True) env req h"
    if "\<forall>bn. env_getBudgetNamespace env h req = Inr bn \<longrightarrow>
         \<not> costBudgetEnabled (bn_Spec bn) \<or> \<not> shouldScaleDeploymentsToZero (bn_Spec bn) \<or> expired_at bn (now_of env h req)"
    for h req
    using that by (intro Reconcile_no_costs) (simp_all add: newReconciler_def)
  moreover have "r_SpendQuerier (newReconciler env True False) = None" by (simp add: newReconciler_def)
  ultimately show ?thesis using Reconcile_without_querier [of "newReconciler env True False" env]
    unfolding Let_def run by blast
qed

theorem operator_starts_without_bigquery_witness:
  "let env = sample_env sample_state in
   mainRun env
      \<lparr>mw_getConfig = None, mw_newManager = \<lambda>_. None, mw_newClient = \<lambda>_. Some (ApiError ''no credentials''),
       mw_complete = \<lambda>_ _. None, mw_healthz = None, mw_readyz = None, mw_start = None\<rparr> (\<lambda>_. []) default_flags =
     Returned (newReconciler env True False) \<and>
   Reconcile (newReconciler env True False) env sample_request [] =
     Reconcile (newReconciler env True True) env sample_request []"
proof -
  let ?w = "\<lparr>mw_getConfig = None, mw_newManager = \<lambda>_. None, mw_newClient = \<lambda>_. Some (ApiError ''no credentials''),
       mw_complete = \<lambda>_ _. None, mw_healthz = None, mw_readyz = None, mw_start = None\<rparr> :: int main_world"
  have "mw_newClient ?w (firstNonEmptyEnv (\<lambda>_. []) [''GOOGLE_CLOUD_PROJECT'', ''GCLOUD_PROJECT'', ''GCP_PROJECT'']) =
      Some (ApiError ''no credentials'')" by simp
  note t = operator_starts_without_bigquery [OF this, of "sample_env sample_state" default_flags, unfolded Let_def]
  have "mainRun (sample_env sample_state) ?w (\<lambda>_. []) default_flags = Returned (newReconciler (sample_env sample_state) True False)"
    using t [THEN conjunct1] by simp
  moreover have "Reconcile (newReconciler (sample_env sample_state) True False) (sample_env sample_state) sample_request [] =
     Reconcile (newReconciler (sample_env sample_state) True True) (sample_env sample_state) sample_request []"
    by (rule t [THEN conjunct2, THEN conjunct2, THEN conjunct1, rule_format]) (auto simp: costBudgetEnabled_def)
  ultimately show ?thesis by (simp only: Let_def)
qed

end
