(* ===== verification/Command_Line.thy ===== *)
theory Command_Line
  imports Cmd_Main
begin

text \<open>
  The command line of \<open>cmd/main.go\<close>: the flags that \<open>main\<close> defines, and the parser of the package
  \<open>flag\<close> of the standard library. The flags that libraries add to the same command line (those of
  \<open>zap\<close> and \<open>kubeconfig\<close>) are a parameter.
\<close>

section \<open>Flags\<close>

text \<open>
  A flag: whether it is a boolean flag, and how it sets a value, with \<open>None\<close> when the value is
  refused.
\<close>

datatype 'f flag_def = FlagDef (fd_isBool: bool) (fd_set: "string \<Rightarrow> 'f \<Rightarrow> 'f option")

text \<open>\<open>strconv.ParseBool\<close>.\<close>

definition parseBool :: "string \<Rightarrow> bool option" where
  "parseBool s =
     (if s \<in> {''1'', ''t'', ''T'', ''TRUE'', ''true'', ''True''} then Some True
      else if s \<in> {''0'', ''f'', ''F'', ''FALSE'', ''false'', ''False''} then Some False
      else None)"

definition stringVar :: "(string \<Rightarrow> 'f \<Rightarrow> 'f) \<Rightarrow> 'f flag_def" where
  "stringVar put = FlagDef False (\<lambda>v f. Some (put v f))"

definition boolVar :: "(bool \<Rightarrow> 'f \<Rightarrow> 'f) \<Rightarrow> 'f flag_def" where
  "boolVar put = FlagDef True (\<lambda>v f. map_option (\<lambda>b. put b f) (parseBool v))"

text \<open>The flags of \<open>main\<close>, in the order of the code.\<close>

definition mainFlagDefs :: "(string \<times> main_flags flag_def) list" where
  "mainFlagDefs =
     [(''metrics-bind-address'', stringVar (\<lambda>v fl. fl\<lparr>metricsAddr := v\<rparr>)),
      (''health-probe-bind-address'', stringVar (\<lambda>v fl. fl\<lparr>probeAddr := v\<rparr>)),
      (''leader-elect'', boolVar (\<lambda>v fl. fl\<lparr>enableLeaderElection := v\<rparr>)),
      (''metrics-secure'', boolVar (\<lambda>v fl. fl\<lparr>secureMetrics := v\<rparr>)),
      (''webhook-cert-path'', stringVar (\<lambda>v fl. fl\<lparr>webhookCertPath := v\<rparr>)),
      (''webhook-cert-name'', stringVar (\<lambda>v fl. fl\<lparr>webhookCertName := v\<rparr>)),
      (''webhook-cert-key'', stringVar (\<lambda>v fl. fl\<lparr>webhookCertKey := v\<rparr>)),
      (''metrics-cert-path'', stringVar (\<lambda>v fl. fl\<lparr>metricsCertPath := v\<rparr>)),
      (''metrics-cert-name'', stringVar (\<lambda>v fl. fl\<lparr>metricsCertName := v\<rparr>)),
      (''metrics-cert-key'', stringVar (\<lambda>v fl. fl\<lparr>metricsCertKey := v\<rparr>)),
      (''enable-http2'', boolVar (\<lambda>v fl. fl\<lparr>enableHTTP2 := v\<rparr>))]"

text \<open>
  A library flag checks its value, and stores it where the rest of the model does not look. The
  package panics when a name is defined twice; the libraries that are linked in define no name of
  \<open>main\<close>'s, so such a collision is not modelled, and \<open>main\<close>'s flag counts.
\<close>

type_synonym lib_flags = "string \<rightharpoonup> bool \<times> (string \<Rightarrow> bool)"

definition commandLine :: "lib_flags \<Rightarrow> string \<rightharpoonup> main_flags flag_def" where
  "commandLine lib name =
     (case map_of mainFlagDefs name of
        Some d \<Rightarrow> Some d
      | None \<Rightarrow> map_option (\<lambda>(isBool, ok). FlagDef isBool (\<lambda>v fl. if ok v then Some fl else None)) (lib name))"

section \<open>The parser\<close>

datatype flag_error =
    BadSyntax string
  | NotDefined string
  | HelpAsked
  | InvalidValue string string
  | NeedsArgument string

text \<open>What stands before the first \<open>=\<close>, which is not the first character, and what stands after it.\<close>

fun cutName :: "string \<Rightarrow> string \<times> string option" where
  "cutName [] = ([], None)"
| "cutName (c # cs) =
     (c # takeWhile (\<lambda>d. d \<noteq> CHR ''='') cs,
      case dropWhile (\<lambda>d. d \<noteq> CHR ''='') cs of [] \<Rightarrow> None | d # v \<Rightarrow> Some v)"

text \<open>
  Whether an argument is a flag, and its name and value then: \<open>Inl\<close> for the end of the flags (\<open>True\<close>
  when the argument itself is dropped), \<open>Inr\<close> for the text after the dashes.
\<close>

definition dashes :: "string \<Rightarrow> bool + string" where
  "dashes s =
     (if length s < 2 \<or> hd s \<noteq> CHR ''-'' then Inl False
      else if s ! 1 = CHR ''-'' then (if length s = 2 then Inl True else Inr (drop 2 s))
      else Inr (drop 1 s))"

definition setOrFail :: "'f flag_def \<Rightarrow> string \<Rightarrow> string \<Rightarrow> 'f \<Rightarrow> flag_error + 'f" where
  "setOrFail d name v f = (case fd_set d v f of None \<Rightarrow> Inl (InvalidValue name v) | Some f1 \<Rightarrow> Inr f1)"

text \<open>\<open>FlagSet.Parse\<close>: the values, and the arguments that are left.\<close>

fun parseFlags :: "(string \<rightharpoonup> 'f flag_def) \<Rightarrow> string list \<Rightarrow> 'f \<Rightarrow> flag_error + 'f \<times> string list" where
  "parseFlags formal [] f = Inr (f, [])"
| "parseFlags formal (s # args) f =
     (case dashes s of
        Inl dropped \<Rightarrow> Inr (f, if dropped then args else s # args)
      | Inr text \<Rightarrow>
        if text = [] \<or> hd text = CHR ''-'' \<or> hd text = CHR ''='' then Inl (BadSyntax s)
        else case cutName text of (name, value) \<Rightarrow>
          case formal name of
            None \<Rightarrow> Inl (if name = ''help'' \<or> name = ''h'' then HelpAsked else NotDefined name)
          | Some d \<Rightarrow>
            if fd_isBool d then
              (case setOrFail d name (case value of None \<Rightarrow> ''true'' | Some v \<Rightarrow> v) f of
                 Inl err \<Rightarrow> Inl err
               | Inr f1 \<Rightarrow> parseFlags formal args f1)
            else
              (case value of
                 Some v \<Rightarrow> (case setOrFail d name v f of Inl err \<Rightarrow> Inl err | Inr f1 \<Rightarrow> parseFlags formal args f1)
               | None \<Rightarrow>
                 (case args of
                    [] \<Rightarrow> Inl (NeedsArgument name)
                  | v # rest \<Rightarrow>
                    (case setOrFail d name v f of Inl err \<Rightarrow> Inl err | Inr f1 \<Rightarrow> parseFlags formal rest f1))))"

declare parseFlags.simps(2) [simp del]

section \<open>The program\<close>

text \<open>\<open>flag.Parse\<close> exits with 0 when help was asked for, and with 2 on any other error.\<close>

datatype 'q program_end = Stopped nat | Ran "'q main_end"

definition mainProgram ::
  "'q env \<Rightarrow> 'q main_world \<Rightarrow> (string \<Rightarrow> string) \<Rightarrow> lib_flags \<Rightarrow> string list \<Rightarrow> 'q program_end" where
  "mainProgram env w getenv lib args =
     (case parseFlags (commandLine lib) args default_flags of
        Inl HelpAsked \<Rightarrow> Stopped 0
      | Inl err \<Rightarrow> Stopped 2
      | Inr (fl, rest) \<Rightarrow> Ran (mainRun env w getenv fl))"

section \<open>Single arguments\<close>

definition flag_name :: "string \<Rightarrow> bool" where
  "flag_name name \<longleftrightarrow> name \<noteq> [] \<and> hd name \<noteq> CHR ''-'' \<and> CHR ''='' \<notin> set name"

lemma cutName_plain: "flag_name name \<Longrightarrow> cutName name = (name, None)"
proof (cases name)
  case (Cons c cs)
  moreover assume "flag_name name"
  ultimately have d: "dropWhile (\<lambda>d. d \<noteq> CHR ''='') cs = []" "takeWhile (\<lambda>d. d \<noteq> CHR ''='') cs = cs"
    by (auto simp: flag_name_def dropWhile_eq_Nil_conv takeWhile_eq_all_conv)
  show ?thesis by (simp add: Cons d)
qed (simp add: flag_name_def)

lemma cutName_value: "flag_name name \<Longrightarrow> cutName (name @ CHR ''='' # v) = (name, Some v)"
proof (cases name)
  case (Cons c cs)
  moreover assume "flag_name name"
  ultimately have "dropWhile (\<lambda>d. d \<noteq> CHR ''='') (cs @ CHR ''='' # v) = CHR ''='' # v"
    "takeWhile (\<lambda>d. d \<noteq> CHR ''='') (cs @ CHR ''='' # v) = cs"
    by (auto simp: flag_name_def takeWhile_append dropWhile_append dropWhile_eq_Nil_conv takeWhile_eq_all_conv)
  with Cons show ?thesis by simp
qed (simp add: flag_name_def)

lemma dashes_flag: "flag_name name \<Longrightarrow> dashes (CHR ''-'' # CHR ''-'' # name @ text) = Inr (name @ text)"
  by (simp add: dashes_def flag_name_def)

lemma flag_text: "flag_name name \<Longrightarrow>
    \<not> (name @ text = [] \<or> hd (name @ text) = CHR ''-'' \<or> hd (name @ text) = CHR ''='')"
  by (cases name) (auto simp: flag_name_def)

lemma parse_with_value:
  "flag_name name \<Longrightarrow> formal name = Some d \<Longrightarrow>
   parseFlags formal ((CHR ''-'' # CHR ''-'' # name @ CHR ''='' # v) # args) f =
     (case setOrFail d name v f of Inl err \<Rightarrow> Inl err | Inr f1 \<Rightarrow> parseFlags formal args f1)"
  by (simp only: parseFlags.simps dashes_flag flag_text cutName_value if_False prod.case sum.case option.case if_cancel)

lemma parse_next_word:
  "flag_name name \<Longrightarrow> formal name = Some d \<Longrightarrow> \<not> fd_isBool d \<Longrightarrow>
   parseFlags formal ((CHR ''-'' # CHR ''-'' # name) # v # args) f =
     (case setOrFail d name v f of Inl err \<Rightarrow> Inl err | Inr f1 \<Rightarrow> parseFlags formal args f1)"
  using dashes_flag [of name "[]"] flag_text [of name "[]"]
  by (simp only: parseFlags.simps append_Nil2 cutName_plain if_False prod.case sum.case option.case list.case)

lemma parse_bool_plain:
  "flag_name name \<Longrightarrow> formal name = Some d \<Longrightarrow> fd_isBool d \<Longrightarrow>
   parseFlags formal ((CHR ''-'' # CHR ''-'' # name) # args) f =
     (case setOrFail d name ''true'' f of Inl err \<Rightarrow> Inl err | Inr f1 \<Rightarrow> parseFlags formal args f1)"
  using dashes_flag [of name "[]"] flag_text [of name "[]"]
  by (simp only: parseFlags.simps append_Nil2 cutName_plain if_False if_True prod.case sum.case option.case)

lemma parse_stops: "dashes s = Inl dropped \<Longrightarrow> parseFlags formal (s # args) f = Inr (f, if dropped then args else s # args)"
  by (simp add: parseFlags.simps)

section \<open>Properties\<close>

text \<open>How a command line for given values is written, with \<open>=\<close> or as separate words.\<close>

definition showBool :: "bool \<Rightarrow> string" where
  "showBool b = (if b then ''true'' else ''false'')"

definition flagValues :: "main_flags \<Rightarrow> (string \<times> bool \<times> string) list" where
  "flagValues fl =
     [(''metrics-bind-address'', False, metricsAddr fl), (''health-probe-bind-address'', False, probeAddr fl),
      (''leader-elect'', True, showBool (enableLeaderElection fl)), (''metrics-secure'', True, showBool (secureMetrics fl)),
      (''webhook-cert-path'', False, webhookCertPath fl), (''webhook-cert-name'', False, webhookCertName fl),
      (''webhook-cert-key'', False, webhookCertKey fl), (''metrics-cert-path'', False, metricsCertPath fl),
      (''metrics-cert-name'', False, metricsCertName fl), (''metrics-cert-key'', False, metricsCertKey fl),
      (''enable-http2'', True, showBool (enableHTTP2 fl))]"

fun writeFlags :: "bool \<Rightarrow> (string \<times> bool \<times> string) list \<Rightarrow> string list" where
  "writeFlags spaced [] = []"
| "writeFlags spaced ((name, isBool, v) # vs) =
     (if spaced \<and> \<not> isBool then (CHR ''-'' # CHR ''-'' # name) # v # writeFlags spaced vs
      else (CHR ''-'' # CHR ''-'' # name @ CHR ''='' # v) # writeFlags spaced vs)"

lemma setOrFail_Var [simp]:
  "setOrFail (stringVar put) name v f = Inr (put v f)"
  "setOrFail (boolVar put') name (showBool b) f = Inr (put' b f)"
  "fd_isBool (stringVar put) = False" "fd_isBool (boolVar put') = True"
  by (simp_all add: setOrFail_def stringVar_def boolVar_def showBool_def parseBool_def)

lemma parse_written_string:
  assumes "flag_name name" "formal name = Some (stringVar put)"
  shows "parseFlags formal (writeFlags spaced ((name, False, v) # vs) @ rest) f =
    parseFlags formal (writeFlags spaced vs @ rest) (put v f)"
  using parse_with_value [of name formal "stringVar put" v "writeFlags spaced vs @ rest" f]
    parse_next_word [of name formal "stringVar put" v "writeFlags spaced vs @ rest" f] assms by (cases spaced) simp_all

lemma parse_written_bool:
  assumes "flag_name name" "formal name = Some (boolVar put)"
  shows "parseFlags formal (writeFlags spaced ((name, True, showBool b) # vs) @ rest) f =
    parseFlags formal (writeFlags spaced vs @ rest) (put b f)"
  using parse_with_value [of name formal "boolVar put" "showBool b" "writeFlags spaced vs @ rest" f] assms by simp

lemmas parse_main_string = parse_written_string [where formal = "commandLine lib" for lib]
lemmas parse_main_bool = parse_written_bool [where formal = "commandLine lib" for lib]

lemma all_fields_set:
  "fl0\<lparr>metricsAddr := metricsAddr fl, probeAddr := probeAddr fl, enableLeaderElection := enableLeaderElection fl,
      secureMetrics := secureMetrics fl, webhookCertPath := webhookCertPath fl, webhookCertName := webhookCertName fl,
      webhookCertKey := webhookCertKey fl, metricsCertPath := metricsCertPath fl, metricsCertName := metricsCertName fl,
      metricsCertKey := metricsCertKey fl, enableHTTP2 := enableHTTP2 fl\<rparr> = (fl :: main_flags)"
  by (rule main_flags.equality) simp_all

lemma commandLine_main:
  "commandLine lib ''metrics-bind-address'' = Some (stringVar (\<lambda>v fl. fl\<lparr>metricsAddr := v\<rparr>))"
  "commandLine lib ''health-probe-bind-address'' = Some (stringVar (\<lambda>v fl. fl\<lparr>probeAddr := v\<rparr>))"
  "commandLine lib ''leader-elect'' = Some (boolVar (\<lambda>v fl. fl\<lparr>enableLeaderElection := v\<rparr>))"
  "commandLine lib ''metrics-secure'' = Some (boolVar (\<lambda>v fl. fl\<lparr>secureMetrics := v\<rparr>))"
  "commandLine lib ''webhook-cert-path'' = Some (stringVar (\<lambda>v fl. fl\<lparr>webhookCertPath := v\<rparr>))"
  "commandLine lib ''webhook-cert-name'' = Some (stringVar (\<lambda>v fl. fl\<lparr>webhookCertName := v\<rparr>))"
  "commandLine lib ''webhook-cert-key'' = Some (stringVar (\<lambda>v fl. fl\<lparr>webhookCertKey := v\<rparr>))"
  "commandLine lib ''metrics-cert-path'' = Some (stringVar (\<lambda>v fl. fl\<lparr>metricsCertPath := v\<rparr>))"
  "commandLine lib ''metrics-cert-name'' = Some (stringVar (\<lambda>v fl. fl\<lparr>metricsCertName := v\<rparr>))"
  "commandLine lib ''metrics-cert-key'' = Some (stringVar (\<lambda>v fl. fl\<lparr>metricsCertKey := v\<rparr>))"
  "commandLine lib ''enable-http2'' = Some (boolVar (\<lambda>v fl. fl\<lparr>enableHTTP2 := v\<rparr>))"
  by (simp_all add: commandLine_def mainFlagDefs_def)

lemma main_flag_name:
  "flag_name ''metrics-bind-address''" "flag_name ''health-probe-bind-address''" "flag_name ''leader-elect''"
  "flag_name ''metrics-secure''" "flag_name ''webhook-cert-path''" "flag_name ''webhook-cert-name''"
  "flag_name ''webhook-cert-key''" "flag_name ''metrics-cert-path''" "flag_name ''metrics-cert-name''"
  "flag_name ''metrics-cert-key''" "flag_name ''enable-http2''"
  by (simp_all add: flag_name_def)

lemma parse_all_written:
  "parseFlags (commandLine lib) (writeFlags spaced (flagValues fl) @ rest) fl0 = parseFlags (commandLine lib) rest fl"
proof -
  note p = parse_main_string [OF main_flag_name(1) commandLine_main(1)] parse_main_string [OF main_flag_name(2) commandLine_main(2)]
    parse_main_bool [OF main_flag_name(3) commandLine_main(3)] parse_main_bool [OF main_flag_name(4) commandLine_main(4)]
    parse_main_string [OF main_flag_name(5) commandLine_main(5)] parse_main_string [OF main_flag_name(6) commandLine_main(6)]
    parse_main_string [OF main_flag_name(7) commandLine_main(7)] parse_main_string [OF main_flag_name(8) commandLine_main(8)]
    parse_main_string [OF main_flag_name(9) commandLine_main(9)] parse_main_string [OF main_flag_name(10) commandLine_main(10)]
    parse_main_bool [OF main_flag_name(11) commandLine_main(11)]
  show ?thesis unfolding flagValues_def by (simp only: p all_fields_set writeFlags.simps(1) append_Nil)
qed

text \<open>
  C39: Every configuration can be written on the command line, and comes back: written with \<open>=\<close> or
  as separate words, whatever the strings in it are (values that start with a dash, or hold \<open>=\<close>,
  included) and whatever flags the libraries define, \<open>main\<close> runs with exactly these values; and a
  bad flag after them stops the program with exit code 2, help with 0, before anything is started.
\<close>

theorem command_line_roundtrip:
  "mainProgram env w getenv lib (writeFlags spaced (flagValues fl)) = Ran (mainRun env w getenv fl) \<and>
   (\<forall>name rest. flag_name name \<longrightarrow> commandLine lib name = None \<longrightarrow>
      mainProgram env w getenv lib (writeFlags spaced (flagValues fl) @ (''--'' @ name) # rest) =
        Stopped (if name = ''help'' \<or> name = ''h'' then 0 else 2))"
proof (intro conjI allI impI)
  show "mainProgram env w getenv lib (writeFlags spaced (flagValues fl)) = Ran (mainRun env w getenv fl)"
    using parse_all_written [of lib spaced fl "[]" default_flags] by (simp add: mainProgram_def)
  fix name rest
  assume n: "flag_name name" "commandLine lib name = None"
  have "parseFlags (commandLine lib) ((''--'' @ name) # rest) fl =
      Inl (if name = ''help'' \<or> name = ''h'' then HelpAsked else NotDefined name)"
    using dashes_flag [OF n(1), of "[]"] flag_text [OF n(1), of "[]"] n by (simp add: parseFlags.simps cutName_plain)
  then show "mainProgram env w getenv lib (writeFlags spaced (flagValues fl) @ (''--'' @ name) # rest) =
        Stopped (if name = ''help'' \<or> name = ''h'' then 0 else 2)"
    using parse_all_written [of lib spaced fl "(''--'' @ name) # rest" default_flags]
    by (simp add: mainProgram_def)
qed

theorem command_line_roundtrip_witness:
  "\<forall>w getenv. mainProgram (sample_env sample_state) w getenv Map.empty (writeFlags True (flagValues (default_flags\<lparr>metricsAddr := ''--x=1''\<rparr>)) @ [''--leader-elected'']) =
     Stopped 2"
proof -
  have "flag_name ''leader-elected''" by (simp add: flag_name_def)
  moreover have "commandLine Map.empty ''leader-elected'' = None" by (simp add: commandLine_def mainFlagDefs_def)
  ultimately show ?thesis
    using command_line_roundtrip [of "sample_env sample_state" _ _ Map.empty True "default_flags\<lparr>metricsAddr := ''--x=1''\<rparr>"] by force
qed

text \<open>
  A boolean flag takes no separate word. After \<open>--metrics-secure false\<close> the metrics are
  still served securely: the flag is set to true, \<open>false\<close> ends the flags, and all flags after it are
  ignored without an error; the same for each word that does not start with a dash.
\<close>

theorem bool_flag_takes_no_word:
  assumes "(name, put) \<in> {(''leader-elect'', \<lambda>b fl. fl\<lparr>enableLeaderElection := b\<rparr>),
      (''metrics-secure'', \<lambda>b fl. fl\<lparr>secureMetrics := b\<rparr>), (''enable-http2'', \<lambda>b fl. fl\<lparr>enableHTTP2 := b\<rparr>)}"
    and "word \<noteq> []" "hd word \<noteq> CHR ''-''"
  shows "mainProgram env w getenv lib (writeFlags spaced (flagValues fl) @ (''--'' @ name) # word # rest) =
     Ran (mainRun env w getenv (put True fl))"
proof -
  have n: "flag_name name" "commandLine lib name = Some (boolVar put)"
    using assms(1) main_flag_name commandLine_main by auto
  have "setOrFail (boolVar put) name ''true'' fl = Inr (put True fl)"
    using setOrFail_Var(2) [of put name True] by (simp add: showBool_def)
  with parse_bool_plain [OF n(1), of "commandLine lib" "boolVar put" "word # rest" fl] n(2) have "parseFlags (commandLine lib) ((''--'' @ name) # word # rest) fl =
      parseFlags (commandLine lib) (word # rest) (put True fl)" by simp
  also have "\<dots> = Inr (put True fl, word # rest)"
    using assms(2,3) by (simp add: parse_stops dashes_def)
  finally show ?thesis
    using parse_all_written [of lib spaced fl "(''--'' @ name) # word # rest" default_flags]
    by (simp add: mainProgram_def)
qed

theorem bool_flag_takes_no_word_witness:
  "\<forall>w getenv. mainProgram (sample_env sample_state) w getenv Map.empty (writeFlags True (flagValues default_flags) @ [''--metrics-secure'', ''false'', ''--leader-elect'']) =
     Ran (mainRun (sample_env sample_state) w getenv (default_flags\<lparr>secureMetrics := True\<rparr>))"
  using bool_flag_takes_no_word [where name = "''metrics-secure''" and put = "\<lambda>b fl. fl\<lparr>secureMetrics := b\<rparr>"
      and word = "''false''" and rest = "[''--leader-elect'']" and spaced = True and fl = default_flags
      and env = "sample_env sample_state" and lib = Map.empty] by auto

end
