(* ===== verification/Api_Scheme.thy ===== *)
theory Api_Scheme
  imports Environment
begin

text \<open>
  \<open>api/v1alpha1/groupversion_info.go\<close> and the \<open>init\<close> of \<open>cmd/main.go\<close>: the types of the API are
  added to the scheme of the manager before \<open>main\<close> runs. The scheme of \<open>k8s.io/apimachinery\<close> and the
  types of \<open>client-go\<close> are parameters.
\<close>

section \<open>Registration\<close>

record group_version =
  gv_Group :: string
  gv_Version :: string

definition SchemeGroupVersion :: group_version where
  "SchemeGroupVersion = \<lparr>gv_Group = ''finops.ealebed.github.io'', gv_Version = ''v1alpha1''\<rparr>"

definition GroupVersion :: group_version where
  "GroupVersion = SchemeGroupVersion"

text \<open>What a function does to a scheme: \<open>None\<close> is a panic, otherwise it returns an error or none.\<close>

type_synonym 's scheme_step = "'s \<Rightarrow> ('s \<times> go_error option) option"

record 's scheme_lib =
  sl_NewScheme :: 's
  sl_AddKnownTypes :: "group_version \<Rightarrow> string list \<Rightarrow> 's \<Rightarrow> 's option"
  sl_AddToGroupVersion :: "group_version \<Rightarrow> 's \<Rightarrow> 's"
  sl_BuilderAddToScheme :: "'s scheme_step list \<Rightarrow> 's scheme_step"
  sl_ClientGoAddToScheme :: "'s scheme_step"

definition addKnownTypes :: "'s scheme_lib \<Rightarrow> 's scheme_step" where
  "addKnownTypes lib s =
     (case sl_AddKnownTypes lib SchemeGroupVersion [''BudgetNamespace'', ''BudgetNamespaceList''] s of
        None \<Rightarrow> None
      | Some s1 \<Rightarrow> Some (sl_AddToGroupVersion lib SchemeGroupVersion s1, None))"

definition SchemeBuilder :: "'s scheme_lib \<Rightarrow> 's scheme_step list" where
  "SchemeBuilder lib = [addKnownTypes lib]"

definition AddToScheme :: "'s scheme_lib \<Rightarrow> 's scheme_step" where
  "AddToScheme lib = sl_BuilderAddToScheme lib (SchemeBuilder lib)"

text \<open>\<open>utilruntime.Must\<close> panics on an error.\<close>

definition must :: "('s \<times> go_error option) option \<Rightarrow> 's option" where
  "must res = (case res of Some (s, None) \<Rightarrow> Some s | _ \<Rightarrow> None)"

definition initScheme :: "'s scheme_lib \<Rightarrow> 's option" where
  "initScheme lib =
     (case must (sl_ClientGoAddToScheme lib (sl_NewScheme lib)) of
        None \<Rightarrow> None
      | Some s \<Rightarrow> must (AddToScheme lib s))"

section \<open>What is registered\<close>

text \<open>
  What is documented of the scheme, for the kinds \<open>known s\<close> that a scheme knows: adding types adds
  them and keeps the others, the common types of a group version take no kind away, and the builder
  applies its functions in order until one fails.
\<close>

definition scheme_contract :: "'s scheme_lib \<Rightarrow> ('s \<Rightarrow> (group_version \<times> string) set) \<Rightarrow> bool" where
  "scheme_contract lib known \<longleftrightarrow>
     (\<forall>gv kinds s s'. sl_AddKnownTypes lib gv kinds s = Some s' \<longrightarrow> known s \<union> {gv} \<times> set kinds \<subseteq> known s') \<and>
     (\<forall>gv s. known s \<subseteq> known (sl_AddToGroupVersion lib gv s)) \<and>
     (\<forall>s. sl_BuilderAddToScheme lib [] s = Some (s, None)) \<and>
     (\<forall>f fs s. sl_BuilderAddToScheme lib (f # fs) s =
        (case f s of Some (s', None) \<Rightarrow> sl_BuilderAddToScheme lib fs s' | failed \<Rightarrow> failed))"

lemma AddToScheme_is_addKnownTypes:
  "scheme_contract lib known \<Longrightarrow> AddToScheme lib s = addKnownTypes lib s"
  by (simp add: AddToScheme_def SchemeBuilder_def scheme_contract_def split: option.splits prod.splits)

text \<open>
  The start panics exactly when \<open>client-go\<close> fails or a kind is refused; otherwise the scheme knows
  both kinds of the API, and all that \<open>client-go\<close> has put in.
\<close>

theorem init_registers_the_api:
  assumes lib: "scheme_contract lib known"
  shows "case initScheme lib of
      None \<Rightarrow> must (sl_ClientGoAddToScheme lib (sl_NewScheme lib)) = None \<or>
        (\<exists>s. must (sl_ClientGoAddToScheme lib (sl_NewScheme lib)) = Some s \<and>
           sl_AddKnownTypes lib SchemeGroupVersion [''BudgetNamespace'', ''BudgetNamespaceList''] s = None)
    | Some s' \<Rightarrow> (\<exists>s. must (sl_ClientGoAddToScheme lib (sl_NewScheme lib)) = Some s \<and> known s \<subseteq> known s') \<and>
        (GroupVersion, ''BudgetNamespace'') \<in> known s' \<and> (GroupVersion, ''BudgetNamespaceList'') \<in> known s'"
proof (cases "must (sl_ClientGoAddToScheme lib (sl_NewScheme lib))")
  case None
  then show ?thesis by (simp add: initScheme_def)
next
  case (Some s)
  show ?thesis
  proof (cases "sl_AddKnownTypes lib SchemeGroupVersion [''BudgetNamespace'', ''BudgetNamespaceList''] s")
    case None
    with Some show ?thesis
      by (simp add: initScheme_def AddToScheme_is_addKnownTypes [OF lib] addKnownTypes_def must_def)
  next
    case (Some s1)
    let ?s' = "sl_AddToGroupVersion lib SchemeGroupVersion s1"
    from lib Some have "known s \<union> {SchemeGroupVersion} \<times> set [''BudgetNamespace'', ''BudgetNamespaceList''] \<subseteq> known s1"
      unfolding scheme_contract_def by blast
    moreover have "known s1 \<subseteq> known ?s'" using lib by (simp add: scheme_contract_def)
    ultimately have "known s \<subseteq> known ?s'" "(SchemeGroupVersion, ''BudgetNamespace'') \<in> known ?s'"
      "(SchemeGroupVersion, ''BudgetNamespaceList'') \<in> known ?s'" by auto
    moreover have "initScheme lib = Some ?s'"
      using \<open>must _ = Some s\<close> Some
      by (simp add: initScheme_def AddToScheme_is_addKnownTypes [OF lib] addKnownTypes_def must_def)
    ultimately show ?thesis using \<open>must _ = Some s\<close> by (simp add: GroupVersion_def)
  qed
qed

text \<open>A scheme that is the set of its kinds, and refuses none.\<close>

fun sample_builder :: "'s scheme_step list \<Rightarrow> 's scheme_step" where
  "sample_builder [] s = Some (s, None)"
| "sample_builder (f # fs) s = (case f s of Some (s', None) \<Rightarrow> sample_builder fs s' | failed \<Rightarrow> failed)"

definition sample_scheme :: "(group_version \<times> string) set scheme_lib" where
  "sample_scheme = \<lparr>sl_NewScheme = {}, sl_AddKnownTypes = \<lambda>gv kinds s. Some (s \<union> {gv} \<times> set kinds),
     sl_AddToGroupVersion = \<lambda>gv s. insert (gv, ''WatchEvent'') s, sl_BuilderAddToScheme = sample_builder,
     sl_ClientGoAddToScheme = \<lambda>s. Some (insert (\<lparr>gv_Group = [], gv_Version = ''v1''\<rparr>, ''Namespace'') s, None)\<rparr>"

theorem init_registers_the_api_witness:
  "\<exists>s. initScheme sample_scheme = Some s \<and> (GroupVersion, ''BudgetNamespace'') \<in> s"
proof -
  have c: "scheme_contract sample_scheme (\<lambda>s. s)" by (auto simp: scheme_contract_def sample_scheme_def split: option.splits)
  have "initScheme sample_scheme \<noteq> None"
    by (simp add: initScheme_def AddToScheme_def SchemeBuilder_def addKnownTypes_def must_def sample_scheme_def)
  with init_registers_the_api [OF c] show ?thesis by (auto split: option.splits)
qed

end
