(* ===== verification/Spec2Isabelle.thy ===== *)
theory Spec2Isabelle
  imports Cooldown_Runs Recovery_Schedule Panics Schema Rbac Deep_Copy Command_Line Api_Scheme
begin

text \<open>
  The Costguard operator.

  The operator watches \<open>BudgetNamespace\<close> objects of a Kubernetes cluster. Each of them manages
  one Namespace with a ResourceQuota and a LimitRange. It may give that Namespace a time to
  live, after which the Namespace is deleted, and it may enforce a budget: when the quota is
  used up, or the cost that BigQuery reports reaches a limit, all Deployments and StatefulSets
  of the Namespace are scaled to zero, and they are restored when the risk is over. This
  development models the Go code of the repository and shows what one run of \<open>Reconcile\<close>, and
  any sequence of runs, can do to the cluster. Paths below are relative to \<open>src/\<close>.

  \<^bold>\<open>The theories and the code\<close>

  \<^item> \<open>Prelude\<close>: Go errors, maps that can be nil, histories that grow, the lemma collections
    \<open>go_simps\<close> and \<open>grow_intros\<close>.
  \<^item> \<open>Go_Strings\<close>, \<open>Go_Float\<close>, \<open>Go_ParseFloat\<close>, \<open>Go_Time\<close>: the functions of Go's standard
    library that the code calls on strings, \<open>float64\<close> and times, each with its overflow and
    error cases: \<open>strings.TrimSpace\<close> and \<open>Split\<close>, \<open>strconv.ParseInt\<close>, \<open>ParseFloat\<close> and
    \<open>FormatFloat\<close>, \<open>time.ParseDuration\<close> and the operations of \<open>Time\<close> and \<open>Duration\<close>.
  \<^item> \<open>V1alpha1\<close>: the structs of \<open>api/v1alpha1/budgetnamespace_types.go\<close> as records.
  \<^item> \<open>Environment\<close>: the Kubernetes objects as far as the code reads them, the calls that the
    operator makes, and the record \<open>env\<close> of what is outside of the repository.
  \<^item> \<open>Workload_Contract\<close>: the interfaces that Deployments and StatefulSets share, as locales,
    and the abstract workload, a replica count that can be parked and unparked.
  \<^item> \<open>Workload_Scale\<close>: \<open>internal/controller/workload_scale.go\<close>.
  \<^item> \<open>Enforcement\<close>: \<open>internal/controller/budgetnamespace_enforcement.go\<close>, the cooldown, finding
    workloads that wait for a restore, and restoring them.
  \<^item> \<open>Lifecycle\<close>: scaling, restoring and edits by other people as steps of one workload.
  \<^item> \<open>Spend_Interface\<close> and \<open>Billing\<close>: the interface \<open>NamespaceSpendQuerier\<close> as a locale, and
    \<open>internal/billing/spend.go\<close>, which provides it.
  \<^item> \<open>Cost_Budget\<close>: \<open>internal/controller/cost_budget.go\<close>.
  \<^item> \<open>Namespace_Setup\<close>, \<open>Reconcile_TTL\<close>, \<open>Reconcile_Enforce\<close>, \<open>Reconcile_Status\<close> and \<open>Reconcile\<close>:
    \<open>internal/controller/budgetnamespace_controller.go\<close>. The long Go method is cut where its own
    blocks end; \<open>Reconcile\<close> and \<open>finishReconcile\<close> put the parts together, with every early return.
  \<^item> \<open>Watches\<close>: \<open>internal/controller/budgetnamespace_watches.go\<close>, and \<open>SetupWithManager\<close> with its
    predicate.
  \<^item> \<open>Operator_Runs\<close>: any number of runs, runs cut short by the end of the process, and events, one
    after the other.
  \<^item> \<open>Cooldown_Runs\<close>: the cooldown as an automaton, and runs against a server that remembers.
  \<^item> \<open>Deletion_Schedule\<close> and \<open>Recovery_Schedule\<close>: the runs that the returned delays ask for, up to the
    deletion after a TTL, and up to the restore after a scale-down.
  \<^item> \<open>Panics\<close>: which runs can panic.
  \<^item> \<open>Schema\<close>: the validation markers of the API types and the schema generated from them.
  \<^item> \<open>Rbac\<close>: the permission markers of the controller and \<open>config/rbac/role.yaml\<close>, against the calls of
    all histories of \<open>Operator_Runs\<close>. Which accesses a method of the client needs is a parameter, between
    the bounds of its documentation.
  \<^item> \<open>Deep_Copy\<close>: \<open>api/v1alpha1/zz_generated.deepcopy.go\<close>, on a memory with addresses.
  \<^item> \<open>Api_Scheme\<close>: \<open>api/v1alpha1/groupversion_info.go\<close> and the \<open>init\<close> of \<open>cmd/main.go\<close>.
  \<^item> \<open>Cmd_Main\<close> and \<open>Command_Line\<close>: \<open>cmd/main.go\<close>, from the command line to the reconciler that is
    started.
  \<^item> \<open>Sample_Environment\<close> and \<open>Sample_Runs\<close>: a concrete server, clock and billing table, and runs
    on them. Only the witnesses use them.

  \<^bold>\<open>How the code is modelled\<close>

  The operator keeps no state of its own between runs. What a run does is the list of calls
  that it makes, so the state that the definitions pass along is a history, all calls so far,
  oldest first. The environment answers each call as a function of that history. It may
  fail any call, change objects between two calls and let any time pass; nothing is assumed of
  it, and what a property needs is a hypothesis of the property.
  The Go variables that \<open>Reconcile\<close> mutates over several blocks, the object in memory included,
  are the fields of the record \<open>locals\<close>. A Go pair of a value and an error is \<open>go_result\<close> where
  the value is not used with the error, and a pair where it is, as for the counts of the scaling
  loops. A quantity of \<open>k8s.io/apimachinery\<close> is a value of an arbitrary type, with parsing and
  comparison in the environment; \<open>resource.MustParse\<close> may panic, which is the error \<open>GoPanic\<close>.
  The body of a loop over workloads, up to its patch, is a function from one object to the changed
  one, or \<open>None\<close> where the code says \<open>continue\<close>.
  Replica counts are 32-bit words. Durations are integers with the limits of \<open>int64\<close> written out
  where the standard library checks or saturates. \<open>float64\<close> is exact: the finite values are
  rationals, with rounding to nearest even, infinities and NaN.
  Every loop is a recursion over a list, a string or a decreasing measure, so nothing needs fuel
  and every definition is total.
  Objects are values everywhere but in \<open>Deep_Copy\<close>, where pointers, maps and slices are addresses of
  a memory; that theory says what the values of the others stand for, and why a value is enough.

  \<^bold>\<open>What is shown\<close>

  \<^item> Safety of one run, here: when a Namespace is deleted, when workloads are patched and in which
    direction, and that due deletions do take place; each for every server and every clock. These
    rest on \<open>permitted\<close> in \<open>Reconcile_Enforce\<close>, which bounds the calls of a run, and on the lemmas of
    \<open>Reconcile\<close> about how a run ends and where in its calls the budget is evaluated
    (\<open>evaluated_in_run\<close>).
  \<^item> The status, here: that it is written once and last, that it tells what was enforced and when,
    what the four conditions mean, and when the next run is due.
  \<^item> Safety over time, in \<open>Operator_Runs\<close> and \<open>Lifecycle\<close>, by rule induction.
  \<^item> The cooldown over any number of runs, in \<open>Cooldown_Runs\<close>: what the runs do refines an automaton
    that knows only the last scale-down. The hypotheses are that the server answers with the last
    status it has accepted, that the clock does not go back, and that a run that patched has its
    status accepted; \<open>unrecorded_scale_down_is_forgotten\<close> shows what happens without the last one.
  \<^item> The end of a time to live, in \<open>Deletion_Schedule\<close>, and of a recovery, in \<open>Recovery_Schedule\<close>: runs
    that start when the returned delays say end in the deletion or in the restore, with a bound on
    their number, by a measure on the time that is left.
  \<^item> What runs send, in \<open>Schema\<close> and \<open>Rbac\<close>: statuses that fit the schema, and calls that the role
    allows; and that no run panics but in \<open>resource.MustParse\<close>, in \<open>Panics\<close>.
  \<^item> Scaling and restoring, in \<open>Workload_Scale\<close> and \<open>Enforcement\<close>: what is patched, completeness against
    a specification of the patches of a list (\<open>to_scale\<close> and \<open>saving\<close>), stop at the first error,
    idempotence, the round trip, and what stays behind. Deployments and StatefulSets share the proofs,
    through the locales of \<open>Workload_Contract\<close>.
  \<^item> The cost budget, in \<open>Cost_Budget\<close> and \<open>Billing\<close>: the check of the spec, the thresholds, the
    throttled query with its exact round trip of the amount through the status, and the query text.
  \<^item> The objects of the namespace, in \<open>Namespace_Setup\<close>; the watch, in \<open>Watches\<close>; the start of the
    program, in \<open>Api_Scheme\<close>, \<open>Command_Line\<close> and \<open>Cmd_Main\<close>, with the runs of a program that has no
    BigQuery client.
  \<^item> In \<open>Deep_Copy\<close>: that a copy shares no memory with its original. A locale says what a deep copy is,
    and combinators build the copies of structs, slices and maps from those of their parts.
  \<^item> Behaviour that a user of the operator should know: \<open>expiry_between_clock_readings_is_lost\<close> and
    \<open>unrecorded_scale_down_is_forgotten\<close> here, \<open>Lifecycle.stale_count_is_restored\<close>,
    \<open>Enforcement.pending_after_restore_iff_unusable\<close> and \<open>Cost_Budget.nan_limit_is_never_reached\<close>.

  \<^bold>\<open>What is not modelled\<close>

  Log lines are left out. Texts for people (errors, messages of conditions and events) are kept as
  the format string with its arguments and are not rendered. Of Kubernetes objects only the fields
  that the code reads or writes are there. A \<open>time.Time\<close> has no time zone, and a time that is read
  back from the server is whatever the server returns. One run follows another: the controller works
  on one request at a time, and a second process is part of the environment. The libraries themselves,
  controller-runtime, the client, BigQuery and \<open>apimachinery\<close>, are the environment. Not modelled at
  all is \<open>test/utils\<close>, which drives the tests. Of a field's schema the defaults are left out, which the
  API server fills in.

  \<^bold>\<open>Order of the work\<close>

  The model was built from the workloads outwards: scaling and restoring, the cost budget, the blocks
  of \<open>Reconcile\<close>, the whole run, sequences of runs, the start of the program, and then the generated
  code and the manifests. Still open is recovery while a TTL runs as well, where the delays can be
  shorter than the poll interval.
\<close>

section \<open>Deletion\<close>

text \<open>
  C3: A Namespace is deleted only when its time is up. If a run of \<open>Reconcile\<close> issues a
  deletion, then the BudgetNamespace that it read has a TTL that parses, the clock was at or
  past creation time plus TTL plus the ten seconds of grace, the deleted Namespace is the one
  of its spec, and the same run neither created or updated anything in the namespace nor
  patched a workload.
\<close>

theorem namespace_deleted_only_when_due:
  assumes "CDeleteNamespace n \<in> set (calls_of (newReconciler env recorder clientOk) env req h)"
  shows "\<exists>bn d. env_getBudgetNamespace env h req = Inr bn \<and> spec_TTL (bn_Spec bn) \<noteq> [] \<and>
    parseDuration (spec_TTL (bn_Spec bn)) = Inr d \<and>
    bn_CreationTimestamp bn + d + 10 * second \<le> now_of env h req \<and>
    ns_Name n = spec_NamespaceName (bn_Spec bn) \<and>
    (\<forall>c \<in> set (calls_of (newReconciler env recorder clientOk) env req h). \<not> setup_call c \<and> \<not> is_patch c)"
proof -
  let ?r = "newReconciler env recorder clientOk"
  from assms obtain bn ttl h3 where bn: "env_getBudgetNamespace env h req = Inr bn"
    and ttl: "evaluateTTL env bn (now_of env h req) (started_at h req) = (Inr ttl, h3)"
    and p: "permitted ?r env (now_of env h req) ttl (initial_locals bn) h3 (CDeleteNamespace n)"
    by (rule wired.Reconcile_call) auto
  from p have due: "ttl_expired ttl" "ttl_deleting ttl" and n: "ns_Name n = spec_NamespaceName (bn_Spec bn)"
    by (simp_all add: permitted_def initial_locals_def)
  from due evaluateTTL_ok [OF ttl] have "delete_due_at bn (now_of env h req)" by simp
  then obtain d where "spec_TTL (bn_Spec bn) \<noteq> []" "parseDuration (spec_TTL (bn_Spec bn)) = Inr d"
    "bn_CreationTimestamp bn + d + 10 * second \<le> now_of env h req"
    by (auto simp: delete_due_at_def expiry_time_def ttlDeleteGracePeriod_def split: if_splits sum.splits)
  moreover have "\<not> setup_call c \<and> \<not> is_patch c" if "c \<in> set (calls_of ?r env req h)" for c
    using grows_drop [OF wired.Reconcile_grows [OF bn ttl, of env recorder clientOk]] that due
    by (cases c) (auto simp: calls_of_def list_all_iff permitted_def)
  ultimately show ?thesis using bn n by blast
qed

theorem namespace_deleted_only_when_due_witness:
  "\<exists>d. parseDuration ''1h'' = Inr d \<and>
     d + 10 * second \<le> now_of (sample_env sample_late) [] sample_request \<and>
     (\<forall>c \<in> set (calls_of (sample_operator sample_late) (sample_env sample_late) sample_request []). \<not> is_patch c)"
  using namespace_deleted_only_when_due
    [of "\<lparr>ns_Name = ''team'', ns_Labels = None, ns_Annotations = None\<rparr>" "sample_env sample_late" True True
      sample_request "[]"] sample_run_deletes
  by (auto simp: sample_late_def)

text \<open>
  C4: A due Namespace is deleted. When the object read passes the check of its cost budget
  and the clock is past creation plus TTL plus grace, the run makes exactly these calls: read
  the object, read the clock, delete the Namespace of the spec, and then, unless the deletion
  failed with something other than not-found, write the status. A failed deletion is the error
  of the run; not-found counts as done.
\<close>

theorem due_namespace_is_deleted:
  assumes "env_getBudgetNamespace env h req = Inr bn" "validateCostBudgetSpec (bn_Spec bn) = None"
    and "spec_TTL (bn_Spec bn) \<noteq> []" "parseDuration (spec_TTL (bn_Spec bn)) = Inr d"
    and "bn_CreationTimestamp bn + d + 10 * second \<le> now_of env h req"
  shows "\<exists>bn'. let n = \<lparr>ns_Name = spec_NamespaceName (bn_Spec bn), ns_Labels = None, ns_Annotations = None\<rparr>;
       h3 = h @ [CGetBudgetNamespace req, CNow] in
    case env_deleteNamespace env h3 n of
      Some err \<Rightarrow>
        if env_isNotFound env err
        then calls_of r env req h = [CGetBudgetNamespace req, CNow, CDeleteNamespace n, CUpdateStatus bn']
        else Reconcile r env req h =
          (Inl (Wrapf ''delete expired namespace %q: %w'' [FStr (spec_NamespaceName (bn_Spec bn))] err),
           h3 @ [CDeleteNamespace n])
    | None \<Rightarrow> calls_of r env req h = [CGetBudgetNamespace req, CNow, CDeleteNamespace n, CUpdateStatus bn']"
proof -
  have due: "delete_due_at bn (now_of env h req)" "expired_at bn (now_of env h req)"
    using assms(3-5) delete_due_expired [of bn]
    by (auto simp: delete_due_at_def expired_at_def expiry_time_def ttlDeleteGracePeriod_def)
  obtain ttl where ttl: "evaluateTTL env bn (now_of env h req) (started_at h req) = (Inr ttl, started_at h req)"
    using assms(3-5)
    by (auto simp: evaluateTTL_def Let_def time_ops ttlDeleteGracePeriod_def is_zero_time_def second_def)
  with due evaluateTTL_ok [OF ttl] have "ttl_expired ttl" "ttl_deleting ttl" by simp_all
  then show ?thesis
    by (auto simp: calls_of_def Reconcile_valid [OF assms(1,2)] ttl reconcileWorkloads_def deleteExpired_def
        call_defs finish_call initial_locals_def Let_def split: option.splits)
qed

theorem due_namespace_is_deleted_witness:
  "\<exists>bn'. calls_of (sample_operator sample_late) (sample_env sample_late) sample_request [] =
     [CGetBudgetNamespace sample_request, CNow,
      CDeleteNamespace \<lparr>ns_Name = ''team'', ns_Labels = None, ns_Annotations = None\<rparr>, CUpdateStatus bn']"
  using due_namespace_is_deleted [of "sample_env sample_late" "[]" sample_request "sample_bn_of sample_spec"
      "3600 * 1000000000" "sample_operator sample_late"]
  by (simp add: sample_late_def sample_parses now_of_def validateCostBudgetSpec_def hour_def minute_def second_def Let_def)

section \<open>Scaling and restoring\<close>

text \<open>
  C1: No workload is touched without a reason. If a run patches a Deployment or StatefulSet,
  then the object read has enforcement switched on with an action that scales, the deletion is
  not due, and: after expiry the patch scales to zero; before expiry the patch comes after the
  one evaluation of the budget in this run (\<open>evaluated_in_run\<close>: made with the history of the run
  up to it, before any patch, and no other call of the run reads the quota or the costs), and it
  scales to zero if that evaluation found the quota at a hard limit or the spend at the limit, and
  otherwise restores, which takes \<open>restoreOnRecovery\<close>, a spend within the budget, and that the
  last enforcement was not a scale-down less than the cooldown ago.
\<close>

theorem workload_patches_are_justified:
  assumes "c \<in> set (calls_of (newReconciler env recorder clientOk) env req h)" "is_patch c"
  shows "\<exists>bn. env_getBudgetNamespace env h req = Inr bn \<and>
    enf_Enabled (spec_Enforcement (bn_Spec bn)) \<and>
    enf_Action (spec_Enforcement (bn_Spec bn)) \<in> {[], ''ScaleToZero''} \<and>
    \<not> delete_due_at bn (now_of env h req) \<and>
    (if expired_at bn (now_of env h req) then scale_call c
     else \<exists>cooldown spend lv after.
       evaluated_in_run (newReconciler env recorder clientOk) env req h bn (cooldown, spend, lv) after \<and>
       c \<in> set after \<and> enforcementCooldown (bn_Spec bn) = Inr cooldown \<and>
       (if lv_quotaAtHardLimit lv \<or> lv_costOverBudget lv then scale_call c
        else restore_call c \<and> enf_RestoreOnRecovery (spec_Enforcement (bn_Spec bn)) \<and>
          withinCostBudgetForRestore (bn_Spec bn) spend = Inr True \<and>
          \<not> (st_LastEnforcementOperation (bn_Status bn) = ''ScaleToZero'' \<and>
             (\<exists>tm. st_LastEnforcementAt (bn_Status bn) = Some tm \<and> now_of env h req < tm + cooldown))))"
    (is "\<exists>bn. ?get bn \<and> ?enabled bn \<and> ?action bn \<and> ?not_due bn \<and> (if ?exp bn then ?sc else ?live bn)")
proof -
  let ?r = "newReconciler env recorder clientOk" and ?t = "now_of env h req"
  have k: "c \<noteq> CGetBudgetNamespace req \<and> c \<noteq> CNow \<and> \<not> is_status_update c"
    using assms(2) by (cases c) auto
  with assms(1) obtain bn ttl h3 where bn: "env_getBudgetNamespace env h req = Inr bn"
    and ttl: "evaluateTTL env bn ?t (started_at h req) = (Inr ttl, h3)"
    and p: "permitted ?r env ?t ttl (initial_locals bn) h3 c"
    by (blast elim: wired.Reconcile_call)
  note e = evaluateTTL_ok [OF ttl]
  have lv: "lv_spec (initial_locals bn) = bn_Spec bn" by (simp add: initial_locals_def)
  from p assms(2) have on: "shouldScaleDeploymentsToZero (bn_Spec bn)"
    and k: "if expired_at bn ?t then \<not> delete_due_at bn ?t \<and> scale_call c
      else may_patch (budget_found ?r env ?t (initial_locals bn) h3) ?t c"
    using e(1,2) by (simp_all add: permitted_def lv split: if_splits)
  have "?live bn" if live: "\<not> ?exp bn"
  proof -
    from live e(1) have unexpired: "\<not> ttl_expired ttl" by simp
    let ?h1 = "snd (ensureResources env (bn_Spec bn) h3)"
    from k live obtain cooldown spend lv1 h2
      where b: "evaluateBudget ?r env ?t (initial_locals bn) ?h1 = (Inr (cooldown, spend, lv1), h2)"
      and m: "if at_risk lv1 then scale_call c
        else restoreOnRecoveryEnabled (lv_spec lv1) \<and> restore_allowed lv1 cooldown spend ?t \<and> restore_call c"
      by (cases "evaluateBudget ?r env ?t (initial_locals bn) ?h1")
         (auto simp: may_patch_def budget_found_def lv split: sum.splits)
    obtain after where after: "evaluated_in_run ?r env req h bn (cooldown, spend, lv1) after" "c \<in> set after"
      by (rule wired.patch_evaluated [OF assms bn ttl unexpired on b])
    from evaluateBudget_ok [OF b] have "enforcementCooldown (bn_Spec bn) = Inr cooldown"
      by (simp add: lv)
    with after m evaluateBudget_keeps [OF b] show ?thesis
      by (intro exI [of _ cooldown] exI [of _ spend] exI [of _ lv1] exI [of _ after])
         (auto simp: at_risk_def restore_allowed_def canRestore_iff restoreOnRecoveryEnabled_def
           initial_locals_def split: if_splits)
  qed
  moreover have "?enabled bn \<and> ?action bn"
    using on by (auto simp: shouldScaleDeploymentsToZero_def enforcementOpScaleToZero_def Let_def split: if_splits)
  moreover have "?not_due bn" using k delete_due_expired by (auto split: if_splits)
  ultimately show ?thesis using bn k by (intro exI [of _ bn]) simp
qed

theorem workload_patches_are_justified_witness:
  "\<exists>d cooldown spend lv after.
     evaluated_in_run (sample_operator sample_calm) (sample_env sample_calm) sample_request []
       (sample_bn_of sample_spec) (cooldown, spend, lv) after \<and>
     CPatchDeployment sample_waiting d \<in> set after \<and>
     \<not> lv_quotaAtHardLimit lv \<and> restore_call (CPatchDeployment sample_waiting d :: int call)"
proof -
  from sample_run_restores obtain d where
    f: "filter is_patch (calls_of (sample_operator sample_calm) (sample_env sample_calm) sample_request []) =
      [CPatchDeployment sample_waiting d]" by blast
  have "CPatchDeployment sample_waiting d
      \<in> set (filter is_patch (calls_of (sample_operator sample_calm) (sample_env sample_calm) sample_request []))"
    by (simp add: f)
  then have c: "CPatchDeployment sample_waiting d
      \<in> set (calls_of (sample_operator sample_calm) (sample_env sample_calm) sample_request [])" by simp
  have w: "\<not> scale_call (CPatchDeployment sample_waiting d :: int call)"
    using dep.scale_None_iff [of sample_waiting] by (auto simp: sample_waiting_def)
  from workload_patches_are_justified [OF c] obtain cooldown spend lv after where
    "evaluated_in_run (sample_operator sample_calm) (sample_env sample_calm) sample_request []
       (sample_bn_of sample_spec) (cooldown, spend, lv) after"
    "CPatchDeployment sample_waiting d \<in> set after"
    "\<not> lv_quotaAtHardLimit lv" "restore_call (CPatchDeployment sample_waiting d :: int call)"
    using w by (simp del: restore_call.simps scale_call.simps split: if_splits) blast
  then show ?thesis by blast
qed

text \<open>
  C16: A run goes one way. Whatever the server answers, the patches that one run makes are all
  of a scale-down or all of a restore.
\<close>

theorem run_scales_or_restores:
  "let patches = filter is_patch (calls_of (newReconciler env recorder clientOk) env req h) in
   list_all scale_call patches \<or> list_all restore_call patches"
  using wired_one_way [of _ env recorder clientOk req h] by (auto simp: Let_def list_all_iff)

text \<open>
  C8: The status tells the truth about enforcement. When a run writes a status, and it patched
  workloads, then \<open>lastEnforcementOperation\<close> names the kind of the patches and
  \<open>lastEnforcementAt\<close> is a reading of the clock after the last of them; when it patched
  nothing, both are as they were read.
\<close>

theorem enforcement_is_recorded:
  assumes "env_getBudgetNamespace env h req = Inr bn"
    and "CUpdateStatus b \<in> set (calls_of (newReconciler env recorder clientOk) env req h)"
  shows "let calls = calls_of (newReconciler env recorder clientOk) env req h in
    if list_ex is_patch calls then
      (\<exists>before after. calls = before @ after \<and> \<not> list_ex is_patch after \<and>
         st_LastEnforcementAt (bn_Status b) = Some (env_clock env (h @ before))) \<and>
      (st_LastEnforcementOperation (bn_Status b) = ''ScaleToZero'' \<and> list_all scale_call (filter is_patch calls) \<or>
       st_LastEnforcementOperation (bn_Status b) = ''Restore'' \<and> list_all restore_call (filter is_patch calls))
    else st_LastEnforcementAt (bn_Status b) = st_LastEnforcementAt (bn_Status bn) \<and>
         st_LastEnforcementOperation (bn_Status b) = st_LastEnforcementOperation (bn_Status bn)"
proof -
  let ?r = "newReconciler env recorder clientOk"
  from assms obtain ttl h3 lv h4 where
    ttl: "evaluateTTL env bn (now_of env h req) (started_at h req) = (Inr ttl, h3)"
    and rw: "reconcileWorkloads ?r env (now_of env h req) ttl (initial_locals bn) h3 = (Inr lv, h4)"
    and b: "b = writeStatus env h4 ttl lv" and run: "snd (Reconcile ?r env req h) = h4 @ [CUpdateStatus b]"
    by (metis sum.inject(2) wired.Reconcile_status_call)
  have "grows clock_call (started_at h req) h3"
    using evaluateTTL_grows [of "started_at h req" env bn "now_of env h req"] ttl by simp
  then have "grows no_patch (started_at h req) h3"
    by (rule grows_mono) (auto elim: clock_call.elims)
  then have "grows no_patch h h3" by (auto simp: grows_def)
  from recorded_after [OF this wired.reconcileWorkloads_recorded [OF rw]]
  have "recorded env h (initial_locals bn) lv (h4 @ [CUpdateStatus b])"
    by (simp add: recorded_snoc)
  then obtain cs where cs: "h4 @ [CUpdateStatus b] = h @ cs" and r: "if list_ex is_patch cs then
        (\<exists>p s. cs = p @ s \<and> \<not> list_ex is_patch s \<and> lv_lastEnfAt lv = Some (env_clock env (h @ p))) \<and>
        (lv_lastEnfOp lv = ''ScaleToZero'' \<and> list_all scale_call (filter is_patch cs) \<or>
         lv_lastEnfOp lv = ''Restore'' \<and> list_all restore_call (filter is_patch cs))
      else same_record (initial_locals bn) lv" by (auto simp: recorded_def)
  have calls: "calls_of ?r env req h = cs" by (simp add: calls_of_def run cs)
  have "st_LastEnforcementAt (bn_Status b) = lv_lastEnfAt lv"
    "st_LastEnforcementOperation (bn_Status b) = lv_lastEnfOp lv"
    by (simp_all add: b writeStatus_def Let_def)
  with r show ?thesis unfolding calls Let_def by (simp add: initial_locals_def)
qed

theorem enforcement_is_recorded_witness:
  "\<exists>b tm. CUpdateStatus b \<in> set (calls_of (sample_operator sample_state) (sample_env sample_state) sample_request []) \<and>
     st_LastEnforcementAt (bn_Status b) = Some tm \<and> st_LastEnforcementOperation (bn_Status b) = ''ScaleToZero''"
proof -
  obtain d s where ds: "scaleDeployment sample_deployment = Some d" "scaleStatefulSet sample_stateful_set = Some s"
    by (rule sample_scaled)
  let ?calls = "calls_of (sample_operator sample_state) (sample_env sample_state) sample_request []"
  obtain b where b: "CUpdateStatus b \<in> set ?calls"
    using sample_run_updates [OF ds] by blast
  have f: "filter is_patch ?calls = [CPatchDeployment sample_deployment d, CPatchStatefulSet sample_stateful_set s]"
    by (rule sample_run_scales [OF ds])
  then have "list_ex is_patch ?calls" by (metis filter_no_patch list.distinct(1))
  moreover have "\<not> list_all restore_call (filter is_patch ?calls)"
    using scale_not_restore_call [of "CPatchDeployment sample_deployment d :: int call"] ds by (simp add: f)
  ultimately show ?thesis
    using enforcement_is_recorded [OF _ b] b by (auto simp: Let_def)
qed

text \<open>
  C35: A scale-down that was not recorded stays unrecorded. Suppose a scale-down happened, but
  its status update was refused, so that the object still names another last operation, while
  the workloads already stand at zero. Then no later run records the scale-down: every status
  that it writes names the old operation or a restore, and with that status a restore is
  allowed at any time, whatever the cooldown.
\<close>

theorem unrecorded_scale_down_is_forgotten:
  assumes "env_getBudgetNamespace env h req = Inr bn"
    and "st_LastEnforcementOperation (bn_Status bn) \<noteq> ''ScaleToZero''"
    and "nothing_to_scale env (spec_NamespaceName (bn_Spec bn))"
    and "CUpdateStatus b \<in> set (calls_of (newReconciler env recorder clientOk) env req h)"
  shows "st_LastEnforcementOperation (bn_Status b) \<in> {st_LastEnforcementOperation (bn_Status bn), ''Restore''} \<and>
    canRestoreAfterScaleDown (st_LastEnforcementOperation (bn_Status b)) (st_LastEnforcementAt (bn_Status b)) cooldown t"
proof -
  from assms(1,4) obtain ttl h3 lv h4 where
    rw: "reconcileWorkloads (newReconciler env recorder clientOk) env (now_of env h req) ttl (initial_locals bn) h3 =
      (Inr lv, h4)" and b: "b = writeStatus env h4 ttl lv"
    by (metis sum.inject(2) wired.Reconcile_status_call)
  from reconcileWorkloads_nothing [OF rw] assms(3)
  have "lv_lastEnfOp lv \<in> {st_LastEnforcementOperation (bn_Status bn), ''Restore''}"
    by (simp add: initial_locals_def enforcementOpRestore_def)
  with assms(2) show ?thesis by (auto simp: b canRestore_iff)
qed

theorem unrecorded_scale_down_is_forgotten_witness:
  "\<exists>b. CUpdateStatus b \<in> set (calls_of (newReconciler sample_parked True True) sample_parked sample_request []) \<and>
     st_LastEnforcementOperation (bn_Status b) \<noteq> ''ScaleToZero''"
proof -
  obtain b where b: "CUpdateStatus b \<in> set (calls_of (newReconciler sample_parked True True) sample_parked sample_request [])"
    using sample_run_parked by blast
  have "nothing_to_scale sample_parked ''team''" 
    unfolding nothing_to_scale_def
    by (intro allI exI [of _ "[sample_deployment]"] exI [of _ "[sample_stateful_set]"]) (simp add: sample_parked_def)
  with unrecorded_scale_down_is_forgotten [OF _ _ _ b, of "sample_bn_of sample_spec"] b show ?thesis
    by (auto simp: sample_parked_def sample_status_def)
qed

section \<open>The end of a run\<close>

text \<open>
  C19: The status is written once, last, and only after everything else went well. Either the
  run writes no status, and then it returns an error or the object did not exist; or the
  status update is its last call and decides the result: accepted, a requeue delay; a
  conflict, an immediate requeue without an error; otherwise the wrapped error.
\<close>

theorem status_is_written_last:
  "let r = newReconciler env recorder clientOk; calls = calls_of r env req h; res = fst (Reconcile r env req h) in
   filter is_status_update calls = [] \<and>
     (is_ok res = False \<or>
      res = Inr emptyResult \<and> (\<exists>err. env_getBudgetNamespace env h req = Inl err \<and> env_isNotFound env err)) \<or>
   (\<exists>cs b. calls = cs @ [CUpdateStatus b] \<and> filter is_status_update cs = [] \<and>
     (case env_updateStatus env (h @ cs) b of
        None \<Rightarrow> \<exists>delay \<ge> 0. res = Inr \<lparr>res_Requeue = False, res_RequeueAfter = delay\<rparr>
      | Some err \<Rightarrow>
          res = (if env_isConflict env err then Inr \<lparr>res_Requeue = True, res_RequeueAfter = 0\<rparr>
                 else Inl (Wrapf ''update BudgetNamespace status: %w'' [] err))))"
proof -
  let ?r = "newReconciler env recorder clientOk"
  have g: "filter is_status_update cs = []" if "grows (\<lambda>c. \<not> is_status_update c) h (h @ cs)" for cs
    using that by (auto simp: grows_def list_all_iff filter_empty_conv)
  show ?thesis
  proof (cases rule: wired.Reconcile_ends [of h env recorder clientOk env req])
    case no_status
    then obtain cs where "snd (Reconcile ?r env req h) = h @ cs" by (auto simp: grows_def)
    with no_status g show ?thesis by (auto simp: calls_of_def Let_def)
  next
    case (status bn ttl h3 lv h4)
    then obtain cs where cs: "h4 = h @ cs" by (auto simp: grows_def)
    have "res_RequeueAfter (requeueResult ttl (lv_spec lv)) \<ge> 0 \<and> \<not> res_Requeue (requeueResult ttl (lv_spec lv))"
      by (simp add: requeueResult_def Let_def emptyResult_def)
    then obtain delay where "delay \<ge> 0"
      "requeueResult ttl (lv_spec lv) = \<lparr>res_Requeue = False, res_RequeueAfter = delay\<rparr>"
      by (cases "requeueResult ttl (lv_spec lv)") auto
    with status(4,5) cs g show ?thesis
      by (auto simp: calls_of_def finishReconcile_def call_defs emptyResult_def Let_def split: option.splits)
  qed
qed

text \<open>
  C17: The requeue delay. After a run whose status was accepted, the delay is never negative
  and at most ten minutes, at most thirty seconds while enforcement is on and the TTL has not
  expired, and ten seconds once the deletion was issued. If neither reading of the clock, the first
  with which the run decides and the second with which it computes the delay, had reached the expiry
  (and the expiry is not the zero time), then the next run is scheduled after the second reading and
  no later than the expiry.
\<close>

theorem requeue_delay:
  assumes "Reconcile r env req h = (Inr res, h')" "env_getBudgetNamespace env h req = Inr bn"
    and "\<not> res_Requeue res"
  shows "0 \<le> res_RequeueAfter res \<and> res_RequeueAfter res \<le> 10 * minute \<and>
    (shouldScaleDeploymentsToZero (bn_Spec bn) \<and> \<not> expired_at bn (now_of env h req) \<longrightarrow>
       res_RequeueAfter res \<le> 30 * second) \<and>
    (delete_due_at bn (now_of env h req) \<longrightarrow> res_RequeueAfter res = 10 * second) \<and>
    (\<forall>e. expiry_time bn = Some e \<and> \<not> expired_at bn (now_of env h req) \<and> e \<noteq> zero_time \<and>
       env_clock env (started_at h req) < e \<longrightarrow>
       0 < res_RequeueAfter res \<and> env_clock env (started_at h req) + res_RequeueAfter res \<le> e)"
proof -
  from assms(1,2) obtain ttl h3 lv h4 where
    ttl: "evaluateTTL env bn (now_of env h req) (started_at h req) = (Inr ttl, h3)"
    and rw: "reconcileWorkloads r env (now_of env h req) ttl (initial_locals bn) h3 = (Inr lv, h4)"
    and fin: "finishReconcile env ttl lv h4 = (Inr res, h')"
    by (rule Reconcile_ok)
  from finishReconcile_ok(2) [OF fin] assms(3) have "res = requeueResult ttl (lv_spec lv)" by auto
  with reconcileWorkloads_keeps(1) [OF rw] have res: "res = requeueResult ttl (bn_Spec bn)"
    by (simp add: initial_locals_def)
  note e = evaluateTTL_ok(1,2) [OF ttl] and q = evaluateTTL_requeue [OF ttl]
  have "0 < ttl_requeueAfterTTL ttl \<and> env_clock env (started_at h req) + ttl_requeueAfterTTL ttl \<le> x"
    if "expiry_time bn = Some x" "\<not> expired_at bn (now_of env h req)" "x \<noteq> zero_time"
      "env_clock env (started_at h req) < x" for x
    using q(2) [OF that(2,1,3)] that(4)
    by (simp add: time_sub_def max_duration_def min_duration_def minute_def second_def)
  then show ?thesis
    using q(1,3) e delete_due_expired [of bn "now_of env h req"]
    by (auto simp: res requeueResult_def emptyResult_def enforcementPollInterval_def Let_def minute_def second_def
        split: if_splits)
qed

theorem requeue_delay_witness:
  "\<exists>h' delay. Reconcile (sample_operator sample_state) (sample_env sample_state) sample_request [] =
     (Inr \<lparr>res_Requeue = False, res_RequeueAfter = delay\<rparr>, h') \<and> 0 < delay \<and> delay \<le> 30 * second"
proof -
  obtain d s where ds: "scaleDeployment sample_deployment = Some d" "scaleStatefulSet sample_stateful_set = Some s"
    by (rule sample_scaled)
  obtain h' where run: "Reconcile (sample_operator sample_state) (sample_env sample_state) sample_request [] =
      (Inr (emptyResult\<lparr>res_RequeueAfter := 30 * second\<rparr>), h')"
    using sample_run_scales(2) [OF ds] by (metis prod.collapse)
  have "\<not> res_Requeue (emptyResult\<lparr>res_RequeueAfter := 30 * second\<rparr>)" by (simp add: emptyResult_def)
  from requeue_delay [OF run _ this] have "0 \<le> 30 * second \<and> 30 * second \<le> 10 * minute" by simp
  then show ?thesis using run by (auto simp: emptyResult_def second_def)
qed

text \<open>
  C36: A jump of the clock can lose the expiry. The code decides with one reading of the clock
  and computes the delay with a second one. If the expiry lies strictly between the two, the
  delay is negative, the poll of thirty seconds does not apply either, and an accepted run
  returns no requeue at all: nothing schedules the run that would notice the expiry.
\<close>

theorem expiry_between_clock_readings_is_lost:
  assumes "Reconcile r env req h = (Inr res, h')" "env_getBudgetNamespace env h req = Inr bn"
    and "expiry_time bn = Some e" "e \<noteq> zero_time"
    and "now_of env h req < e" "e < env_clock env (started_at h req)" "\<not> res_Requeue res"
  shows "res = \<lparr>res_Requeue = False, res_RequeueAfter = 0\<rparr>"
proof -
  from assms(1,2) obtain ttl h3 lv h4 where
    ttl: "evaluateTTL env bn (now_of env h req) (started_at h req) = (Inr ttl, h3)"
    and fin: "finishReconcile env ttl lv h4 = (Inr res, h')"
    by (rule Reconcile_ok)
  from finishReconcile_ok(2) [OF fin] assms(7) have res: "res = requeueResult ttl (lv_spec lv)" by auto
  have "\<not> expired_at bn (now_of env h req)" using assms(3,5) by (simp add: expired_at_def)
  from evaluateTTL_requeue(2) [OF ttl this assms(3,4)] assms(6)
  have "ttl_requeueAfterTTL ttl < 0"
    by (simp add: time_sub_def min_duration_def max_duration_def)
  then show ?thesis
    by (simp add: res requeueResult_def emptyResult_def enforcementPollInterval_def Let_def second_def)
qed

theorem expiry_between_clock_readings_is_lost_witness:
  "fst (Reconcile (newReconciler sample_jump True True) sample_jump sample_request []) =
     Inr \<lparr>res_Requeue = False, res_RequeueAfter = 0\<rparr>"
proof -
  have e: "expiry_time (sample_bn_of sample_spec) = Some (3600 * 1000000000)"
    by (simp add: expiry_time_def sample_parses)
  obtain res h' where run: "Reconcile (newReconciler sample_jump True True) sample_jump sample_request [] = (Inr res, h')"
    and "\<not> res_Requeue res"
    using sample_run_jump by blast
  from expiry_between_clock_readings_is_lost [OF run _ e _ _ _ this(2)] run show ?thesis
    by (simp add: now_of_def second_def zero_time_def sample_jump_def)
qed

section \<open>Conditions\<close>

text \<open>
  C22: The conditions describe the run. For every server, when a run writes a status and the
  condition helper keeps its documented promise, then in the status written: \<open>Ready\<close> is
  true exactly when the TTL has not expired; \<open>Expired\<close> is set to whether it has, if there
  is a TTL, and left alone if there is none; both carry the generation of the object; and a
  condition of any type other than the four of the operator is left alone.
\<close>

theorem conditions_ready_and_expired:
  assumes "env_getBudgetNamespace env h req = Inr bn"
    and "CUpdateStatus b \<in> set (calls_of (newReconciler env recorder clientOk) env req h)"
    and "\<And>h'. condition_setter (env_setStatusCondition env h')"
  shows "let cs = st_Conditions (bn_Status b); old = st_Conditions (bn_Status bn); e = expired_at bn (now_of env h req) in
    (\<exists>c. findCondition cs ''Ready'' = Some c \<and> cond_ObservedGeneration c = bn_Generation bn \<and>
       cond_Status c = (if e then ConditionFalse else ConditionTrue) \<and>
       cond_Reason c = (if e then ''TTLExpired'' else ''NamespaceReady'')) \<and>
    (if spec_TTL (bn_Spec bn) = [] then findCondition cs ''Expired'' = findCondition old ''Expired''
     else \<exists>c. findCondition cs ''Expired'' = Some c \<and> cond_ObservedGeneration c = bn_Generation bn \<and>
       cond_Status c = (if e then ConditionTrue else ConditionFalse) \<and>
       cond_Reason c = (if e then ''TTLExpired'' else ''TTLActive'')) \<and>
    (\<forall>t. t \<notin> {''Ready'', ''Expired'', ''OverBudget'', ''EnforcementRecoveryDeferred''} \<longrightarrow>
       findCondition cs t = findCondition old t)"
proof -
  let ?r = "newReconciler env recorder clientOk"
  obtain ttl h3 lv h4 where
    cs: "st_Conditions (bn_Status b) =
       foldl (env_setStatusCondition env h4) (st_Conditions (bn_Status bn)) (newConditions ttl lv)"
    and lv: "lv_spec lv = bn_Spec bn" "bn_Generation (lv_bn lv) = bn_Generation bn"
    and e: "ttl_expired ttl = expired_at bn (now_of env h req)"
    by (rule wired.Reconcile_conditions [OF assms(1,2)])
  note same = condition_setter.fold_same [OF assms(3) _ newConditions_distinct, of _ ttl lv h4 "st_Conditions (bn_Status bn)", folded cs]
  note other = condition_setter.fold_other [OF assms(3), of _ "newConditions ttl lv" h4 "st_Conditions (bn_Status bn)", folded cs]
  have types: "cond_Type ` set (newConditions ttl lv) \<subseteq>
      (if spec_TTL (bn_Spec bn) = [] then {} else {''Expired''}) \<union> {''Ready'', ''OverBudget'', ''EnforcementRecoveryDeferred''}"
    using expiredCondition_type [of ttl lv] overBudgetCondition_type [of ttl lv] lv
    by (auto simp: newConditions_def condition_types expiredCondition_def split: option.splits)
  have expired: "expired_at bn (now_of env h req) \<Longrightarrow> spec_TTL (bn_Spec bn) \<noteq> []"
    by (auto simp: expired_at_def expiry_time_def)
  have ready: "readyCondition ttl lv \<in> set (newConditions ttl lv)" by (simp add: newConditions_def)
  have "\<exists>c. findCondition (st_Conditions (bn_Status b)) ''Ready'' = Some c \<and>
      cond_ObservedGeneration c = bn_Generation bn \<and>
      cond_Status c = (if expired_at bn (now_of env h req) then ConditionFalse else ConditionTrue) \<and>
      cond_Reason c = (if expired_at bn (now_of env h req) then ''TTLExpired'' else ''NamespaceReady'')"
    using same [OF ready] lv e expired
    by (auto simp: readyCondition_def conditionTypeReady_def conditionReasonTTLExpired_def Let_def)
  moreover have "if spec_TTL (bn_Spec bn) = []
      then findCondition (st_Conditions (bn_Status b)) ''Expired'' = findCondition (st_Conditions (bn_Status bn)) ''Expired''
      else \<exists>c. findCondition (st_Conditions (bn_Status b)) ''Expired'' = Some c \<and>
        cond_ObservedGeneration c = bn_Generation bn \<and>
        cond_Status c = (if expired_at bn (now_of env h req) then ConditionTrue else ConditionFalse) \<and>
        cond_Reason c = (if expired_at bn (now_of env h req) then ''TTLExpired'' else ''TTLActive'')"
  proof (cases "spec_TTL (bn_Spec bn) = []")
    case True
    with types other [of "''Expired''"] show ?thesis by auto
  next
    case False
    then obtain c where c: "expiredCondition ttl lv = Some c"
      by (cases "ttl_expired ttl") (simp_all add: expiredCondition_def lv)
    then have "c \<in> set (newConditions ttl lv)" by (simp add: newConditions_def)
    from same [OF this] c False lv e show ?thesis
      by (auto simp: expiredCondition_def conditionTypeExpired_def conditionReasonTTLExpired_def split: if_splits)
  qed
  moreover have "findCondition (st_Conditions (bn_Status b)) t = findCondition (st_Conditions (bn_Status bn)) t"
    if "t \<notin> {''Ready'', ''Expired'', ''OverBudget'', ''EnforcementRecoveryDeferred''}" for t
    by (rule other) (use that types in \<open>auto split: if_splits\<close>)
  ultimately show ?thesis by (simp add: Let_def)
qed

theorem conditions_ready_and_expired_witness:
  "\<exists>b c. CUpdateStatus b \<in> set (calls_of (sample_operator sample_late) (sample_env sample_late) sample_request []) \<and>
     findCondition (st_Conditions (bn_Status b)) ''Ready'' = Some c \<and> cond_Status c = ConditionFalse"
proof -
  from sample_run_deletes obtain b where
    b: "CUpdateStatus b \<in> set (calls_of (sample_operator sample_late) (sample_env sample_late) sample_request [])"
    by fastforce
  have law: "condition_setter (env_setStatusCondition (sample_env sample_late) h')" for h'
    by (simp add: sample_env_def put.condition_setter_axioms)
  have "expired_at (sample_bn_of sample_spec) (now_of (sample_env sample_late) [] sample_request)"
    by (simp add: expired_at_def expiry_time_def sample_parses now_of_def sample_late_def second_def minute_def hour_def)
  with conditions_ready_and_expired [OF _ b law] b show ?thesis by (auto simp: Let_def)
qed

text \<open>
  C9: The OverBudget and EnforcementRecoveryDeferred conditions describe the run. In a
  written status \<open>OverBudget\<close> is false with \<open>EnforcementDisabled\<close> when enforcement is off,
  false with \<open>TTLExpired\<close> after expiry, and otherwise true exactly when the one evaluation of the
  budget in this run (\<open>evaluated_in_run\<close>), made before any patch and before this status, found it at a
  limit, with the reason that names which one (\<open>budget_verdict\<close>). \<open>EnforcementRecoveryDeferred\<close>
  is always set, and if it is true, then enforcement is on, the TTL has not expired, and the
  last enforcement was a scale-down less than the cooldown before the run.
\<close>

theorem conditions_over_budget_and_deferred:
  assumes "env_getBudgetNamespace env h req = Inr bn"
    and "CUpdateStatus b \<in> set (calls_of (newReconciler env recorder clientOk) env req h)"
    and "\<And>h'. condition_setter (env_setStatusCondition env h')"
  shows "let cs = st_Conditions (bn_Status b); now = now_of env h req; on = shouldScaleDeploymentsToZero (bn_Spec bn) in
    (\<exists>c. findCondition cs ''OverBudget'' = Some c \<and>
       (if \<not> on then cond_Status c = ConditionFalse \<and> cond_Reason c = ''EnforcementDisabled''
        else if expired_at bn now then cond_Status c = ConditionFalse \<and> cond_Reason c = ''TTLExpired''
        else \<exists>cooldown spend lv after.
          evaluated_in_run (newReconciler env recorder clientOk) env req h bn (cooldown, spend, lv) after \<and>
          CUpdateStatus b \<in> set after \<and>
          (cond_Status c, cond_Reason c) = budget_verdict (lv_quotaAtHardLimit lv) (lv_costOverBudget lv))) \<and>
    (\<exists>c. findCondition cs ''EnforcementRecoveryDeferred'' = Some c \<and>
       (cond_Status c = ConditionFalse \<or>
        cond_Status c = ConditionTrue \<and> on \<and> expired_at bn now = False \<and>
        (\<exists>cooldown tm. enforcementCooldown (bn_Spec bn) = Inr cooldown \<and>
           st_LastEnforcementOperation (bn_Status bn) = ''ScaleToZero'' \<and>
           st_LastEnforcementAt (bn_Status bn) = Some tm \<and> now < tm + cooldown)))"
proof -
  let ?r = "newReconciler env recorder clientOk" and ?now = "now_of env h req"
  obtain ttl h3 lv h4 where valid: "validateCostBudgetSpec (bn_Spec bn) = None"
    and ttl: "evaluateTTL env bn ?now (started_at h req) = (Inr ttl, h3)"
    and rw: "reconcileWorkloads ?r env ?now ttl (initial_locals bn) h3 = (Inr lv, h4)"
    and cs: "st_Conditions (bn_Status b) =
       foldl (env_setStatusCondition env h4) (st_Conditions (bn_Status bn)) (newConditions ttl lv)"
    and lv: "lv_spec lv = bn_Spec bn"
    and e: "ttl_expired ttl = expired_at bn ?now"
    and q: "lv_quotaEvaluated lv \<longleftrightarrow> \<not> expired_at bn ?now \<and> shouldScaleDeploymentsToZero (bn_Spec bn)"
    by (rule wired.Reconcile_conditions [OF assms(1,2)])
  note same = condition_setter.fold_same [OF assms(3) _ newConditions_distinct, of _ ttl lv h4 "st_Conditions (bn_Status bn)", folded cs]
  have i: "lv_spec (initial_locals bn) = bn_Spec bn" "\<not> lv_recoveryDeferred (initial_locals bn)"
    "lv_lastEnfOp (initial_locals bn) = st_LastEnforcementOperation (bn_Status bn)"
    "lv_lastEnfAt (initial_locals bn) = st_LastEnforcementAt (bn_Status bn)"
    by (simp_all add: initial_locals_def)
  let ?deferred = "\<lambda>c. cond_Status c = ConditionFalse \<or>
        cond_Status c = ConditionTrue \<and> shouldScaleDeploymentsToZero (bn_Spec bn) \<and> expired_at bn ?now = False \<and>
        (\<exists>cooldown tm. enforcementCooldown (bn_Spec bn) = Inr cooldown \<and>
           st_LastEnforcementOperation (bn_Status bn) = ''ScaleToZero'' \<and>
           st_LastEnforcementAt (bn_Status bn) = Some tm \<and> ?now < tm + cooldown)"
  have "?deferred (deferredCondition lv)"
    using reconcileWorkloads_deferred [OF rw _ i(2)] lv e i by (auto simp: deferredCondition_status)
  moreover have "deferredCondition lv \<in> set (newConditions ttl lv)" by (simp add: newConditions_def)
  ultimately have d: "\<exists>c. findCondition (st_Conditions (bn_Status b)) ''EnforcementRecoveryDeferred'' = Some c \<and> ?deferred c"
    using same [of "deferredCondition lv"] by (auto simp: conditionTypeEnforcementRecoveryDeferred_def)
  have "expired_at bn ?now \<Longrightarrow> spec_TTL (bn_Spec bn) \<noteq> []"
    by (auto simp: expired_at_def expiry_time_def)
  then obtain c where c: "overBudgetCondition ttl lv = Some c"
    using overBudgetCondition_set [of ttl lv] e q lv by auto
  then have "c \<in> set (newConditions ttl lv)" "cond_Type c = ''OverBudget''"
    using overBudgetCondition_type [OF c] by (simp_all add: newConditions_def conditionTypeOverBudget_def)
  with same [of c] obtain c' where c': "findCondition (st_Conditions (bn_Status b)) ''OverBudget'' = Some c'"
    "cond_Status c' = cond_Status c" "cond_Reason c' = cond_Reason c" by auto
  show ?thesis
  proof (cases "shouldScaleDeploymentsToZero (bn_Spec bn) \<and> \<not> expired_at bn ?now")
    case True
    with rw e i(1) obtain u h1 h2 cooldown spend lv1 where u: "ensureResources env (bn_Spec bn) h3 = (Inr u, h1)"
      and eb: "evaluateBudget ?r env ?now (initial_locals bn) h1 = (Inr (cooldown, spend, lv1), h2)"
      and found: "lv_quotaAtHardLimit lv = lv_quotaAtHardLimit lv1" "lv_costOverBudget lv = lv_costOverBudget lv1"
      by (metis reconcileWorkloads_found)
    from True e obtain after where after: "evaluated_in_run ?r env req h bn (cooldown, spend, lv1) after"
      using wired.evaluation_in_run [OF assms(1) valid ttl _ _ u eb] by blast
    have "CUpdateStatus b \<in> set after" by (rule evaluated_first [OF after assms(2)]) simp
    with after found True d c' overBudgetCondition_reason [OF c] lv q show ?thesis by (simp add: Let_def) blast
  next
    case False
    with d c' overBudgetCondition_reason [OF c] lv q show ?thesis by (auto simp: Let_def split: if_splits)
  qed
qed

theorem conditions_over_budget_and_deferred_witness:
  "\<exists>b c cooldown spend lv after.
     findCondition (st_Conditions (bn_Status b)) ''OverBudget'' = Some c \<and>
     evaluated_in_run (sample_operator sample_state) (sample_env sample_state) sample_request []
       (sample_bn_of sample_spec) (cooldown, spend, lv) after \<and> CUpdateStatus b \<in> set after \<and>
     (cond_Status c, cond_Reason c) = budget_verdict (lv_quotaAtHardLimit lv) (lv_costOverBudget lv)"
proof -
  obtain d s where ds: "scaleDeployment sample_deployment = Some d" "scaleStatefulSet sample_stateful_set = Some s"
    by (rule sample_scaled)
  from sample_run_updates [OF ds] obtain b where
    b: "CUpdateStatus b \<in> set (calls_of (sample_operator sample_state) (sample_env sample_state) sample_request [])"
    by blast
  have law: "condition_setter (env_setStatusCondition (sample_env sample_state) h')" for h'
    by (simp add: sample_env_def put.condition_setter_axioms)
  have "\<not> expired_at (sample_bn_of sample_spec) (now_of (sample_env sample_state) [] sample_request)"
    "shouldScaleDeploymentsToZero sample_spec"
    by (simp_all add: expired_at_def expiry_time_def sample_parses now_of_def second_def
        shouldScaleDeploymentsToZero_def enforcementOpScaleToZero_def)
  with conditions_over_budget_and_deferred [OF _ b law, of "sample_bn_of sample_spec"] b
  show ?thesis by (simp add: Let_def) blast
qed

end
